theory Spec2Isabelle
  imports Complex_Main "HOL-Library.Multiset" "HOL-Library.AList"
begin

section \<open>JavaScript values\<close>

text \<open>
  Request bodies, HTTP response envelopes and the rows handed back by \<open>jobModel\<close> and
  \<open>userModel\<close> are JSON documents. A number is the rational it denotes in JSON;
  \<open>JNaN\<close> is what \<open>parseFloat\<close> may produce. An object is an association list in
  insertion order with distinct keys.
\<close>

datatype jsval =
    JUndefined
  | JNull
  | JBool bool
  | JNum rat
  | JNaN
  | JStr string
  | JArr "jsval list"
  | JObj "(string \<times> jsval) list"

type_synonym jsobj = "(string \<times> jsval) list"

text \<open>The truthiness test behind \<open>if (x)\<close>, \<open>!x\<close>, \<open>x || y\<close>, \<open>x && y\<close> and \<open>x ? a : b\<close>.\<close>

fun truthy :: "jsval \<Rightarrow> bool" where
  "truthy JUndefined = False"
| "truthy JNull = False"
| "truthy (JBool b) = b"
| "truthy (JNum n) = (n \<noteq> 0)"
| "truthy JNaN = False"
| "truthy (JStr s) = (s \<noteq> [])"
| "truthy (JArr xs) = True"
| "truthy (JObj kvs) = True"

definition js_or :: "jsval \<Rightarrow> jsval \<Rightarrow> jsval" where
  "js_or a b = (if truthy a then a else b)"

definition js_and :: "jsval \<Rightarrow> jsval \<Rightarrow> jsval" where
  "js_and a b = (if truthy a then b else a)"

text \<open>
  \<open>o[k]\<close> on an object literal: the stored value, or \<open>undefined\<close> for a key that is
  absent.
\<close>

definition obj_get :: "jsobj \<Rightarrow> string \<Rightarrow> jsval" where
  "obj_get kvs k = (case map_of kvs k of None \<Rightarrow> JUndefined | Some v \<Rightarrow> v)"

text \<open>
  \<open>v.k\<close> on an arbitrary value: a \<open>TypeError\<close> (here \<open>None\<close>) on \<open>null\<close> and
  \<open>undefined\<close>, the stored value on an object, \<open>undefined\<close> on the other values (none of
  the keys read by this program is a built-in property of a string, number or array).
\<close>

fun js_get :: "jsval \<Rightarrow> string \<Rightarrow> jsval option" where
  "js_get JUndefined k = None"
| "js_get JNull k = None"
| "js_get (JObj kvs) k = Some (obj_get kvs k)"
| "js_get v k = Some JUndefined"

text \<open>\<open>v?.k\<close>: optional chaining gives \<open>undefined\<close> where \<open>v.k\<close> would throw.\<close>

definition js_get_opt :: "jsval \<Rightarrow> string \<Rightarrow> jsval" where
  "js_get_opt v k = (case js_get v k of None \<Rightarrow> JUndefined | Some x \<Rightarrow> x)"

text \<open>\<open>o.k = v\<close>: an existing key keeps its position, a new key goes last.\<close>

definition obj_set :: "jsobj \<Rightarrow> string \<Rightarrow> jsval \<Rightarrow> jsobj" where
  "obj_set kvs k v = AList.update k v kvs"

text \<open>What a rejected promise or a \<open>throw\<close> carries: code, column and message.\<close>

datatype error = Error (code: string) (column: string) (error_message: string)

section \<open>The client service \<open>jobService\<close>\<close>

text \<open>
  Everything \<open>jobService.addComment\<close> and \<open>jobService.deleteComment\<close> obtain from
  their surroundings: the outcome of the HTTP call (\<open>Inl\<close> when axios rejects, else
  \<open>response.data\<close>), the token in local storage, the decoding
  \<open>JSON.parse(atob(token.split('.')[1]))\<close> (\<open>None\<close> when it throws), and the values
  returned by \<open>uuidv4()\<close>, \<open>new Date().toISOString()\<close> and \<open>Date.now()\<close>.
\<close>

record client =
  API_URL :: string
  axios_post :: "string \<Rightarrow> jsval \<Rightarrow> error + jsval"
  axios_delete :: "string \<Rightarrow> error + jsval"
  localStorage_token :: "string option"
  decode_payload :: "string \<Rightarrow> jsval option"
  uuidv4 :: string
  toISOString_now :: string
  Date_now :: rat

text \<open>
  Lines 249-255 and 275-281: \<open>userInfo\<close> starts as \<open>null\<close>, is decoded from the token
  when the token is a non-empty string, and stays \<open>null\<close> when decoding throws.
\<close>

definition userInfo :: "client \<Rightarrow> jsval" where
  "userInfo cl =
     (case localStorage_token cl of
        None \<Rightarrow> JNull
      | Some token \<Rightarrow>
          if token \<noteq> [] then
            (case decode_payload cl token of None \<Rightarrow> JNull | Some v \<Rightarrow> v)
          else JNull)"

text \<open>The object literal \<open>newComment\<close> of lines 257-268, repeated at lines 283-294.\<close>

definition newComment :: "client \<Rightarrow> string \<Rightarrow> string \<Rightarrow> jsval" where
  "newComment cl jobId content =
     JObj [(''id'', JStr (uuidv4 cl)),
           (''userId'', js_or (js_get_opt (userInfo cl) ''userId'') (JStr ''unknown'')),
           (''jobId'', JStr jobId),
           (''content'', JStr content),
           (''text'', JStr content),
           (''createdAt'', JStr (toISOString_now cl)),
           (''timestamp'', JNum (Date_now cl)),
           (''userName'', js_or (js_get_opt (userInfo cl) ''name'') (JStr ''Usuario'')),
           (''userPhoto'', js_or (js_get_opt (userInfo cl) ''photoURL'') (JStr '''')),
           (''replies'', JArr [])]"

text \<open>
  The \<open>try\<close> block of \<open>addComment\<close>: the request, then
  \<open>response.data && response.data.comment\<close>, then the client-side fallback.
\<close>

definition jobService_addComment_try :: "client \<Rightarrow> string \<Rightarrow> string \<Rightarrow> error + jsval" where
  "jobService_addComment_try cl jobId content =
     (case axios_post cl (API_URL cl @ ''/jobs/'' @ jobId @ ''/comments'')
                         (JObj [(''content'', JStr content)]) of
        Inl e \<Rightarrow> Inl e
      | Inr data \<Rightarrow>
          if truthy (js_and data (js_get_opt data ''comment''))
          then Inr (js_get_opt data ''comment'')
          else Inr (newComment cl jobId content))"

text \<open>The whole function: the \<open>catch\<close> block returns a generated comment as well.\<close>

definition jobService_addComment :: "client \<Rightarrow> string \<Rightarrow> string \<Rightarrow> error + jsval" where
  "jobService_addComment cl jobId content =
     (case jobService_addComment_try cl jobId content of
        Inl e \<Rightarrow> Inr (newComment cl jobId content)
      | Inr v \<Rightarrow> Inr v)"

text \<open>
  The \<open>try\<close> block of \<open>deleteComment\<close>: \<open>response.data.success || true\<close>, where
  reading \<open>success\<close> off a \<open>null\<close> or \<open>undefined\<close> body throws.
\<close>

definition jobService_deleteComment_try :: "client \<Rightarrow> string \<Rightarrow> error + jsval" where
  "jobService_deleteComment_try cl commentId =
     (case axios_delete cl (API_URL cl @ ''/comments/'' @ commentId) of
        Inl e \<Rightarrow> Inl e
      | Inr data \<Rightarrow>
          (case js_get data ''success'' of
             None \<Rightarrow> Inl (Error ''TypeError'' [] ''Cannot read properties of undefined'')
           | Some s \<Rightarrow> Inr (js_or s (JBool True))))"

definition jobService_deleteComment :: "client \<Rightarrow> string \<Rightarrow> error + jsval" where
  "jobService_deleteComment cl commentId =
     (case jobService_deleteComment_try cl commentId of
        Inl e \<Rightarrow> Inr (JBool True)
      | Inr v \<Rightarrow> Inr v)"

section \<open>The tables \<open>Comments\<close> and \<open>Replies\<close>\<close>

text \<open>
  The columns \<open>id\<close>, \<open>userId\<close>, \<open>jobId\<close> and \<open>commentId\<close> are declared \<open>UUID\<close>. A
  value of that type can be written in more than one way (in upper or lower case, for
  one), and the database compares values, not their spellings. It hands a stored value
  back in one spelling, its output form, and that text stands for the value here: two
  values are equal exactly when their output forms are.
\<close>

type_synonym uuid = string

text \<open>
  One row of each table, with the columns of the \<open>CREATE TABLE\<close> statements in
  \<open>commentModel.ensureTable\<close> and \<open>commentModel.ensureRepliesTable\<close>. Timestamps are
  points on the integer time line. The objects that the handlers pass to
  \<open>commentModel.create\<close> and \<open>commentModel.addReply\<close> have the same members; there the
  identifiers are the texts as the program wrote or received them.
\<close>

record comment =
  c_id :: uuid
  c_content :: string
  c_userId :: uuid
  c_jobId :: uuid
  c_createdAt :: int
  c_updatedAt :: int

record reply =
  r_id :: uuid
  r_content :: string
  r_userId :: uuid
  r_commentId :: uuid
  r_createdAt :: int
  r_updatedAt :: int

text \<open>
  A row of \<open>Comments c LEFT JOIN Replies r\<close>: the columns of \<open>c\<close>, and the columns of the
  matching \<open>r\<close>, which are all \<open>NULL\<close> together when the comment has no reply.
\<close>

record joined_row = comment +
  joined :: "reply option"

text \<open>The objects built by \<open>findByJobId\<close> and \<open>findById\<close>: a comment with its replies.\<close>

record comment_obj = comment +
  replies :: "reply list"

text \<open>
  What the foreign key of \<open>Replies.commentId\<close> does when a comment that replies refer
  to is deleted. The statement of \<open>ensureRepliesTable\<close> declares \<open>ON DELETE CASCADE\<close>;
  it runs only when the table is not there yet, so a table found in place has the rule
  it was created with. \<open>NoAction\<close> is the rule of a key declared without the clause: the
  delete is refused.
\<close>

datatype on_delete = Cascade | NoAction

text \<open>
  The state that the handlers act on: the two tables (\<open>None\<close> while a table has not been
  created), the rule of the foreign key of \<open>Replies\<close>, the number of \<open>db.query\<close> calls
  issued so far, and the calls made to \<open>jobModel\<close>, whose source is not part of the
  program text at hand.
\<close>

datatype call =
    JobCreate jsobj
  | JobFindById string
  | JobUpdate string jsobj
  | JobDelete string

record world =
  Comments :: "comment list option"
  Replies :: "reply list option"
  fk_rule :: on_delete
  queries :: nat
  calls :: "call list"

text \<open>
  What is fixed during a run but not decided by the program: whether the \<open>n\<close>-th
  \<open>db.query\<close> rejects for a reason outside the two tables (a lost connection, a
  constraint on \<open>Users\<close> or \<open>Jobs\<close>), how the database reads a text as a \<open>UUID\<close>
  (\<open>None\<close> for a text that spells no value), the order in which the database hands back
  the rows of a sorted result, the answers of \<open>jobModel\<close> and \<open>userModel\<close>,
  \<open>parseFloat\<close>, and the text that the driver stores for a value that is not a string.
\<close>

record env =
  fault :: "nat \<Rightarrow> bool"
  uuid_in :: "string \<Rightarrow> uuid option"
  result_order :: "joined_row list \<Rightarrow> joined_row list"
  replies_order :: "reply list \<Rightarrow> reply list"
  jm_create :: "jsobj \<Rightarrow> error + jsobj"
  jm_findById :: "string \<Rightarrow> error + jsobj option"
  jm_update :: "string \<Rightarrow> jsobj \<Rightarrow> error + jsobj option"
  jm_delete :: "string \<Rightarrow> error + unit"
  um_findById :: "string \<Rightarrow> error + jsobj option"
  parseFloat :: "jsval \<Rightarrow> jsval"
  pg_text :: "jsval \<Rightarrow> string"

text \<open>An \<open>async\<close> computation: it may throw, and it changes the state.\<close>

type_synonym 'a io = "world \<Rightarrow> (error + 'a) \<times> world"

definition ret :: "'a \<Rightarrow> 'a io" where
  "ret a w = (Inr a, w)"

definition throw :: "error \<Rightarrow> 'a io" where
  "throw e w = (Inl e, w)"

text \<open>\<open>const x = await m; k x\<close>: an exception of \<open>m\<close> skips \<open>k\<close>.\<close>

definition await :: "'a io \<Rightarrow> ('a \<Rightarrow> 'b io) \<Rightarrow> 'b io" where
  "await m k w = (case m w of (Inl e, w1) \<Rightarrow> (Inl e, w1) | (Inr a, w1) \<Rightarrow> k a w1)"

text \<open>\<open>try { m } catch (error) { h error }\<close>.\<close>

definition try_catch :: "'a io \<Rightarrow> (error \<Rightarrow> 'a io) \<Rightarrow> 'a io" where
  "try_catch m h w = (case m w of (Inl e, w1) \<Rightarrow> h e w1 | (Inr a, w1) \<Rightarrow> (Inr a, w1))"

subsection \<open>The SQL statements\<close>

definition connection_error :: error where
  "connection_error = Error ''08006'' [] ''connection failure''"

definition undefined_table :: error where
  "undefined_table = Error ''42P01'' [] ''relation does not exist''"

definition duplicate_table :: error where
  "duplicate_table = Error ''42P07'' [] ''relation already exists''"

definition unique_violation :: error where
  "unique_violation = Error ''23505'' ''id'' ''duplicate key value''"

definition foreign_key_violation :: error where
  "foreign_key_violation = Error ''23503'' ''commentId'' ''violates foreign key constraint''"

definition invalid_text_representation :: error where
  "invalid_text_representation = Error ''22P02'' [] ''invalid input syntax for type uuid''"

text \<open>
  \<open>db.query\<close>: the call is counted; it rejects when the environment says so, and
  otherwise runs the statement, which rejects or answers and updates the tables.
\<close>

definition db_query :: "env \<Rightarrow> (world \<Rightarrow> error + 'a \<times> world) \<Rightarrow> 'a io" where
  "db_query ev stmt w =
     (let w1 = w\<lparr>queries := queries w + 1\<rparr> in
      if fault ev (queries w) then (Inl connection_error, w1)
      else (case stmt w1 of Inl e \<Rightarrow> (Inl e, w1) | Inr (a, w2) \<Rightarrow> (Inr a, w2)))"

text \<open>\<open>SELECT EXISTS (... table_name = 'Comments')\<close> and the same for \<open>Replies\<close>.\<close>

definition sql_exists_Comments :: "world \<Rightarrow> error + bool \<times> world" where
  "sql_exists_Comments w = Inr (Comments w \<noteq> None, w)"

definition sql_exists_Replies :: "world \<Rightarrow> error + bool \<times> world" where
  "sql_exists_Replies w = Inr (Replies w \<noteq> None, w)"

text \<open>
  \<open>CREATE TABLE "Comments"\<close> and \<open>CREATE TABLE "Replies"\<close>; the second refers to the
  first in its foreign key, so it needs that table.
\<close>

definition sql_create_Comments :: "world \<Rightarrow> error + unit \<times> world" where
  "sql_create_Comments w =
     (if Comments w \<noteq> None then Inl duplicate_table
      else Inr ((), w\<lparr>Comments := Some []\<rparr>))"

definition sql_create_Replies :: "world \<Rightarrow> error + unit \<times> world" where
  "sql_create_Replies w =
     (if Replies w \<noteq> None then Inl duplicate_table
      else if Comments w = None then Inl undefined_table
      else Inr ((), w\<lparr>Replies := Some [], fk_rule := Cascade\<rparr>))"

text \<open>
  The row that the database makes of the values bound to an \<open>INSERT\<close>: the three texts
  bound to \<open>UUID\<close> columns are read as values; there is no row when one of them spells
  none.
\<close>

definition comment_row :: "env \<Rightarrow> comment \<Rightarrow> comment option" where
  "comment_row ev c =
     (case (uuid_in ev (c_id c), uuid_in ev (c_userId c), uuid_in ev (c_jobId c)) of
        (Some i, Some u, Some j) \<Rightarrow> Some (c\<lparr>c_id := i, c_userId := u, c_jobId := j\<rparr>)
      | _ \<Rightarrow> None)"

definition reply_row :: "env \<Rightarrow> reply \<Rightarrow> reply option" where
  "reply_row ev r =
     (case (uuid_in ev (r_id r), uuid_in ev (r_userId r), uuid_in ev (r_commentId r)) of
        (Some i, Some u, Some c) \<Rightarrow> Some (r\<lparr>r_id := i, r_userId := u, r_commentId := c\<rparr>)
      | _ \<Rightarrow> None)"

text \<open>\<open>INSERT INTO "Comments" ... RETURNING *\<close>; \<open>id\<close> is the primary key.\<close>

definition sql_insert_comment :: "env \<Rightarrow> comment \<Rightarrow> world \<Rightarrow> error + comment \<times> world" where
  "sql_insert_comment ev c w =
     (case Comments w of
        None \<Rightarrow> Inl undefined_table
      | Some cs \<Rightarrow>
          (case comment_row ev c of
             None \<Rightarrow> Inl invalid_text_representation
           | Some row \<Rightarrow>
               if c_id row \<in> set (map c_id cs) then Inl unique_violation
               else Inr (row, w\<lparr>Comments := Some (cs @ [row])\<rparr>)))"

text \<open>
  \<open>INSERT INTO "Replies" ... RETURNING *\<close>; \<open>id\<close> is the primary key and \<open>commentId\<close>
  references \<open>Comments(id)\<close>.
\<close>

definition sql_insert_reply :: "env \<Rightarrow> reply \<Rightarrow> world \<Rightarrow> error + reply \<times> world" where
  "sql_insert_reply ev r w =
     (case (Comments w, Replies w) of
        (Some cs, Some rs) \<Rightarrow>
          (case reply_row ev r of
             None \<Rightarrow> Inl invalid_text_representation
           | Some row \<Rightarrow>
               if r_id row \<in> set (map r_id rs) then Inl unique_violation
               else if r_commentId row \<notin> set (map c_id cs) then Inl foreign_key_violation
               else Inr (row, w\<lparr>Replies := Some (rs @ [row])\<rparr>))
      | _ \<Rightarrow> Inl undefined_table)"

text \<open>\<open>FROM "Comments" c LEFT JOIN "Replies" r ON c.id = r."commentId"\<close>.\<close>

definition left_join :: "comment list \<Rightarrow> reply list \<Rightarrow> joined_row list" where
  "left_join cs rs =
     concat (map (\<lambda>c.
       (let ms = filter (\<lambda>r. c_id c = r_commentId r) rs in
        if ms = [] then [comment.extend c (joined_row.fields None)]
        else map (\<lambda>r. comment.extend c (joined_row.fields (Some r))) ms)) cs)"

text \<open>
  \<open>ORDER BY c."createdAt" DESC, r."createdAt" ASC\<close>: the row \<open>a\<close> may stand before the
  row \<open>b\<close>. In ascending order \<open>NULL\<close> sorts after every value.
\<close>

definition reply_le :: "reply option \<Rightarrow> reply option \<Rightarrow> bool" where
  "reply_le x y =
     (case y of
        None \<Rightarrow> True
      | Some ry \<Rightarrow> (case x of None \<Rightarrow> False | Some rx \<Rightarrow> r_createdAt rx \<le> r_createdAt ry))"

definition row_le :: "joined_row \<Rightarrow> joined_row \<Rightarrow> bool" where
  "row_le a b =
     (c_createdAt a > c_createdAt b \<or>
      (c_createdAt a = c_createdAt b \<and> reply_le (joined a) (joined b)))"

text \<open>
  What SQL promises about the answer to an \<open>ORDER BY\<close> query: the rows of the unsorted
  result, each as often as there, in an order that respects the sort keys. Rows with
  equal keys come in an order of the database's choosing.
\<close>

definition sql_ordered :: "joined_row list \<Rightarrow> joined_row list \<Rightarrow> bool" where
  "sql_ordered unsorted rows \<longleftrightarrow> mset rows = mset unsorted \<and> sorted_wrt row_le rows"

definition replies_ordered :: "reply list \<Rightarrow> reply list \<Rightarrow> bool" where
  "replies_ordered unsorted rows \<longleftrightarrow>
     mset rows = mset unsorted \<and> sorted_wrt (\<lambda>a b. r_createdAt a \<le> r_createdAt b) rows"

text \<open>
  The rows that the query of \<open>findByJobId\<close>, lines 37-45, selects for the job with the
  identifier \<open>j\<close>, before they are sorted.
\<close>

definition join_of :: "uuid \<Rightarrow> comment list \<Rightarrow> reply list \<Rightarrow> joined_row list" where
  "join_of j cs rs = filter (\<lambda>row. c_jobId row = j) (left_join cs rs)"

text \<open>
  In each statement below \<open>$1\<close> is compared with a \<open>UUID\<close> column, so the text bound to
  it is read as a value of that type; a statement whose parameter spells no value is
  rejected.
\<close>

definition sql_select_join :: "env \<Rightarrow> string \<Rightarrow> world \<Rightarrow> error + joined_row list \<times> world" where
  "sql_select_join ev jobId w =
     (case (Comments w, Replies w) of
        (Some cs, Some rs) \<Rightarrow>
          (case uuid_in ev jobId of
             None \<Rightarrow> Inl invalid_text_representation
           | Some j \<Rightarrow> Inr (result_order ev (join_of j cs rs), w))
      | _ \<Rightarrow> Inl undefined_table)"

text \<open>\<open>SELECT * FROM "Comments" WHERE id = $1\<close>.\<close>

definition sql_select_comment :: "env \<Rightarrow> string \<Rightarrow> world \<Rightarrow> error + comment list \<times> world" where
  "sql_select_comment ev commentId w =
     (case Comments w of
        None \<Rightarrow> Inl undefined_table
      | Some cs \<Rightarrow>
          (case uuid_in ev commentId of
             None \<Rightarrow> Inl invalid_text_representation
           | Some u \<Rightarrow> Inr (filter (\<lambda>c. c_id c = u) cs, w)))"

text \<open>\<open>SELECT * FROM "Replies" WHERE "commentId" = $1 ORDER BY "createdAt" ASC\<close>.\<close>

definition sql_select_replies :: "env \<Rightarrow> string \<Rightarrow> world \<Rightarrow> error + reply list \<times> world" where
  "sql_select_replies ev commentId w =
     (case Replies w of
        None \<Rightarrow> Inl undefined_table
      | Some rs \<Rightarrow>
          (case uuid_in ev commentId of
             None \<Rightarrow> Inl invalid_text_representation
           | Some u \<Rightarrow> Inr (replies_order ev (filter (\<lambda>r. r_commentId r = u) rs), w)))"

text \<open>\<open>SELECT * FROM "Replies" WHERE id = $1\<close>.\<close>

definition sql_select_reply :: "env \<Rightarrow> string \<Rightarrow> world \<Rightarrow> error + reply list \<times> world" where
  "sql_select_reply ev replyId w =
     (case Replies w of
        None \<Rightarrow> Inl undefined_table
      | Some rs \<Rightarrow>
          (case uuid_in ev replyId of
             None \<Rightarrow> Inl invalid_text_representation
           | Some u \<Rightarrow> Inr (filter (\<lambda>r. r_id r = u) rs, w)))"

text \<open>\<open>DELETE FROM "Replies" WHERE "commentId" = $1\<close>.\<close>

definition sql_delete_replies :: "env \<Rightarrow> string \<Rightarrow> world \<Rightarrow> error + unit \<times> world" where
  "sql_delete_replies ev commentId w =
     (case Replies w of
        None \<Rightarrow> Inl undefined_table
      | Some rs \<Rightarrow>
          (case uuid_in ev commentId of
             None \<Rightarrow> Inl invalid_text_representation
           | Some u \<Rightarrow> Inr ((), w\<lparr>Replies := Some (filter (\<lambda>r. r_commentId r \<noteq> u) rs)\<rparr>)))"

text \<open>
  \<open>DELETE FROM "Comments" WHERE id = $1\<close>. When the statement removes a comment that
  stored replies still refer to, the foreign key of \<open>Replies\<close> decides: under
  \<open>ON DELETE CASCADE\<close> those replies go with it, otherwise the statement is rejected
  and nothing is removed.
\<close>

definition sql_delete_comment :: "env \<Rightarrow> string \<Rightarrow> world \<Rightarrow> error + unit \<times> world" where
  "sql_delete_comment ev commentId w =
     (case Comments w of
        None \<Rightarrow> Inl undefined_table
      | Some cs \<Rightarrow>
          (case uuid_in ev commentId of
             None \<Rightarrow> Inl invalid_text_representation
           | Some u \<Rightarrow>
               (let removed = filter (\<lambda>c. c_id c = u) cs;
                    kept = filter (\<lambda>c. c_id c \<noteq> u) cs;
                    referring = (case Replies w of
                                   None \<Rightarrow> []
                                 | Some rs \<Rightarrow> filter (\<lambda>r. r_commentId r = u) rs)
                in if removed = [] \<or> referring = []
                   then Inr ((), w\<lparr>Comments := Some kept\<rparr>)
                   else (case fk_rule w of
                           Cascade \<Rightarrow>
                             Inr ((), w\<lparr>Comments := Some kept,
                                         Replies := map_option (filter (\<lambda>r. r_commentId r \<noteq> u))
                                                      (Replies w)\<rparr>)
                         | NoAction \<Rightarrow> Inl foreign_key_violation))))"

text \<open>\<open>DELETE FROM "Replies" WHERE id = $1\<close>.\<close>

definition sql_delete_reply :: "env \<Rightarrow> string \<Rightarrow> world \<Rightarrow> error + unit \<times> world" where
  "sql_delete_reply ev replyId w =
     (case Replies w of
        None \<Rightarrow> Inl undefined_table
      | Some rs \<Rightarrow>
          (case uuid_in ev replyId of
             None \<Rightarrow> Inl invalid_text_representation
           | Some u \<Rightarrow> Inr ((), w\<lparr>Replies := Some (filter (\<lambda>r. r_id r \<noteq> u) rs)\<rparr>)))"

section \<open>\<open>commentModel\<close>\<close>

text \<open>\<open>ensureTable\<close> and \<open>ensureRepliesTable\<close>: their \<open>catch\<close> blocks log and rethrow.\<close>

definition ensureTable :: "env \<Rightarrow> unit io" where
  "ensureTable ev =
     try_catch
       (await (db_query ev sql_exists_Comments) (\<lambda>tableExists.
          if \<not> tableExists
          then await (db_query ev sql_create_Comments) (\<lambda>_. ret ())
          else ret ()))
       (\<lambda>error. throw error)"

definition ensureRepliesTable :: "env \<Rightarrow> unit io" where
  "ensureRepliesTable ev =
     try_catch
       (await (db_query ev sql_exists_Replies) (\<lambda>tableExists.
          if \<not> tableExists
          then await (db_query ev sql_create_Replies) (\<lambda>_. ret ())
          else ret ()))
       (\<lambda>error. throw error)"

text \<open>\<open>create\<close>: only the six columns of \<open>commentData\<close> are read.\<close>

definition commentModel_create :: "env \<Rightarrow> comment \<Rightarrow> comment io" where
  "commentModel_create ev commentData =
     try_catch
       (await (ensureTable ev) (\<lambda>_.
        await (db_query ev (sql_insert_comment ev commentData)) (\<lambda>row.
        ret row)))
       (\<lambda>error. throw error)"

text \<open>
  The \<open>Map\<close> of \<open>findByJobId\<close>: keys in insertion order, \<open>set\<close> on a known key keeps
  its place. \<open>comment.replies.push\<close> changes the object that the map holds, which is
  \<open>Map_set\<close> on the same key.
\<close>

type_synonym commentMap = "(string \<times> comment_obj) list"

definition Map_has :: "commentMap \<Rightarrow> string \<Rightarrow> bool" where
  "Map_has m k = (map_of m k \<noteq> None)"

definition Map_get :: "commentMap \<Rightarrow> string \<Rightarrow> comment_obj option" where
  "Map_get m k = map_of m k"

definition Map_set :: "commentMap \<Rightarrow> string \<Rightarrow> comment_obj \<Rightarrow> commentMap" where
  "Map_set m k v = AList.update k v m"

definition Map_values :: "commentMap \<Rightarrow> comment_obj list" where
  "Map_values m = map snd m"

text \<open>The body of \<open>result.rows.forEach\<close>, lines 52-86, for one row.\<close>

definition group_row :: "commentMap \<Rightarrow> joined_row \<Rightarrow> commentMap" where
  "group_row commentMap row =
     (let commentId = c_id row;
          commentMap1 =
            (if \<not> Map_has commentMap commentId
             then Map_set commentMap commentId
                    \<lparr>c_id = commentId, c_content = c_content row, c_userId = c_userId row,
                     c_jobId = c_jobId row, c_createdAt = c_createdAt row,
                     c_updatedAt = c_updatedAt row, replies = []\<rparr>
             else commentMap)
      in case joined row of
           None \<Rightarrow> commentMap1
         | Some r \<Rightarrow>
             if r_id r \<noteq> [] then
               (case Map_get commentMap1 commentId of
                  None \<Rightarrow> commentMap1
                | Some comment \<Rightarrow>
                    (let replyExists = list_ex (\<lambda>reply. r_id reply = r_id r) (replies comment) in
                     if \<not> replyExists
                     then Map_set commentMap1 commentId
                            (comment\<lparr>replies := replies comment @
                               [\<lparr>r_id = r_id r, r_content = r_content r, r_userId = r_userId r,
                                 r_commentId = r_commentId r, r_createdAt = r_createdAt r,
                                 r_updatedAt = r_updatedAt r\<rparr>]\<rparr>)
                     else commentMap1))
             else commentMap1)"

text \<open>The loop and \<open>Array.from(commentMap.values())\<close>.\<close>

definition group_rows :: "joined_row list \<Rightarrow> comment_obj list" where
  "group_rows rows = Map_values (foldl group_row [] rows)"

text \<open>\<open>findByJobId\<close>: the \<open>try\<close> block, and the function with its \<open>catch\<close>.\<close>

definition findByJobId_try :: "env \<Rightarrow> string \<Rightarrow> comment_obj list io" where
  "findByJobId_try ev jobId =
     await (ensureTable ev) (\<lambda>_.
     await (db_query ev (sql_select_join ev jobId)) (\<lambda>rows.
     ret (group_rows rows)))"

definition findByJobId :: "env \<Rightarrow> string \<Rightarrow> comment_obj list io" where
  "findByJobId ev jobId = try_catch (findByJobId_try ev jobId) (\<lambda>error. ret [])"

text \<open>\<open>findById\<close>: \<open>null\<close> is \<open>None\<close>; the \<open>catch\<close> block returns \<open>null\<close>.\<close>

definition findById :: "env \<Rightarrow> string \<Rightarrow> comment_obj option io" where
  "findById ev commentId =
     try_catch
       (await (ensureTable ev) (\<lambda>_.
        await (db_query ev (sql_select_comment ev commentId)) (\<lambda>rows.
        case rows of
          [] \<Rightarrow> ret None
        | row # _ \<Rightarrow>
            await (db_query ev (sql_select_replies ev commentId)) (\<lambda>repliesRows.
            ret (Some (comment.extend row (comment_obj.fields repliesRows)))))))
       (\<lambda>error. ret None)"

text \<open>\<open>delete\<close>: first the replies, then the comment.\<close>

definition commentModel_delete :: "env \<Rightarrow> string \<Rightarrow> bool io" where
  "commentModel_delete ev commentId =
     try_catch
       (await (ensureTable ev) (\<lambda>_.
        await (db_query ev (sql_delete_replies ev commentId)) (\<lambda>_.
        await (db_query ev (sql_delete_comment ev commentId)) (\<lambda>_.
        ret True))))
       (\<lambda>error. throw error)"

text \<open>\<open>addReply\<close>: the \<open>commentId\<close> column is the first argument.\<close>

definition commentModel_addReply :: "env \<Rightarrow> string \<Rightarrow> reply \<Rightarrow> reply io" where
  "commentModel_addReply ev commentId replyData =
     try_catch
       (await (ensureTable ev) (\<lambda>_.
        await (ensureRepliesTable ev) (\<lambda>_.
        await (db_query ev (sql_insert_reply ev (replyData\<lparr>r_commentId := commentId\<rparr>))) (\<lambda>row.
        ret row))))
       (\<lambda>error. throw error)"

definition findReplyById :: "env \<Rightarrow> string \<Rightarrow> reply option io" where
  "findReplyById ev replyId =
     try_catch
       (await (ensureRepliesTable ev) (\<lambda>_.
        await (db_query ev (sql_select_reply ev replyId)) (\<lambda>rows.
        case rows of [] \<Rightarrow> ret None | row # _ \<Rightarrow> ret (Some row))))
       (\<lambda>error. ret None)"

definition commentModel_deleteReply :: "env \<Rightarrow> string \<Rightarrow> bool io" where
  "commentModel_deleteReply ev replyId =
     try_catch
       (await (ensureRepliesTable ev) (\<lambda>_.
        await (db_query ev (sql_delete_reply ev replyId)) (\<lambda>_.
        ret True)))
       (\<lambda>error. throw error)"

section \<open>\<open>jobController\<close>\<close>

text \<open>
  A request as a handler reads it: the parameter of the route (\<open>:jobId\<close>,
  \<open>:commentId\<close> or \<open>:replyId\<close>), the JSON body, and \<open>req.user.userId\<close>.
\<close>

record request =
  param :: string
  body :: jsobj
  user_userId :: string

record reply_with_user = reply +
  r_userName :: jsval
  r_userPhoto :: jsval

record comment_with_user = comment +
  c_userName :: jsval
  c_userPhoto :: jsval

record enriched_comment = comment_with_user +
  enrichedReplies :: "reply_with_user list"

datatype resource =
    NoResource
  | JobRes jsobj
  | CommentRes comment_with_user
  | ReplyRes reply_with_user
  | CommentsRes "enriched_comment list"

text \<open>
  \<open>res.status(n).json({success, message, ...})\<close>. The diagnostic members \<open>error\<close>,
  \<open>details\<close> and \<open>stack\<close> of a 500 body are left out.
\<close>

record response =
  status :: nat
  success :: bool
  message :: "string option"
  resource :: resource

definition json :: "nat \<Rightarrow> bool \<Rightarrow> string option \<Rightarrow> resource \<Rightarrow> response" where
  "json n ok msg res = \<lparr>status = n, success = ok, message = msg, resource = res\<rparr>"

text \<open>
  A handler is a \<open>try\<close> block that ends in a response, and a \<open>catch\<close> block that
  answers 500.
\<close>

definition respond :: "response io \<Rightarrow> (error \<Rightarrow> response) \<Rightarrow> world \<Rightarrow> response \<times> world" where
  "respond m h w = (case m w of (Inl e, w1) \<Rightarrow> (h e, w1) | (Inr r, w1) \<Rightarrow> (r, w1))"

text \<open>
  The calls to \<open>jobModel\<close> are answered by the environment and recorded. The lookups of
  \<open>userModel.findById\<close> are answered by the environment.
\<close>

definition jobModel_create :: "env \<Rightarrow> jsobj \<Rightarrow> jsobj io" where
  "jobModel_create ev jobData w = (jm_create ev jobData, w\<lparr>calls := calls w @ [JobCreate jobData]\<rparr>)"

definition jobModel_findById :: "env \<Rightarrow> string \<Rightarrow> jsobj option io" where
  "jobModel_findById ev jobId w = (jm_findById ev jobId, w\<lparr>calls := calls w @ [JobFindById jobId]\<rparr>)"

definition jobModel_update :: "env \<Rightarrow> string \<Rightarrow> jsobj \<Rightarrow> jsobj option io" where
  "jobModel_update ev jobId jobData w =
     (jm_update ev jobId jobData, w\<lparr>calls := calls w @ [JobUpdate jobId jobData]\<rparr>)"

definition jobModel_delete :: "env \<Rightarrow> string \<Rightarrow> unit io" where
  "jobModel_delete ev jobId w = (jm_delete ev jobId, w\<lparr>calls := calls w @ [JobDelete jobId]\<rparr>)"

definition userModel_findById :: "env \<Rightarrow> string \<Rightarrow> jsobj option io" where
  "userModel_findById ev userId w = (um_findById ev userId, w)"

text \<open>\<open>user ? user.name : 'Usuario desconocido'\<close> and \<open>user ? user.avatar : null\<close>.\<close>

definition userName_of :: "jsobj option \<Rightarrow> jsval" where
  "userName_of user = (case user of None \<Rightarrow> JStr ''Usuario desconocido'' | Some u \<Rightarrow> obj_get u ''name'')"

definition userPhoto_of :: "jsobj option \<Rightarrow> jsval" where
  "userPhoto_of user = (case user of None \<Rightarrow> JNull | Some u \<Rightarrow> obj_get u ''avatar'')"

text \<open>\<open>{...job, userName: ..., userPhoto: ...}\<close>; spreading \<open>null\<close> adds nothing.\<close>

definition jobWithUser :: "jsobj option \<Rightarrow> jsobj option \<Rightarrow> jsobj" where
  "jobWithUser job user =
     obj_set (obj_set (case job of None \<Rightarrow> [] | Some j \<Rightarrow> j) ''userName'' (userName_of user))
             ''userPhoto'' (userPhoto_of user)"

definition is_array :: "jsval \<Rightarrow> bool" where
  "is_array v = (case v of JArr _ \<Rightarrow> True | _ \<Rightarrow> False)"

subsection \<open>\<open>createJob\<close>\<close>

definition createJob_try :: "env \<Rightarrow> request \<Rightarrow> response io" where
  "createJob_try ev req =
     (let title = obj_get (body req) ''title'';
          description = obj_get (body req) ''description'';
          budget = obj_get (body req) ''budget'';
          category = obj_get (body req) ''category'';
          skills = obj_get (body req) ''skills'';
          userId = user_userId req
      in if \<not> truthy title \<or> \<not> truthy description \<or> \<not> truthy budget \<or> \<not> truthy category
         then ret (json 400 False
                     (Some ''Missing required fields (title, description, budget, category)'')
                     NoResource)
         else
           await (jobModel_create ev
                    [(''title'', title), (''description'', description),
                     (''budget'', parseFloat ev budget), (''category'', category),
                     (''skills'', if is_array skills then skills else JArr []),
                     (''userId'', JStr userId)]) (\<lambda>job.
           await (userModel_findById ev userId) (\<lambda>user.
           ret (json 201 True (Some ''Job created successfully'')
                  (JobRes (jobWithUser (Some job) user))))))"

definition createJob_catch :: "error \<Rightarrow> response" where
  "createJob_catch e =
     json 500 False
       (Some (if code e = ''23502''
              then ''Required field \"'' @ column e @ ''\" cannot be null''
              else ''Error creating job''))
       NoResource"

definition createJob :: "env \<Rightarrow> request \<Rightarrow> world \<Rightarrow> response \<times> world" where
  "createJob ev req = respond (createJob_try ev req) createJob_catch"

subsection \<open>\<open>updateJob\<close> and \<open>deleteJob\<close>\<close>

text \<open>Lines 183-189: the object handed to \<open>jobModel.update\<close>.\<close>

definition updatedData :: "env \<Rightarrow> jsobj \<Rightarrow> jsobj" where
  "updatedData ev b =
     (let title = obj_get b ''title'';
          description = obj_get b ''description'';
          budget = obj_get b ''budget'';
          category = obj_get b ''category'';
          skills = obj_get b ''skills'';
          status = obj_get b ''status'';
          d0 = [];
          d1 = (if truthy title then obj_set d0 ''title'' title else d0);
          d2 = (if truthy description then obj_set d1 ''description'' description else d1);
          d3 = (if truthy budget then obj_set d2 ''budget'' (parseFloat ev budget) else d2);
          d4 = (if truthy category then obj_set d3 ''category'' category else d3);
          d5 = (if truthy skills then obj_set d4 ''skills'' skills else d4);
          d6 = (if truthy status then obj_set d5 ''status'' status else d5)
      in d6)"

definition updateJob_try :: "env \<Rightarrow> request \<Rightarrow> response io" where
  "updateJob_try ev req =
     (let jobId = param req; userId = user_userId req in
      await (jobModel_findById ev jobId) (\<lambda>job.
      case job of
        None \<Rightarrow> ret (json 404 False (Some ''Job not found'') NoResource)
      | Some j \<Rightarrow>
          if obj_get j ''userId'' \<noteq> JStr userId
          then ret (json 403 False (Some ''You do not have permission to edit this job'') NoResource)
          else
            await (jobModel_update ev jobId (updatedData ev (body req))) (\<lambda>updatedJob.
            await (userModel_findById ev userId) (\<lambda>user.
            ret (json 200 True (Some ''Job updated successfully'')
                   (JobRes (jobWithUser updatedJob user)))))))"

definition updateJob :: "env \<Rightarrow> request \<Rightarrow> world \<Rightarrow> response \<times> world" where
  "updateJob ev req =
     respond (updateJob_try ev req) (\<lambda>error. json 500 False (Some ''Error updating job'') NoResource)"

definition deleteJob_try :: "env \<Rightarrow> request \<Rightarrow> response io" where
  "deleteJob_try ev req =
     (let jobId = param req; userId = user_userId req in
      await (jobModel_findById ev jobId) (\<lambda>job.
      case job of
        None \<Rightarrow> ret (json 404 False (Some ''Job not found'') NoResource)
      | Some j \<Rightarrow>
          if obj_get j ''userId'' \<noteq> JStr userId
          then ret (json 403 False (Some ''You do not have permission to delete this job'') NoResource)
          else
            await (jobModel_delete ev jobId) (\<lambda>_.
            ret (json 200 True (Some ''Job deleted successfully'') NoResource))))"

definition deleteJob :: "env \<Rightarrow> request \<Rightarrow> world \<Rightarrow> response \<times> world" where
  "deleteJob ev req =
     respond (deleteJob_try ev req) (\<lambda>error. json 500 False (Some ''Error deleting job'') NoResource)"

subsection \<open>The comment handlers\<close>

text \<open>What \<open>uuidv4()\<close> and \<open>new Date().toISOString()\<close> return in one handler run.\<close>

record fresh =
  new_uuid :: string
  now :: int

text \<open>A value bound to a \<open>TEXT\<close> column: a string is stored as it is.\<close>

definition to_text :: "env \<Rightarrow> jsval \<Rightarrow> string" where
  "to_text ev v = (case v of JStr s \<Rightarrow> s | _ \<Rightarrow> pg_text ev v)"

definition addComment_try :: "env \<Rightarrow> fresh \<Rightarrow> request \<Rightarrow> response io" where
  "addComment_try ev fr req =
     (let jobId = param req; content = obj_get (body req) ''content''; userId = user_userId req in
      if \<not> truthy content
      then ret (json 400 False (Some ''Comment content is required'') NoResource)
      else
        await (jobModel_findById ev jobId) (\<lambda>job.
        case job of
          None \<Rightarrow> ret (json 404 False (Some ''Job not found'') NoResource)
        | Some j \<Rightarrow>
            (let commentId = new_uuid fr;
                 comment = \<lparr>c_id = commentId, c_content = to_text ev content, c_userId = userId,
                            c_jobId = jobId, c_createdAt = now fr, c_updatedAt = now fr\<rparr>
             in await (commentModel_create ev comment) (\<lambda>savedComment.
                await (userModel_findById ev userId) (\<lambda>user.
                ret (json 201 True (Some ''Comment added successfully'')
                       (CommentRes (comment.extend savedComment
                          (comment_with_user.fields (userName_of user) (userPhoto_of user))))))))))"

definition addComment :: "env \<Rightarrow> fresh \<Rightarrow> request \<Rightarrow> world \<Rightarrow> response \<times> world" where
  "addComment ev fr req =
     respond (addComment_try ev fr req)
             (\<lambda>error. json 500 False (Some ''Error adding comment'') NoResource)"

text \<open>
  \<open>Promise.all\<close> over the results of the mapped callbacks: it rejects when one of them
  rejects, and otherwise yields their values in the order of the list.
\<close>

fun Promise_all :: "(error + 'a) list \<Rightarrow> error + 'a list" where
  "Promise_all [] = Inr []"
| "Promise_all (x # xs) =
     (case x of
        Inl e \<Rightarrow> Inl e
      | Inr a \<Rightarrow> (case Promise_all xs of Inl e \<Rightarrow> Inl e | Inr as \<Rightarrow> Inr (a # as)))"

definition enrich_reply :: "env \<Rightarrow> reply \<Rightarrow> error + reply_with_user" where
  "enrich_reply ev reply =
     (case um_findById ev (r_userId reply) of
        Inl e \<Rightarrow> Inl e
      | Inr replyUser \<Rightarrow>
          Inr (reply.extend reply
                 (reply_with_user.fields (userName_of replyUser) (userPhoto_of replyUser))))"

definition enrich_comment :: "env \<Rightarrow> comment_obj \<Rightarrow> error + enriched_comment" where
  "enrich_comment ev comment =
     (case um_findById ev (c_userId comment) of
        Inl e \<Rightarrow> Inl e
      | Inr user \<Rightarrow>
          (case (if replies comment \<noteq> []
                 then Promise_all (map (enrich_reply ev) (replies comment))
                 else Inr []) of
             Inl e \<Rightarrow> Inl e
           | Inr enriched \<Rightarrow>
               Inr \<lparr>c_id = c_id comment, c_content = c_content comment,
                    c_userId = c_userId comment, c_jobId = c_jobId comment,
                    c_createdAt = c_createdAt comment, c_updatedAt = c_updatedAt comment,
                    c_userName = userName_of user, c_userPhoto = userPhoto_of user,
                    enrichedReplies = enriched\<rparr>))"

definition getComments_try :: "env \<Rightarrow> request \<Rightarrow> response io" where
  "getComments_try ev req =
     (let jobId = param req in
      await (jobModel_findById ev jobId) (\<lambda>job.
      case job of
        None \<Rightarrow> ret (json 404 False (Some ''Job not found'') NoResource)
      | Some j \<Rightarrow>
          await (findByJobId ev jobId) (\<lambda>comments.
          await (\<lambda>w. (Promise_all (map (enrich_comment ev) comments), w)) (\<lambda>enrichedComments.
          ret (json 200 True None (CommentsRes enrichedComments))))))"

definition getComments :: "env \<Rightarrow> request \<Rightarrow> world \<Rightarrow> response \<times> world" where
  "getComments ev req =
     respond (getComments_try ev req)
             (\<lambda>error. json 500 False (Some ''Error getting comments'') NoResource)"

definition deleteComment_try :: "env \<Rightarrow> request \<Rightarrow> response io" where
  "deleteComment_try ev req =
     (let commentId = param req; userId = user_userId req in
      await (findById ev commentId) (\<lambda>comment.
      case comment of
        None \<Rightarrow> ret (json 404 False (Some ''Comment not found'') NoResource)
      | Some c \<Rightarrow>
          if c_userId c \<noteq> userId
          then ret (json 403 False (Some ''You are not authorized to delete this comment'') NoResource)
          else
            await (commentModel_delete ev commentId) (\<lambda>_.
            ret (json 200 True (Some ''Comment deleted successfully'') NoResource))))"

definition deleteComment :: "env \<Rightarrow> request \<Rightarrow> world \<Rightarrow> response \<times> world" where
  "deleteComment ev req =
     respond (deleteComment_try ev req)
             (\<lambda>error. json 500 False (Some ''Error deleting comment'') NoResource)"

definition addReply_try :: "env \<Rightarrow> fresh \<Rightarrow> request \<Rightarrow> response io" where
  "addReply_try ev fr req =
     (let commentId = param req; content = obj_get (body req) ''content''; userId = user_userId req in
      if \<not> truthy content
      then ret (json 400 False (Some ''Reply content is required'') NoResource)
      else
        await (findById ev commentId) (\<lambda>comment.
        case comment of
          None \<Rightarrow> ret (json 404 False (Some ''Comment not found'') NoResource)
        | Some c \<Rightarrow>
            (let replyId = new_uuid fr;
                 reply = \<lparr>r_id = replyId, r_content = to_text ev content, r_userId = userId,
                          r_commentId = commentId, r_createdAt = now fr, r_updatedAt = now fr\<rparr>
             in await (commentModel_addReply ev commentId reply) (\<lambda>savedReply.
                await (userModel_findById ev userId) (\<lambda>user.
                ret (json 201 True (Some ''Reply added successfully'')
                       (ReplyRes (reply.extend savedReply
                          (reply_with_user.fields (userName_of user) (userPhoto_of user))))))))))"

definition addReply :: "env \<Rightarrow> fresh \<Rightarrow> request \<Rightarrow> world \<Rightarrow> response \<times> world" where
  "addReply ev fr req =
     respond (addReply_try ev fr req)
             (\<lambda>error. json 500 False (Some ''Error adding reply'') NoResource)"

definition deleteReply_try :: "env \<Rightarrow> request \<Rightarrow> response io" where
  "deleteReply_try ev req =
     (let replyId = param req; userId = user_userId req in
      await (findReplyById ev replyId) (\<lambda>reply.
      case reply of
        None \<Rightarrow> ret (json 404 False (Some ''Reply not found'') NoResource)
      | Some r \<Rightarrow>
          if r_userId r \<noteq> userId
          then ret (json 403 False (Some ''You are not authorized to delete this reply'') NoResource)
          else
            await (commentModel_deleteReply ev replyId) (\<lambda>_.
            ret (json 200 True (Some ''Reply deleted successfully'') NoResource))))"

definition deleteReply :: "env \<Rightarrow> request \<Rightarrow> world \<Rightarrow> response \<times> world" where
  "deleteReply ev req =
     respond (deleteReply_try ev req)
             (\<lambda>error. json 500 False (Some ''Error deleting reply'') NoResource)"

section \<open>The stored jobs\<close>

text \<open>
  Modelled from the spec: \<open>jobModel.update\<close>, whose module is not part of the program
  text at hand. The specification knows a job as a record of named fields that only
  its owner may change, and says of the update that a field left out of it remains
  unchanged and that no field outside the ones handed over is modified. So
  \<open>update(jobId, data)\<close> gives the stored job that \<open>jobId\<close> spells each member of
  \<open>data\<close> in place of the stored member of that name and leaves every other member,
  and every other job, as it is; nothing is stored for an identifier that had no job.
\<close>

type_synonym jobs = "uuid \<Rightarrow> jsobj option"




section \<open>Names and sample inputs used in the statements\<close>


text \<open>A client whose HTTP calls all fail and whose local storage holds no token.\<close>

definition failing_client :: client where
  "failing_client =
     \<lparr>API_URL = ''http://localhost:5000/api'',
      axios_post = (\<lambda>url payload. Inl (Error ''ERR_NETWORK'' [] ''Network Error'')),
      axios_delete = (\<lambda>url. Inl (Error ''ERR_BAD_REQUEST'' [] ''Request failed with status code 403'')),
      localStorage_token = None,
      decode_payload = (\<lambda>t. None),
      uuidv4 = ''7f1c'',
      toISOString_now = ''2024-05-01T10:00:00.000Z'',
      Date_now = 1714557600000\<rparr>"

text \<open>
  A reading of identifiers that ignores the case of the letters A to F and refuses the
  empty text.
\<close>

definition lower_hex :: "char \<Rightarrow> char" where
  "lower_hex c =
     (if c = CHR ''A'' then CHR ''a'' else if c = CHR ''B'' then CHR ''b''
      else if c = CHR ''C'' then CHR ''c'' else if c = CHR ''D'' then CHR ''d''
      else if c = CHR ''E'' then CHR ''e'' else if c = CHR ''F'' then CHR ''f'' else c)"

definition read_uuid :: "string \<Rightarrow> uuid option" where
  "read_uuid s = (if s = [] then None else Some (map lower_hex s))"

text \<open>
  An environment without faults: identifiers are read by \<open>read_uuid\<close>, the database
  hands rows back in the order given, job \<open>j1\<close> belongs to user \<open>u1\<close>, and \<open>jobModel\<close>
  accepts every call.
\<close>

definition job_j1 :: jsobj where
  "job_j1 = [(''id'', JStr ''j1''), (''title'', JStr ''Logo''), (''userId'', JStr ''u1'')]"

definition quiet_env :: env where
  "quiet_env =
     \<lparr>fault = (\<lambda>n. False),
      uuid_in = read_uuid,
      result_order = (\<lambda>rows. rows),
      replies_order = (\<lambda>rows. rows),
      jm_create = (\<lambda>jobData. Inr jobData),
      jm_findById = (\<lambda>jobId. if jobId = ''j1'' then Inr (Some job_j1) else Inr None),
      jm_update = (\<lambda>jobId jobData. Inr (Some job_j1)),
      jm_delete = (\<lambda>jobId. Inr ()),
      um_findById = (\<lambda>userId. Inr None),
      parseFloat = (\<lambda>v. v),
      pg_text = (\<lambda>v. [])\<rparr>"


definition empty_world :: world where
  "empty_world =
     \<lparr>Comments = Some [], Replies = Some [], fk_rule = Cascade, queries = 0, calls = []\<rparr>"

section \<open>The grouping as the specification words it\<close>

text \<open>
  The values of a list in the order in which they are first seen, and the rows on which a
  comment identifier is seen for the first time.
\<close>

definition first_seen :: "'a list \<Rightarrow> 'a list" where
  "first_seen xs = rev (remdups (rev xs))"

fun first_rows :: "joined_row list \<Rightarrow> joined_row list" where
  "first_rows [] = []"
| "first_rows (row # rows) = row # filter (\<lambda>x. c_id x \<noteq> c_id row) (first_rows rows)"

text \<open>
  The replies attached to comment \<open>k\<close> after a walk over the rows: a row that belongs to
  \<open>k\<close> and carries a reply appends it unless a reply with that identifier is attached
  already.
\<close>

definition attach_reply :: "string \<Rightarrow> reply list \<Rightarrow> joined_row \<Rightarrow> reply list" where
  "attach_reply k acc row =
     (if c_id row = k then
        (case joined row of
           None \<Rightarrow> acc
         | Some r \<Rightarrow> if r_id r \<noteq> [] \<and> r_id r \<notin> r_id ` set acc then acc @ [r] else acc)
      else acc)"

definition replies_for :: "joined_row list \<Rightarrow> string \<Rightarrow> reply list" where
  "replies_for rows k = foldl (attach_reply k) [] rows"

text \<open>The comment entry made from the columns of a row.\<close>

definition comment_entry :: "joined_row \<Rightarrow> reply list \<Rightarrow> comment_obj" where
  "comment_entry row rs =
     \<lparr>c_id = c_id row, c_content = c_content row, c_userId = c_userId row,
      c_jobId = c_jobId row, c_createdAt = c_createdAt row, c_updatedAt = c_updatedAt row,
      replies = rs\<rparr>"

text \<open>
  One entry per comment identifier, made on the first row that mentions it, in
  first-seen order, each with the replies attached to it.
\<close>

definition grouped_spec :: "joined_row list \<Rightarrow> comment_obj list" where
  "grouped_spec rows = map (\<lambda>row. comment_entry row (replies_for rows (c_id row))) (first_rows rows)"

text \<open>
  The map during the walk, written over the first rows: the entry of a row, with the
  replies that \<open>g\<close> gives for its identifier.
\<close>

definition entries :: "(string \<Rightarrow> reply list) \<Rightarrow> joined_row list \<Rightarrow> commentMap" where
  "entries g L = map (\<lambda>row. (c_id row, comment_entry row (g (c_id row)))) L"

section \<open>Sample rows\<close>

text \<open>
  Two comments on job \<open>j1\<close>, \<open>a\<close> written before \<open>b\<close>, and two replies to \<open>a\<close>,
  \<open>r1\<close> written before \<open>r2\<close>.
\<close>

definition comment_A :: comment where
  "comment_A = \<lparr>c_id = ''a'', c_content = ''first'', c_userId = ''u1'', c_jobId = ''j1'',
                 c_createdAt = 100, c_updatedAt = 100\<rparr>"

definition comment_B :: comment where
  "comment_B = \<lparr>c_id = ''b'', c_content = ''second'', c_userId = ''u2'', c_jobId = ''j1'',
                 c_createdAt = 200, c_updatedAt = 200\<rparr>"

definition reply_R1 :: reply where
  "reply_R1 = \<lparr>r_id = ''r1'', r_content = ''yes'', r_userId = ''u2'', r_commentId = ''a'',
               r_createdAt = 300, r_updatedAt = 300\<rparr>"

definition reply_R2 :: reply where
  "reply_R2 = \<lparr>r_id = ''r2'', r_content = ''no'', r_userId = ''u1'', r_commentId = ''a'',
               r_createdAt = 400, r_updatedAt = 400\<rparr>"

definition row_of :: "comment \<Rightarrow> reply option \<Rightarrow> joined_row" where
  "row_of c r = comment.extend c (joined_row.fields r)"

text \<open>A result in which the join has repeated two rows.\<close>

definition dup_rows :: "joined_row list" where
  "dup_rows = [row_of comment_B None, row_of comment_A (Some reply_R1),
               row_of comment_A (Some reply_R1), row_of comment_A (Some reply_R2),
               row_of comment_B None]"

text \<open>
  The two comments and the two replies in their tables, which were there before and
  whose foreign key has no \<open>ON DELETE\<close> clause; nothing has been issued yet.
\<close>

definition world_AB :: world where
  "world_AB = \<lparr>Comments = Some [comment_A, comment_B], Replies = Some [reply_R1, reply_R2],
               fk_rule = NoAction, queries = 0, calls = []\<rparr>"

section \<open>Runs without rejected queries\<close>

text \<open>None of the next \<open>n\<close> calls of \<open>db.query\<close> is rejected by the environment.\<close>

definition no_fault :: "env \<Rightarrow> world \<Rightarrow> nat \<Rightarrow> bool" where
  "no_fault ev w n = (\<forall>i < n. \<not> fault ev (queries w + i))"

section \<open>What a response serves\<close>

text \<open>The comments in the body of a response; none when the body carries no list.\<close>

definition served_comments :: "response \<Rightarrow> enriched_comment list" where
  "served_comments res = (case resource res of CommentsRes cs \<Rightarrow> cs | _ \<Rightarrow> [])"

section \<open>The contract of the aggregation\<close>

text \<open>A comment with its replies, as one object.\<close>

definition with_replies :: "comment \<Rightarrow> reply list \<Rightarrow> comment_obj" where
  "with_replies c rs = comment.extend c (comment_obj.fields rs)"

text \<open>
  What the specification asks of the list returned for the job with the identifier
  \<open>j\<close>: it holds the comments of the job, each once; each carries the replies to it,
  each once; comments come newest first and the replies of a comment oldest first.
\<close>

definition is_aggregation :: "uuid \<Rightarrow> comment list \<Rightarrow> reply list \<Rightarrow> comment_obj list \<Rightarrow> bool" where
  "is_aggregation j cs rs result \<longleftrightarrow>
     mset (map comment.truncate result) = mset (filter (\<lambda>c. c_jobId c = j) cs)
     \<and> (\<forall>c \<in> set result. mset (replies c) = mset (filter (\<lambda>r. r_commentId r = c_id c) rs))
     \<and> sorted_wrt (\<lambda>a b. c_createdAt b \<le> c_createdAt a) result
     \<and> (\<forall>c \<in> set result. sorted_wrt (\<lambda>a b. r_createdAt a \<le> r_createdAt b) (replies c))"

text \<open>
  The tables respect their primary keys, every reply identifier is a non-empty string,
  and every reply refers to a stored comment.
\<close>

definition keys_ok :: "comment list \<Rightarrow> reply list \<Rightarrow> bool" where
  "keys_ok cs rs \<longleftrightarrow>
     distinct (map c_id cs) \<and> distinct (map r_id rs) \<and> (\<forall>r \<in> set rs. r_id r \<noteq> [])"

definition refs_ok :: "comment list \<Rightarrow> reply list \<Rightarrow> bool" where
  "refs_ok cs rs \<longleftrightarrow> (\<forall>r \<in> set rs. r_commentId r \<in> c_id ` set cs)"

text \<open>The objects that \<open>addComment\<close> and \<open>addReply\<close> hand to \<open>commentModel\<close>.\<close>

definition new_comment :: "env \<Rightarrow> fresh \<Rightarrow> request \<Rightarrow> comment" where
  "new_comment ev fr req =
     \<lparr>c_id = new_uuid fr, c_content = to_text ev (obj_get (body req) ''content''),
      c_userId = user_userId req, c_jobId = param req,
      c_createdAt = now fr, c_updatedAt = now fr\<rparr>"

definition new_reply :: "env \<Rightarrow> fresh \<Rightarrow> request \<Rightarrow> reply" where
  "new_reply ev fr req =
     \<lparr>r_id = new_uuid fr, r_content = to_text ev (obj_get (body req) ''content''),
      r_userId = user_userId req, r_commentId = param req,
      r_createdAt = now fr, r_updatedAt = now fr\<rparr>"

text \<open>
  A database that sorts: insertion of a row before the first row it may precede. The
  environment \<open>sorting_env\<close> answers every sorted query this way.
\<close>

fun insert_row :: "joined_row \<Rightarrow> joined_row list \<Rightarrow> joined_row list" where
  "insert_row x [] = [x]"
| "insert_row x (y # ys) = (if row_le x y then x # y # ys else y # insert_row x ys)"

definition sort_rows :: "joined_row list \<Rightarrow> joined_row list" where
  "sort_rows xs = foldr insert_row xs []"

definition sorting_env :: env where
  "sorting_env = quiet_env\<lparr>result_order := sort_rows\<rparr>"

text \<open>The state after two comments have been added, and after two replies have been.\<close>

definition after_comments :: "env \<Rightarrow> fresh \<Rightarrow> request \<Rightarrow> fresh \<Rightarrow> request \<Rightarrow> world \<Rightarrow> world" where
  "after_comments ev frA reqA frB reqB w =
     snd (addComment ev frB reqB (snd (addComment ev frA reqA w)))"

definition after_replies :: "env \<Rightarrow> fresh \<Rightarrow> request \<Rightarrow> fresh \<Rightarrow> request \<Rightarrow> world \<Rightarrow> world" where
  "after_replies ev fr1 req1 fr2 req2 w =
     snd (addReply ev fr2 req2 (snd (addReply ev fr1 req1 w)))"

text \<open>The requests and the generated values of the sample run.\<close>

definition req_A :: request where
  "req_A = \<lparr>param = ''j1'', body = [(''content'', JStr ''first'')], user_userId = ''u1''\<rparr>"

definition req_B :: request where
  "req_B = \<lparr>param = ''j1'', body = [(''content'', JStr ''second'')], user_userId = ''u2''\<rparr>"

definition req_R1 :: request where
  "req_R1 = \<lparr>param = ''a'', body = [(''content'', JStr ''yes'')], user_userId = ''u2''\<rparr>"

definition req_R2 :: request where
  "req_R2 = \<lparr>param = ''a'', body = [(''content'', JStr ''no'')], user_userId = ''u1''\<rparr>"

definition req_get :: request where
  "req_get = \<lparr>param = ''j1'', body = [], user_userId = ''u1''\<rparr>"

definition fresh_A :: fresh where "fresh_A = \<lparr>new_uuid = ''a'', now = 100\<rparr>"

definition fresh_B :: fresh where "fresh_B = \<lparr>new_uuid = ''b'', now = 200\<rparr>"

definition fresh_R1 :: fresh where "fresh_R1 = \<lparr>new_uuid = ''r1'', now = 300\<rparr>"

definition fresh_R2 :: fresh where "fresh_R2 = \<lparr>new_uuid = ''r2'', now = 400\<rparr>"

text \<open>
  The second comment written at the clock reading of the first, and the row stored for
  it.
\<close>

definition fresh_B_tie :: fresh where "fresh_B_tie = \<lparr>new_uuid = ''b'', now = 100\<rparr>"

definition comment_B_tie :: comment where
  "comment_B_tie = \<lparr>c_id = ''b'', c_content = ''second'', c_userId = ''u2'', c_jobId = ''j1'',
                     c_createdAt = 100, c_updatedAt = 100\<rparr>"

section \<open>Properties of the client service\<close>

lemma truthy_js_and: "truthy (js_and a b) \<longleftrightarrow> truthy a \<and> truthy b"
  by (simp add: js_and_def)

text \<open>
  C8. \<open>jobService.deleteComment\<close> resolves for every comment identifier and every outcome
  of the HTTP request, and its result is never falsy. When the request fails, when the
  body is \<open>null\<close> or \<open>undefined\<close>, and when the \<open>success\<close> member of the envelope is a
  boolean or missing, the result is \<open>true\<close>: a failed deletion cannot be read off it.
\<close>

theorem jobService_deleteComment_true:
  "(\<exists>v. jobService_deleteComment cl commentId = Inr v \<and> truthy v)
   \<and> ((\<forall>data s. axios_delete cl (API_URL cl @ ''/comments/'' @ commentId) = Inr data
                 \<longrightarrow> js_get data ''success'' = Some s \<longrightarrow> truthy s \<longrightarrow> s = JBool True)
        \<longrightarrow> jobService_deleteComment cl commentId = Inr (JBool True))"
proof (cases "axios_delete cl (API_URL cl @ ''/comments/'' @ commentId)")
  case (Inl e)
  then show ?thesis
    by (simp add: jobService_deleteComment_def jobService_deleteComment_try_def)
next
  case (Inr data)
  show ?thesis
  proof (cases "js_get data ''success''")
    case None
    with Inr show ?thesis
      by (simp add: jobService_deleteComment_def jobService_deleteComment_try_def)
  next
    case (Some s)
    with Inr have r: "jobService_deleteComment cl commentId = Inr (js_or s (JBool True))"
      by (simp add: jobService_deleteComment_def jobService_deleteComment_try_def)
    show ?thesis
    proof (cases "truthy s")
      case True
      with r Inr Some show ?thesis by (auto simp: js_or_def)
    next
      case False
      with r show ?thesis by (simp add: js_or_def)
    qed
  qed
qed

theorem jobService_deleteComment_true_witness:
  "jobService_deleteComment failing_client ''c1'' = Inr (JBool True)"
  using jobService_deleteComment_true [of failing_client "''c1''"]
  by (simp add: failing_client_def)

text \<open>
  C9. \<open>jobService.addComment\<close> resolves for every input. When the HTTP call fails, or
  the body of the response is falsy or carries no truthy \<open>comment\<close>, the result is the
  locally built object: its \<open>id\<close> is the value of \<open>uuidv4()\<close>, \<open>createdAt\<close> and
  \<open>timestamp\<close> are the clock readings, \<open>replies\<close> is the empty array. Nothing in it
  comes from the server.
\<close>

theorem jobService_addComment_never_rejects:
  "(\<exists>v. jobService_addComment cl jobId content = Inr v)
   \<and> ((\<forall>data. axios_post cl (API_URL cl @ ''/jobs/'' @ jobId @ ''/comments'')
                    (JObj [(''content'', JStr content)]) = Inr data
               \<longrightarrow> \<not> (truthy data \<and> truthy (js_get_opt data ''comment'')))
        \<longrightarrow> jobService_addComment cl jobId content = Inr (newComment cl jobId content)
            \<and> js_get (newComment cl jobId content) ''id'' = Some (JStr (uuidv4 cl))
            \<and> js_get (newComment cl jobId content) ''jobId'' = Some (JStr jobId)
            \<and> js_get (newComment cl jobId content) ''content'' = Some (JStr content)
            \<and> js_get (newComment cl jobId content) ''createdAt'' = Some (JStr (toISOString_now cl))
            \<and> js_get (newComment cl jobId content) ''timestamp'' = Some (JNum (Date_now cl))
            \<and> js_get (newComment cl jobId content) ''replies'' = Some (JArr []))"
proof (cases "axios_post cl (API_URL cl @ ''/jobs/'' @ jobId @ ''/comments'')
                (JObj [(''content'', JStr content)])")
  case (Inl e)
  then show ?thesis
    by (simp add: jobService_addComment_def jobService_addComment_try_def newComment_def
        obj_get_def)
next
  case (Inr data)
  then show ?thesis
    by (simp add: jobService_addComment_def jobService_addComment_try_def newComment_def
        obj_get_def truthy_js_and)
qed

theorem jobService_addComment_never_rejects_witness:
  "jobService_addComment failing_client ''j1'' ''hello'' =
     Inr (JObj [(''id'', JStr ''7f1c''), (''userId'', JStr ''unknown''), (''jobId'', JStr ''j1''),
                (''content'', JStr ''hello''), (''text'', JStr ''hello''),
                (''createdAt'', JStr ''2024-05-01T10:00:00.000Z''),
                (''timestamp'', JNum 1714557600000), (''userName'', JStr ''Usuario''),
                (''userPhoto'', JStr ''''), (''replies'', JArr [])])"
  using jobService_addComment_never_rejects [of failing_client "''j1''" "''hello''"]
  by (simp add: failing_client_def newComment_def userInfo_def js_get_opt_def js_or_def)

section \<open>Properties of the job handlers\<close>

lemma respond_ret: "respond (ret r) h w = (r, w)"
  by (simp add: respond_def ret_def)

text \<open>
  C5. When \<open>title\<close>, \<open>description\<close>, \<open>budget\<close> or \<open>category\<close> is missing from the body,
  \<open>createJob\<close> answers 400 and returns the state as it found it: \<open>jobModel.create\<close> is
  not called, nor is anything else.
\<close>

theorem createJob_missing_field_400:
  assumes "k \<in> {''title'', ''description'', ''budget'', ''category''}"
      and "k \<notin> fst ` set (body req)"
  shows "createJob ev req w =
           (json 400 False (Some ''Missing required fields (title, description, budget, category)'')
                 NoResource, w)
         \<and> status (fst (createJob ev req w)) = 400
         \<and> calls (snd (createJob ev req w)) = calls w"
proof -
  from assms(2) have "map_of (body req) k = None"
    by (simp add: map_of_eq_None_iff)
  then have "obj_get (body req) k = JUndefined"
    by (simp add: obj_get_def)
  then have "\<not> truthy (obj_get (body req) k)" by simp
  with assms(1) have
    "\<not> truthy (obj_get (body req) ''title'') \<or> \<not> truthy (obj_get (body req) ''description'')
     \<or> \<not> truthy (obj_get (body req) ''budget'') \<or> \<not> truthy (obj_get (body req) ''category'')"
    by auto
  then have "createJob_try ev req =
      ret (json 400 False (Some ''Missing required fields (title, description, budget, category)'')
             NoResource)"
    unfolding createJob_try_def Let_def by (simp only: if_True)
  then show ?thesis
    by (simp add: createJob_def respond_ret json_def)
qed

theorem createJob_missing_field_400_witness:
  "createJob quiet_env
     \<lparr>param = [], body = [(''title'', JStr ''Logo''), (''description'', JStr ''A logo''),
                          (''category'', JStr ''Design'')], user_userId = ''u1''\<rparr>
     empty_world
   = (json 400 False (Some ''Missing required fields (title, description, budget, category)'')
           NoResource, empty_world)"
  using createJob_missing_field_400 [of "''budget''"
      "\<lparr>param = [], body = [(''title'', JStr ''Logo''), (''description'', JStr ''A logo''),
                           (''category'', JStr ''Design'')], user_userId = ''u1''\<rparr>"
      quiet_env empty_world]
  by simp















section \<open>The grouping loop\<close>

lemma first_seen_Nil: "first_seen [] = []"
  by (simp add: first_seen_def)

lemma first_seen_snoc:
  "first_seen (xs @ [x]) = (if x \<in> set xs then first_seen xs else first_seen xs @ [x])"
  by (simp add: first_seen_def)

lemma image_filter_neq: "c_id ` set (filter (\<lambda>x. c_id x \<noteq> k) L) = c_id ` set L - {k}"
  by auto

lemma set_first_rows: "c_id ` set (first_rows rows) = c_id ` set rows"
proof (induction rows)
  case Nil
  then show ?case by simp
next
  case (Cons a rows)
  have "c_id ` set (first_rows (a # rows)) = insert (c_id a) (c_id ` set (first_rows rows) - {c_id a})"
    by (simp only: first_rows.simps list.set image_insert image_filter_neq)
  with Cons show ?case by auto
qed

lemma first_rows_snoc:
  "first_rows (rows @ [row]) =
     (if c_id row \<in> c_id ` set rows then first_rows rows else first_rows rows @ [row])"
proof (induction rows)
  case Nil
  then show ?case by simp
next
  case (Cons a rows)
  then show ?case by (auto simp: set_first_rows)
qed

lemma distinct_first_rows: "distinct (map c_id (first_rows rows))"
proof (induction rows rule: rev_induct)
  case Nil
  then show ?case by simp
next
  case (snoc x xs)
  then show ?case using set_first_rows [of xs] by (auto simp: first_rows_snoc)
qed

lemma ids_first_rows: "map c_id (first_rows rows) = first_seen (map c_id rows)"
  by (induction rows rule: rev_induct) (auto simp: first_rows_snoc first_seen_snoc first_seen_Nil)

lemma replies_for_snoc:
  "replies_for (rows @ [row]) k = attach_reply k (replies_for rows k) row"
  by (simp add: replies_for_def)

lemma distinct_replies_for: "distinct (map r_id (replies_for rows k))"
  by (induction rows rule: rev_induct)
     (auto simp: replies_for_snoc attach_reply_def replies_for_def split: option.splits)

lemma map_of_entries:
  "map_of (entries g L) k = map_option (\<lambda>row. comment_entry row (g k)) (find (\<lambda>row. c_id row = k) L)"
  by (induction L) (auto simp: entries_def)

lemma keys_entries: "fst ` set (entries g L) = c_id ` set L"
  by (auto simp: entries_def image_iff)

lemma update_absent: "k \<notin> fst ` set m \<Longrightarrow> AList.update k v m = m @ [(k, v)]"
  by (induction m) auto

lemma entries_upd_other:
  "k \<notin> c_id ` set L \<Longrightarrow> entries (g(k := rs)) L = entries g L"
  by (auto simp: entries_def)

lemma update_entries_present:
  "distinct (map c_id L) \<Longrightarrow> find (\<lambda>x. c_id x = k) L = Some row \<Longrightarrow>
   AList.update k (comment_entry row rs) (entries g L) = entries (g(k := rs)) L"
proof (induction L)
  case Nil
  then show ?case by simp
next
  case (Cons a L)
  show ?case
  proof (cases "c_id a = k")
    case True
    with Cons.prems have ar: "a = row" and "k \<notin> c_id ` set L" by auto
    then have "entries (g(k := rs)) L = entries g L" by (simp add: entries_upd_other)
    with True ar show ?thesis by (simp add: entries_def)
  next
    case False
    with Cons show ?thesis by (simp add: entries_def)
  qed
qed

lemma find_append_case:
  "find P (xs @ ys) = (case find P xs of None \<Rightarrow> find P ys | Some x \<Rightarrow> Some x)"
  by (induction xs) auto

lemma replies_for_absent: "k \<notin> c_id ` set rows \<Longrightarrow> replies_for rows k = []"
  by (induction rows rule: rev_induct) (auto simp: replies_for_snoc attach_reply_def replies_for_def)

lemma comment_entry_replies: "(comment_entry row rs)\<lparr>replies := rs'\<rparr> = comment_entry row rs'"
  by (simp add: comment_entry_def)

lemma replies_comment_entry: "replies (comment_entry row rs) = rs"
  by (simp add: comment_entry_def)

lemma reply_copy: "\<lparr>r_id = r_id r, r_content = r_content r, r_userId = r_userId r,
    r_commentId = r_commentId r, r_createdAt = r_createdAt r, r_updatedAt = r_updatedAt r\<rparr> = r"
  by simp

lemma list_ex_r_id: "list_ex (\<lambda>reply. r_id reply = i) xs \<longleftrightarrow> i \<in> r_id ` set xs"
  by (auto simp: list_ex_iff)

lemma Map_get_entries:
  "find (\<lambda>x. c_id x = k) L = Some row0 \<Longrightarrow>
   Map_get (entries g L) k = Some (comment_entry row0 (g k))"
  by (simp add: Map_get_def map_of_entries)

lemma Map_set_entries:
  "distinct (map c_id L) \<Longrightarrow> find (\<lambda>x. c_id x = k) L = Some row0 \<Longrightarrow>
   Map_set (entries g L) k (comment_entry row0 rs) = entries (g(k := rs)) L"
  by (simp add: Map_set_def update_entries_present)

lemma attach_phase:
  assumes d: "distinct (map c_id L)" and f: "find (\<lambda>x. c_id x = c_id row) L = Some row0"
  shows "(case joined row of
           None \<Rightarrow> entries g L
         | Some r \<Rightarrow>
             if r_id r \<noteq> [] then
               (case Map_get (entries g L) (c_id row) of
                  None \<Rightarrow> entries g L
                | Some comment \<Rightarrow>
                     if \<not> list_ex (\<lambda>reply. r_id reply = r_id r) (replies comment)
                     then Map_set (entries g L) (c_id row)
                            (comment\<lparr>replies := replies comment @
                               [\<lparr>r_id = r_id r, r_content = r_content r, r_userId = r_userId r,
                                 r_commentId = r_commentId r, r_createdAt = r_createdAt r,
                                 r_updatedAt = r_updatedAt r\<rparr>]\<rparr>)
                     else entries g L)
             else entries g L)
         = entries (g(c_id row := attach_reply (c_id row) (g (c_id row)) row)) L"
proof (cases "joined row")
  case None
  then show ?thesis by (simp add: attach_reply_def)
next
  case (Some r)
  show ?thesis
  proof (cases "r_id r \<noteq> [] \<and> r_id r \<notin> r_id ` set (g (c_id row))")
    case True
    then have a: "attach_reply (c_id row) (g (c_id row)) row = g (c_id row) @ [r]"
      using Some by (simp add: attach_reply_def)
    show ?thesis
      using Some True
      by (simp only: a option.case if_True Map_get_entries [OF f] list_ex_r_id
          replies_comment_entry comment_entry_replies reply_copy Map_set_entries [OF d f]
          simp_thms)
  next
    case False
    then have a: "attach_reply (c_id row) (g (c_id row)) row = g (c_id row)"
      using Some by (auto simp: attach_reply_def)
    show ?thesis
      using Some False
      by (auto simp: a Map_get_entries [OF f] list_ex_r_id replies_comment_entry)
  qed
qed

lemma replies_for_snoc_fun:
  "replies_for (rows @ [row]) =
     (replies_for rows)(c_id row := attach_reply (c_id row) (replies_for rows (c_id row)) row)"
  by (auto simp: fun_eq_iff replies_for_snoc attach_reply_def)

lemma find_first_rows_present:
  "k \<in> c_id ` set L \<Longrightarrow> \<exists>row0. find (\<lambda>x. c_id x = k) L = Some row0"
  by (cases "find (\<lambda>x. c_id x = k) L") (auto simp: find_None_iff)

lemma group_row_entries:
  "group_row (entries (replies_for rows) (first_rows rows)) row =
     entries (replies_for (rows @ [row])) (first_rows (rows @ [row]))"
proof (cases "c_id row \<in> c_id ` set rows")
  case True
  then have "c_id row \<in> c_id ` set (first_rows rows)" by (simp add: set_first_rows)
  then obtain row0 where f: "find (\<lambda>x. c_id x = c_id row) (first_rows rows) = Some row0"
    using find_first_rows_present by blast
  have has: "Map_has (entries (replies_for rows) (first_rows rows)) (c_id row)"
    using f by (simp add: Map_has_def map_of_entries)
  have fr: "first_rows (rows @ [row]) = first_rows rows"
    using True by (simp add: first_rows_snoc)
  show ?thesis
    unfolding group_row_def Let_def
    by (simp only: has not_True_eq_False if_False attach_phase [OF distinct_first_rows f]
        fr replies_for_snoc_fun)
next
  case False
  then have nk: "c_id row \<notin> c_id ` set (first_rows rows)" by (simp add: set_first_rows)
  then have nk': "\<And>x. x \<in> set (first_rows rows) \<Longrightarrow> c_id x \<noteq> c_id row"
    by (metis image_eqI)
  then have nothas: "\<not> Map_has (entries (replies_for rows) (first_rows rows)) (c_id row)"
    by (simp add: Map_has_def map_of_entries find_None_iff)
  have e: "replies_for rows (c_id row) = []" using False by (rule replies_for_absent)
  have m1: "Map_set (entries (replies_for rows) (first_rows rows)) (c_id row)
              \<lparr>c_id = c_id row, c_content = c_content row, c_userId = c_userId row,
               c_jobId = c_jobId row, c_createdAt = c_createdAt row,
               c_updatedAt = c_updatedAt row, replies = []\<rparr>
            = entries (replies_for rows) (first_rows rows @ [row])"
  proof -
    have "c_id row \<notin> fst ` set (entries (replies_for rows) (first_rows rows))"
      using nk by (simp only: keys_entries not_False_eq_True)
    then have "Map_set (entries (replies_for rows) (first_rows rows)) (c_id row)
              \<lparr>c_id = c_id row, c_content = c_content row, c_userId = c_userId row,
               c_jobId = c_jobId row, c_createdAt = c_createdAt row,
               c_updatedAt = c_updatedAt row, replies = []\<rparr>
          = entries (replies_for rows) (first_rows rows) @ [(c_id row, comment_entry row [])]"
      by (simp add: Map_set_def update_absent comment_entry_def)
    then show ?thesis by (simp add: entries_def e)
  qed
  have d: "distinct (map c_id (first_rows rows @ [row]))"
    using distinct_first_rows [of "rows @ [row]"] False by (simp add: first_rows_snoc)
  have f: "find (\<lambda>x. c_id x = c_id row) (first_rows rows @ [row]) = Some row"
  proof -
    have "find (\<lambda>x. c_id x = c_id row) (first_rows rows) = None"
      using nk' by (simp add: find_None_iff)
    then show ?thesis by (simp add: find_append_case)
  qed
  have fr: "first_rows (rows @ [row]) = first_rows rows @ [row]"
    using False by (simp add: first_rows_snoc)
  show ?thesis
    unfolding group_row_def Let_def
    by (simp only: nothas not_False_eq_True if_True m1 attach_phase [OF d f]
        fr replies_for_snoc_fun)
qed

lemma foldl_group_row:
  "foldl group_row [] rows = entries (replies_for rows) (first_rows rows)"
proof (induction rows rule: rev_induct)
  case Nil
  then show ?case by (simp add: entries_def)
next
  case (snoc x xs)
  then show ?case by (simp add: group_row_entries)
qed

lemma group_rows_refines: "group_rows rows = grouped_spec rows"
  by (simp add: group_rows_def foldl_group_row Map_values_def entries_def grouped_spec_def comp_def)

lemma set_first_rows_subset: "set (first_rows rows) \<subseteq> set rows"
  by (induction rows) auto

lemma find_absent: "k \<notin> c_id ` set xs \<Longrightarrow> find (\<lambda>y. c_id y = k) xs = None"
  by (induction xs) auto

lemma first_row_find:
  "row \<in> set (first_rows rows) \<Longrightarrow> find (\<lambda>x. c_id x = c_id row) rows = Some row"
proof (induction rows rule: rev_induct)
  case Nil
  then show ?case by simp
next
  case (snoc x xs)
  show ?case
  proof (cases "c_id x \<in> c_id ` set xs")
    case True
    with snoc show ?thesis by (simp add: first_rows_snoc find_append_case)
  next
    case False
    show ?thesis
    proof (cases "row \<in> set (first_rows xs)")
      case True
      with snoc show ?thesis by (simp add: find_append_case)
    next
      case f: False
      with snoc.prems False have rx: "row = x" by (simp add: first_rows_snoc)
      from False have "find (\<lambda>y. c_id y = c_id x) xs = None"
        by (rule find_absent)
      with rx show ?thesis by (simp add: find_append_case)
    qed
  qed
qed

lemma c_id_comment_entry: "c_id (comment_entry row rs) = c_id row"
  by (simp add: comment_entry_def)

lemma ids_grouped_spec: "map c_id (grouped_spec rows) = first_seen (map c_id rows)"
  by (simp add: grouped_spec_def comp_def c_id_comment_entry ids_first_rows [symmetric])

lemma distinct_first_seen: "distinct (first_seen xs)"
  by (simp add: first_seen_def)

lemma set_first_seen: "set (first_seen xs) = set xs"
  by (simp add: first_seen_def)

lemma group_rows_eval:
  "group_rows dup_rows =
     [comment_entry (row_of comment_B None) [],
      comment_entry (row_of comment_A (Some reply_R1)) [reply_R1, reply_R2]]"
  by (simp add: group_rows_refines grouped_spec_def dup_rows_def row_of_def comment_A_def
      comment_B_def reply_R1_def reply_R2_def replies_for_def attach_reply_def
      comment.extend_def joined_row.fields_def)

text \<open>
  C4. For every sequence of rows, repeated rows included, the loop of \<open>findByJobId\<close>
  yields what one walk over the rows yields: one entry per comment identifier, made from
  the first row that mentions it, in first-seen order, and on each entry the replies of
  its rows, a reply being appended only when no reply with its identifier is attached
  yet. So the comment identifiers of the result are distinct and, within each comment,
  so are the reply identifiers.
\<close>

theorem group_rows_first_seen_distinct:
  "group_rows rows = grouped_spec rows
   \<and> map c_id (group_rows rows) = first_seen (map c_id rows)
   \<and> distinct (map c_id (group_rows rows))
   \<and> set (map c_id (group_rows rows)) = set (map c_id rows)
   \<and> (\<forall>c \<in> set (group_rows rows). distinct (map r_id (replies c)))
   \<and> (\<forall>c \<in> set (group_rows rows).
         \<exists>row. find (\<lambda>x. c_id x = c_id c) rows = Some row
               \<and> c = comment_entry row (replies_for rows (c_id c)))"
proof -
  have r: "group_rows rows = grouped_spec rows" by (rule group_rows_refines)
  have i: "map c_id (group_rows rows) = first_seen (map c_id rows)"
    by (simp only: r ids_grouped_spec)
  have d: "distinct (map c_id (group_rows rows))"
    by (simp only: i distinct_first_seen)
  have s: "set (map c_id (group_rows rows)) = set (map c_id rows)"
    by (simp only: i set_first_seen)
  have e: "\<exists>row. find (\<lambda>x. c_id x = c_id c) rows = Some row
               \<and> c = comment_entry row (replies_for rows (c_id c))"
    if "c \<in> set (group_rows rows)" for c
  proof -
    from that obtain row where row: "row \<in> set (first_rows rows)"
      and c: "c = comment_entry row (replies_for rows (c_id row))"
      by (auto simp: r grouped_spec_def)
    from row have "find (\<lambda>x. c_id x = c_id row) rows = Some row" by (rule first_row_find)
    with c show ?thesis by (simp add: c_id_comment_entry)
  qed
  have p: "distinct (map r_id (replies c))" if "c \<in> set (group_rows rows)" for c
    using e [OF that] by (metis distinct_replies_for replies_comment_entry)
  from r i d s p e show ?thesis by blast
qed

theorem group_rows_first_seen_distinct_witness:
  "group_rows dup_rows =
     [comment_entry (row_of comment_B None) [],
      comment_entry (row_of comment_A (Some reply_R1)) [reply_R1, reply_R2]]
   \<and> map c_id (group_rows dup_rows) = [''b'', ''a'']
   \<and> distinct (map r_id [reply_R1, reply_R2])"
proof -
  note t = group_rows_first_seen_distinct [of dup_rows]
  have ev: "group_rows dup_rows =
     [comment_entry (row_of comment_B None) [],
      comment_entry (row_of comment_A (Some reply_R1)) [reply_R1, reply_R2]]"
    by (rule group_rows_eval)
  have "\<forall>c \<in> set (group_rows dup_rows). distinct (map r_id (replies c))"
    using t by blast
  then have "distinct (map r_id (replies (comment_entry (row_of comment_A (Some reply_R1)) [reply_R1, reply_R2])))"
    by (simp add: ev)
  then have d: "distinct (map r_id [reply_R1, reply_R2])"
    by (simp add: replies_comment_entry)
  have "map c_id (group_rows dup_rows) = first_seen (map c_id dup_rows)"
    using t by blast
  then have i: "map c_id (group_rows dup_rows) = [''b'', ''a'']"
    by (simp add: first_seen_def dup_rows_def row_of_def comment_A_def comment_B_def
        comment.extend_def)
  from ev i d show ?thesis by blast
qed

section \<open>Persistence calls and their failures\<close>

lemma db_query_fault:
  "fault ev (queries w) \<Longrightarrow>
   db_query ev stmt w = (Inl connection_error, w\<lparr>queries := Suc (queries w)\<rparr>)"
  by (simp add: db_query_def Let_def)

lemma db_query_run:
  "\<not> fault ev (queries w) \<Longrightarrow>
   db_query ev stmt w =
     (case stmt (w\<lparr>queries := Suc (queries w)\<rparr>) of
        Inl e \<Rightarrow> (Inl e, w\<lparr>queries := Suc (queries w)\<rparr>)
      | Inr (a, w2) \<Rightarrow> (Inr a, w2))"
  by (simp add: db_query_def Let_def)

lemma try_catch_rethrow: "try_catch m (\<lambda>error. throw error) = m"
  by (auto simp: try_catch_def throw_def fun_eq_iff split: prod.splits sum.splits)

lemma ensureTable_ok:
  "Comments w \<noteq> None \<Longrightarrow> \<not> fault ev (queries w) \<Longrightarrow>
   ensureTable ev w = (Inr (), w\<lparr>queries := Suc (queries w)\<rparr>)"
  by (simp add: ensureTable_def try_catch_rethrow await_def db_query_run sql_exists_Comments_def
      ret_def)

lemma ensureTable_fault:
  "fault ev (queries w) \<Longrightarrow>
   ensureTable ev w = (Inl connection_error, w\<lparr>queries := Suc (queries w)\<rparr>)"
  by (simp add: ensureTable_def try_catch_rethrow await_def db_query_fault)

lemma ensureRepliesTable_ok:
  "Replies w \<noteq> None \<Longrightarrow> \<not> fault ev (queries w) \<Longrightarrow>
   ensureRepliesTable ev w = (Inr (), w\<lparr>queries := Suc (queries w)\<rparr>)"
  by (simp add: ensureRepliesTable_def try_catch_rethrow await_def db_query_run
      sql_exists_Replies_def ret_def)

lemma findByJobId_try_ok:
  assumes "Comments w = Some cs" "Replies w = Some rs" "uuid_in ev jobId = Some j"
      and "\<not> fault ev (queries w)" "\<not> fault ev (Suc (queries w))"
  shows "findByJobId_try ev jobId w =
           (Inr (group_rows (result_order ev (join_of j cs rs))),
            w\<lparr>queries := Suc (Suc (queries w))\<rparr>)"
  using assms
  by (simp add: findByJobId_try_def await_def ensureTable_ok db_query_run sql_select_join_def
      ret_def)

lemma findByJobId_ok:
  assumes "Comments w = Some cs" "Replies w = Some rs" "uuid_in ev jobId = Some j"
      and "\<not> fault ev (queries w)" "\<not> fault ev (Suc (queries w))"
  shows "findByJobId ev jobId w =
           (Inr (group_rows (result_order ev (join_of j cs rs))),
            w\<lparr>queries := Suc (Suc (queries w))\<rparr>)"
  by (simp add: findByJobId_def try_catch_def findByJobId_try_ok [OF assms])

lemma findByJobId_try_invalid:
  assumes "Comments w = Some cs" "Replies w = Some rs" "uuid_in ev jobId = None"
      and "\<not> fault ev (queries w)" "\<not> fault ev (Suc (queries w))"
  shows "fst (findByJobId_try ev jobId w) = Inl invalid_text_representation"
  using assms
  by (simp add: findByJobId_try_def await_def ensureTable_ok db_query_run sql_select_join_def)

lemma findByJobId_never_throws: "\<exists>cs. fst (findByJobId ev jobId w) = Inr cs"
  by (auto simp: findByJobId_def try_catch_def ret_def split: prod.splits sum.splits)

lemma findByJobId_catch:
  "fst (findByJobId_try ev jobId w) = Inl e \<Longrightarrow> fst (findByJobId ev jobId w) = Inr []"
  by (auto simp: findByJobId_def try_catch_def ret_def split: prod.splits sum.splits)

lemma left_join_no_job:
  "\<forall>c \<in> set cs. c_jobId c \<noteq> j \<Longrightarrow> join_of j cs rs = []"
  by (induction cs) (auto simp: join_of_def left_join_def Let_def comment.extend_def)

lemma group_rows_Nil: "group_rows [] = []"
  by (simp add: group_rows_def Map_values_def)

text \<open>
  C3. \<open>findByJobId\<close> never throws. Whenever its \<open>try\<close> block throws, which it
  does when the table check or the select is rejected, when the \<open>Replies\<close> table does
  not exist and when the job identifier spells no \<open>UUID\<close>, the function returns the
  empty list; this is also what it returns for a job without comments, so the two
  cannot be told apart from the result.
\<close>

theorem findByJobId_swallows_errors:
  "(\<exists>cs. fst (findByJobId ev jobId w) = Inr cs)
   \<and> (\<forall>e. fst (findByJobId_try ev jobId w) = Inl e \<longrightarrow> fst (findByJobId ev jobId w) = Inr [])
   \<and> (fault ev (queries w) \<longrightarrow> fst (findByJobId ev jobId w) = Inr [])
   \<and> (Comments w \<noteq> None \<and> \<not> fault ev (queries w) \<and> fault ev (Suc (queries w))
        \<longrightarrow> fst (findByJobId ev jobId w) = Inr [])
   \<and> (Comments w \<noteq> None \<and> Replies w = None \<and> \<not> fault ev (queries w)
        \<longrightarrow> fst (findByJobId ev jobId w) = Inr [])
   \<and> (Comments w = Some cs \<and> Replies w = Some rs
        \<and> \<not> fault ev (queries w) \<and> \<not> fault ev (Suc (queries w))
        \<and> uuid_in ev jobId = None
        \<longrightarrow> fst (findByJobId ev jobId w) = Inr [])
   \<and> (Comments w = Some cs \<and> Replies w = Some rs
        \<and> \<not> fault ev (queries w) \<and> \<not> fault ev (Suc (queries w))
        \<and> uuid_in ev jobId = Some j
        \<and> (\<forall>c \<in> set cs. c_jobId c \<noteq> j) \<and> result_order ev [] = []
        \<longrightarrow> fst (findByJobId ev jobId w) = Inr [])"
proof -
  have 1: "\<exists>cs. fst (findByJobId ev jobId w) = Inr cs" by (rule findByJobId_never_throws)
  have 2: "\<forall>e. fst (findByJobId_try ev jobId w) = Inl e \<longrightarrow> fst (findByJobId ev jobId w) = Inr []"
    using findByJobId_catch by blast
  have 3: "fst (findByJobId ev jobId w) = Inr []" if "fault ev (queries w)"
  proof -
    have "fst (findByJobId_try ev jobId w) = Inl connection_error"
      using that by (simp add: findByJobId_try_def await_def ensureTable_fault)
    then show ?thesis by (rule findByJobId_catch)
  qed
  have 4: "fst (findByJobId ev jobId w) = Inr []"
    if "Comments w \<noteq> None" "\<not> fault ev (queries w)" "fault ev (Suc (queries w))"
  proof -
    have "fst (findByJobId_try ev jobId w) = Inl connection_error"
      using that by (simp add: findByJobId_try_def await_def ensureTable_ok db_query_fault)
    then show ?thesis by (rule findByJobId_catch)
  qed
  have 5: "fst (findByJobId ev jobId w) = Inr []"
    if "Comments w \<noteq> None" "Replies w = None" "\<not> fault ev (queries w)"
  proof (cases "fault ev (Suc (queries w))")
    case True
    with that show ?thesis using 4 by blast
  next
    case False
    have "fst (findByJobId_try ev jobId w) = Inl undefined_table"
      using that False
      by (auto simp: findByJobId_try_def await_def ensureTable_ok db_query_run
          sql_select_join_def split: option.splits)
    then show ?thesis by (rule findByJobId_catch)
  qed
  have 6: "fst (findByJobId ev jobId w) = Inr []"
    if "Comments w = Some cs" "Replies w = Some rs" "\<not> fault ev (queries w)"
      "\<not> fault ev (Suc (queries w))" "uuid_in ev jobId = None"
    using findByJobId_try_invalid [OF that(1,2,5,3,4)] by (rule findByJobId_catch)
  have 7: "fst (findByJobId ev jobId w) = Inr []"
    if "Comments w = Some cs" "Replies w = Some rs" "\<not> fault ev (queries w)"
      "\<not> fault ev (Suc (queries w))" "uuid_in ev jobId = Some j"
      "\<forall>c \<in> set cs. c_jobId c \<noteq> j" "result_order ev [] = []"
    using that by (simp add: findByJobId_ok left_join_no_job group_rows_Nil)
  from 1 2 3 4 5 6 7 show ?thesis by blast
qed

theorem findByJobId_swallows_errors_witness:
  "fst (findByJobId (quiet_env\<lparr>fault := (\<lambda>n. n = 1)\<rparr>) ''j1'' world_AB) = Inr []
   \<and> fst (findByJobId quiet_env [] world_AB) = Inr []
   \<and> fst (findByJobId quiet_env ''j1'' empty_world) = Inr []"
proof -
  have a: "fst (findByJobId (quiet_env\<lparr>fault := (\<lambda>n. n = 1)\<rparr>) ''j1'' world_AB) = Inr []"
    using findByJobId_swallows_errors [of "quiet_env\<lparr>fault := (\<lambda>n. n = 1)\<rparr>" "''j1''" world_AB]
    by (simp add: world_AB_def quiet_env_def)
  have b: "fst (findByJobId quiet_env [] world_AB) = Inr []"
    using findByJobId_swallows_errors [of quiet_env "[]" world_AB "[comment_A, comment_B]"
        "[reply_R1, reply_R2]"]
    by (simp add: world_AB_def quiet_env_def read_uuid_def)
  have c: "fst (findByJobId quiet_env ''j1'' empty_world) = Inr []"
    using findByJobId_swallows_errors [of quiet_env "''j1''" empty_world "[]" "[]" "''j1''"]
    by (simp add: empty_world_def quiet_env_def read_uuid_def lower_hex_def)
  from a b c show ?thesis by blast
qed

lemma commentModel_create_ok:
  assumes "Comments w = Some cs" "comment_row ev c = Some row" "c_id row \<notin> c_id ` set cs"
      and "\<not> fault ev (queries w)" "\<not> fault ev (Suc (queries w))"
  shows "commentModel_create ev c w =
           (Inr row, w\<lparr>queries := Suc (Suc (queries w)), Comments := Some (cs @ [row])\<rparr>)"
  using assms
  by (simp add: commentModel_create_def try_catch_rethrow await_def ensureTable_ok db_query_run
      sql_insert_comment_def ret_def)

lemma findById_found:
  assumes "Comments w = Some cs" "Replies w = Some rs"
      and "uuid_in ev commentId = Some u" "find (\<lambda>c. c_id c = u) cs = Some c"
      and "\<not> fault ev (queries w)" "\<not> fault ev (Suc (queries w))"
          "\<not> fault ev (Suc (Suc (queries w)))"
  shows "findById ev commentId w =
           (Inr (Some (comment.extend c (comment_obj.fields
                   (replies_order ev (filter (\<lambda>r. r_commentId r = u) rs))))),
            w\<lparr>queries := Suc (Suc (Suc (queries w)))\<rparr>)"
proof -
  from assms(4) obtain rest where f: "filter (\<lambda>c. c_id c = u) cs = c # rest"
    by (induction cs) (auto split: if_splits)
  show ?thesis
    using assms(1-3,5-7)
    by (simp add: findById_def try_catch_def await_def ensureTable_ok db_query_run
        sql_select_comment_def sql_select_replies_def ret_def f)
qed

text \<open>
  No stored comment has the identifier that the text spells, be it that the text spells
  none: the second query finds no row or is rejected, and \<open>findById\<close> returns \<open>null\<close>.
\<close>

lemma findById_absent:
  assumes "Comments w = Some cs" "find (\<lambda>c. Some (c_id c) = uuid_in ev commentId) cs = None"
      and "\<not> fault ev (queries w)" "\<not> fault ev (Suc (queries w))"
  shows "findById ev commentId w = (Inr None, w\<lparr>queries := Suc (Suc (queries w))\<rparr>)"
proof (cases "uuid_in ev commentId")
  case None
  show ?thesis
    using assms(1,3,4) None
    by (simp add: findById_def try_catch_def await_def ensureTable_ok db_query_run
        sql_select_comment_def ret_def)
next
  case (Some u)
  from assms(2) Some have f: "filter (\<lambda>c. c_id c = u) cs = []"
    by (simp add: find_None_iff filter_empty_conv)
  show ?thesis
    using assms(1,3,4) Some
    by (simp add: findById_def try_catch_def await_def ensureTable_ok db_query_run
        sql_select_comment_def ret_def f)
qed

lemma filter_neq_eq: "filter (\<lambda>r. f r = u) (filter (\<lambda>r. f r \<noteq> u) rs) = []"
  by (induction rs) auto

lemma commentModel_delete_ok:
  assumes "Comments w = Some cs" "Replies w = Some rs" "uuid_in ev commentId = Some u"
      and "\<not> fault ev (queries w)" "\<not> fault ev (Suc (queries w))"
          "\<not> fault ev (Suc (Suc (queries w)))"
  shows "commentModel_delete ev commentId w =
           (Inr True, w\<lparr>queries := Suc (Suc (Suc (queries w))),
                        Replies := Some (filter (\<lambda>r. r_commentId r \<noteq> u) rs),
                        Comments := Some (filter (\<lambda>c. c_id c \<noteq> u) cs)\<rparr>)"
  using assms
  by (simp add: commentModel_delete_def try_catch_rethrow await_def ensureTable_ok db_query_run
      sql_delete_replies_def sql_delete_comment_def ret_def filter_neq_eq Let_def)

text \<open>
  When the third query is rejected, the replies have gone and the comment is still
  there: \<open>commentModel.delete\<close> issues the two statements one after the other.
\<close>

lemma commentModel_delete_partial:
  assumes "Comments w = Some cs" "Replies w = Some rs" "uuid_in ev commentId = Some u"
      and "\<not> fault ev (queries w)" "\<not> fault ev (Suc (queries w))"
          "fault ev (Suc (Suc (queries w)))"
  shows "commentModel_delete ev commentId w =
           (Inl connection_error,
            w\<lparr>queries := Suc (Suc (Suc (queries w))),
              Replies := Some (filter (\<lambda>r. r_commentId r \<noteq> u) rs)\<rparr>)"
  using assms
  by (simp add: commentModel_delete_def try_catch_rethrow await_def ensureTable_ok db_query_run
      db_query_fault sql_delete_replies_def)

lemma commentModel_addReply_ok:
  assumes "Comments w = Some cs" "Replies w = Some rs"
      and "reply_row ev (r\<lparr>r_commentId := commentId\<rparr>) = Some row"
      and "r_id row \<notin> r_id ` set rs" "r_commentId row \<in> c_id ` set cs"
      and "\<not> fault ev (queries w)" "\<not> fault ev (Suc (queries w))"
          "\<not> fault ev (Suc (Suc (queries w)))"
  shows "commentModel_addReply ev commentId r w =
           (Inr row,
            w\<lparr>queries := Suc (Suc (Suc (queries w))), Replies := Some (rs @ [row])\<rparr>)"
  using assms
  by (simp add: commentModel_addReply_def try_catch_rethrow await_def ensureTable_ok
      ensureRepliesTable_ok db_query_run sql_insert_reply_def ret_def)

lemma findReplyById_found:
  assumes "Replies w = Some rs" "uuid_in ev replyId = Some u"
      and "find (\<lambda>r. r_id r = u) rs = Some r"
      and "\<not> fault ev (queries w)" "\<not> fault ev (Suc (queries w))"
  shows "findReplyById ev replyId w = (Inr (Some r), w\<lparr>queries := Suc (Suc (queries w))\<rparr>)"
proof -
  from assms(3) obtain rest where f: "filter (\<lambda>r. r_id r = u) rs = r # rest"
    by (induction rs) (auto split: if_splits)
  show ?thesis
    using assms(1,2,4,5)
    by (simp add: findReplyById_def try_catch_def await_def ensureRepliesTable_ok db_query_run
        sql_select_reply_def ret_def f)
qed

lemma findReplyById_absent:
  assumes "Replies w = Some rs" "find (\<lambda>r. Some (r_id r) = uuid_in ev replyId) rs = None"
      and "\<not> fault ev (queries w)" "\<not> fault ev (Suc (queries w))"
  shows "findReplyById ev replyId w = (Inr None, w\<lparr>queries := Suc (Suc (queries w))\<rparr>)"
proof (cases "uuid_in ev replyId")
  case None
  show ?thesis
    using assms(1,3,4) None
    by (simp add: findReplyById_def try_catch_def await_def ensureRepliesTable_ok db_query_run
        sql_select_reply_def ret_def)
next
  case (Some u)
  from assms(2) Some have f: "filter (\<lambda>r. r_id r = u) rs = []"
    by (simp add: find_None_iff filter_empty_conv)
  show ?thesis
    using assms(1,3,4) Some
    by (simp add: findReplyById_def try_catch_def await_def ensureRepliesTable_ok db_query_run
        sql_select_reply_def ret_def f)
qed

lemma commentModel_deleteReply_ok:
  assumes "Replies w = Some rs" "uuid_in ev replyId = Some u"
      and "\<not> fault ev (queries w)" "\<not> fault ev (Suc (queries w))"
  shows "commentModel_deleteReply ev replyId w =
           (Inr True, w\<lparr>queries := Suc (Suc (queries w)),
                        Replies := Some (filter (\<lambda>r. r_id r \<noteq> u) rs)\<rparr>)"
  using assms
  by (simp add: commentModel_deleteReply_def try_catch_rethrow await_def ensureRepliesTable_ok
      db_query_run sql_delete_reply_def ret_def)

lemma db_query_read_only:
  assumes "\<And>w a w2. stmt w = Inr (a, w2) \<Longrightarrow> w2 = w"
  shows "Comments (snd (db_query ev stmt w)) = Comments w
       \<and> Replies (snd (db_query ev stmt w)) = Replies w
       \<and> calls (snd (db_query ev stmt w)) = calls w"
proof (cases "fault ev (queries w)")
  case True
  then show ?thesis by (simp add: db_query_fault)
next
  case False
  show ?thesis
  proof (cases "stmt (w\<lparr>queries := Suc (queries w)\<rparr>)")
    case (Inl e)
    with False show ?thesis by (simp add: db_query_run)
  next
    case (Inr p)
    obtain a w2 where p: "p = (a, w2)" by (cases p)
    with Inr assms have "w2 = w\<lparr>queries := Suc (queries w)\<rparr>" by blast
    with False Inr p show ?thesis by (simp add: db_query_run)
  qed
qed

lemma ensureTable_result:
  assumes "ensureTable ev w = (res, w')"
  shows "calls w' = calls w \<and> Replies w' = Replies w
       \<and> (Comments w' = Comments w \<or> (Comments w = None \<and> Comments w' = Some []))
       \<and> (res = Inr () \<longrightarrow> Comments w' \<noteq> None)"
  using assms
  by (auto simp: ensureTable_def try_catch_rethrow await_def db_query_def Let_def
      sql_exists_Comments_def sql_create_Comments_def ret_def
      split: if_splits sum.splits prod.splits)

lemma ensureRepliesTable_result:
  assumes "ensureRepliesTable ev w = (res, w')"
  shows "calls w' = calls w \<and> Comments w' = Comments w
       \<and> (Replies w' = Replies w \<or> (Replies w = None \<and> Replies w' = Some []))
       \<and> (res = Inr () \<longrightarrow> Replies w' \<noteq> None)"
  using assms
  by (auto simp: ensureRepliesTable_def try_catch_rethrow await_def db_query_def Let_def
      sql_exists_Replies_def sql_create_Replies_def ret_def
      split: if_splits sum.splits prod.splits)

lemma find_filter_hd: "filter P xs = x # rest \<Longrightarrow> find P xs = Some x"
  by (induction xs) (auto split: if_splits)

lemma findById_never_throws: "\<exists>r. fst (findById ev cid w) = Inr r"
  by (auto simp: findById_def try_catch_def ret_def split: prod.splits sum.splits)

lemma findReplyById_never_throws: "\<exists>r. fst (findReplyById ev rid w) = Inr r"
  by (auto simp: findReplyById_def try_catch_def ret_def split: prod.splits sum.splits)

lemma sql_select_comment_ro: "sql_select_comment ev cid w = Inr (a, w2) \<Longrightarrow> w2 = w"
  by (auto simp: sql_select_comment_def split: option.splits)

lemma sql_select_replies_ro: "sql_select_replies ev cid w = Inr (a, w2) \<Longrightarrow> w2 = w"
  by (auto simp: sql_select_replies_def split: option.splits)

lemma sql_select_reply_ro: "sql_select_reply ev rid w = Inr (a, w2) \<Longrightarrow> w2 = w"
  by (auto simp: sql_select_reply_def split: option.splits)

lemma findById_Some_frame:
  assumes "findById ev cid w = (Inr (Some c), w')"
  shows "Comments w' = Comments w \<and> Replies w' = Replies w \<and> calls w' = calls w
       \<and> (\<exists>cs u. Comments w = Some cs \<and> uuid_in ev cid = Some u
             \<and> find (\<lambda>x. c_id x = u) cs = Some (comment.truncate c))"
proof -
  obtain r1 w1 where e: "ensureTable ev w = (r1, w1)" by force
  note f = ensureTable_result [OF e]
  show ?thesis
  proof (cases r1)
    case (Inl err)
    with assms e show ?thesis
      by (simp add: findById_def try_catch_def await_def ret_def)
  next
    case (Inr u)
    obtain r2 w2 where q: "db_query ev (sql_select_comment ev cid) w1 = (r2, w2)" by force
    have ro: "Comments w2 = Comments w1 \<and> Replies w2 = Replies w1 \<and> calls w2 = calls w1"
      using db_query_read_only [of "sql_select_comment ev cid" ev w1, OF sql_select_comment_ro] q
      by simp
    show ?thesis
    proof (cases r2)
      case (Inl err)
      with assms e Inr q show ?thesis
        by (simp add: findById_def try_catch_def await_def ret_def)
    next
      case rows: (Inr rows)
      show ?thesis
      proof (cases rows)
        case Nil
        with assms e Inr q rows show ?thesis
          by (simp add: findById_def try_catch_def await_def ret_def)
      next
        case (Cons row rest)
        obtain r3 w3 where q3: "db_query ev (sql_select_replies ev cid) w2 = (r3, w3)" by force
        have ro3: "Comments w3 = Comments w2 \<and> Replies w3 = Replies w2 \<and> calls w3 = calls w2"
          using db_query_read_only [of "sql_select_replies ev cid" ev w2, OF sql_select_replies_ro] q3
          by simp
        from assms e Inr q rows Cons q3
        have res: "w' = w3 \<and> (\<exists>rr. r3 = Inr rr \<and> c = comment.extend row (comment_obj.fields rr))"
          by (auto simp: findById_def try_catch_def await_def ret_def split: sum.splits)
        from q rows Cons obtain cs u where cs: "Comments w1 = Some cs"
          "uuid_in ev cid = Some u" "filter (\<lambda>x. c_id x = u) cs = row # rest"
          by (auto simp: db_query_def Let_def sql_select_comment_def split: if_splits option.splits)
        from cs(1) f have same: "Comments w1 = Comments w"
          by (cases "Comments w = None") (use cs(3) in auto)
        have tr: "comment.truncate c = row" using res
          by (auto simp: comment.truncate_def comment.extend_def)
        from find_filter_hd [OF cs(3)] cs(1,2) same tr res ro ro3 f
        show ?thesis by auto
      qed
    qed
  qed
qed

section \<open>The join and the order of its rows\<close>

lemma row_of_simps:
  "c_id (row_of c r) = c_id c" "c_jobId (row_of c r) = c_jobId c"
  "c_createdAt (row_of c r) = c_createdAt c" "joined (row_of c r) = r"
  "comment.truncate (row_of c r) = c"
  by (simp_all add: row_of_def comment.extend_def joined_row.fields_def comment.truncate_def)

lemma left_join_rows:
  "left_join cs rs =
     concat (map (\<lambda>c. if filter (\<lambda>r. c_id c = r_commentId r) rs = [] then [row_of c None]
                       else map (\<lambda>r. row_of c (Some r)) (filter (\<lambda>r. c_id c = r_commentId r) rs)) cs)"
  unfolding left_join_def Let_def row_of_def by (rule refl)

lemma rows_of_comment:
  "row \<in> set (if filter (\<lambda>r. c_id c = r_commentId r) rs = [] then [row_of c None]
              else map (\<lambda>r. row_of c (Some r)) (filter (\<lambda>r. c_id c = r_commentId r) rs))
   \<longleftrightarrow> (row = row_of c None \<and> (\<forall>r \<in> set rs. r_commentId r \<noteq> c_id c))
       \<or> (\<exists>r \<in> set rs. r_commentId r = c_id c \<and> row = row_of c (Some r))"
proof (cases "filter (\<lambda>r. c_id c = r_commentId r) rs = []")
  case True
  then have none: "\<forall>r \<in> set rs. r_commentId r \<noteq> c_id c"
    by (simp add: filter_empty_conv) metis
  with True show ?thesis by auto
next
  case False
  then obtain r0 where "r0 \<in> set rs" "r_commentId r0 = c_id c"
    by (auto simp: filter_empty_conv)
  with False show ?thesis by auto
qed

lemma set_left_join:
  "row \<in> set (left_join cs rs) \<longleftrightarrow>
     (\<exists>c \<in> set cs.
        (row = row_of c None \<and> (\<forall>r \<in> set rs. r_commentId r \<noteq> c_id c))
        \<or> (\<exists>r \<in> set rs. r_commentId r = c_id c \<and> row = row_of c (Some r)))"
  unfolding left_join_rows set_concat set_map UN_iff bex_simps image_iff
  by (simp only: rows_of_comment)

lemma set_join_of:
  "row \<in> set (join_of jobId cs rs) \<longleftrightarrow>
     (\<exists>c \<in> set cs. c_jobId c = jobId \<and>
        ((row = row_of c None \<and> (\<forall>r \<in> set rs. r_commentId r \<noteq> c_id c))
         \<or> (\<exists>r \<in> set rs. r_commentId r = c_id c \<and> row = row_of c (Some r))))"
proof -
  have "row \<in> set (join_of jobId cs rs) \<longleftrightarrow> row \<in> set (left_join cs rs) \<and> c_jobId row = jobId"
    by (simp add: join_of_def)
  then show ?thesis
    unfolding set_left_join by (auto simp: row_of_simps)
qed

lemma truncate_comment_entry: "comment.truncate (comment_entry row rs) = comment.truncate row"
  by (simp add: comment_entry_def comment.truncate_def)

lemma createdAt_comment_entry: "c_createdAt (comment_entry row rs) = c_createdAt row"
  by (simp add: comment_entry_def)

lemma row_le_createdAt: "row_le a b \<Longrightarrow> c_createdAt b \<le> c_createdAt a"
  by (auto simp: row_le_def)

lemma sorted_first_rows:
  "sorted_wrt row_le rows \<Longrightarrow>
   sorted_wrt (\<lambda>a b. c_createdAt b \<le> c_createdAt a) (first_rows rows)"
proof (induction rows rule: rev_induct)
  case Nil
  then show ?case by simp
next
  case (snoc x xs)
  from snoc.prems have s: "sorted_wrt row_le xs" and le: "\<forall>y \<in> set xs. row_le y x"
    by (simp_all add: sorted_wrt_append)
  from le have "\<forall>y \<in> set (first_rows xs). c_createdAt x \<le> c_createdAt y"
    using set_first_rows_subset [of xs] row_le_createdAt by blast
  with snoc.IH [OF s] show ?case
    by (simp add: first_rows_snoc sorted_wrt_append)
qed

lemma attach_reply_cases:
  "attach_reply k acc x = acc
   \<or> (\<exists>r. c_id x = k \<and> joined x = Some r \<and> r_id r \<noteq> [] \<and> r_id r \<notin> r_id ` set acc
          \<and> attach_reply k acc x = acc @ [r])"
proof (cases "joined x")
  case None
  then show ?thesis by (simp add: attach_reply_def)
next
  case (Some r)
  then show ?thesis by (simp add: attach_reply_def)
qed

lemma attach_reply_mono: "set acc \<subseteq> set (attach_reply k acc x)"
  using attach_reply_cases [of k acc x] by auto

lemma attach_reply_complete:
  assumes "c_id x = k" "joined x = Some r" "r_id r \<noteq> []"
  shows "r_id r \<in> r_id ` set (attach_reply k acc x)"
proof (cases "r_id r \<in> r_id ` set acc")
  case True
  then show ?thesis using attach_reply_mono [of acc k x] by blast
next
  case False
  with assms have "attach_reply k acc x = acc @ [r]" by (simp add: attach_reply_def)
  then show ?thesis by simp
qed

lemma replies_for_sound:
  "r \<in> set (replies_for rows k) \<Longrightarrow>
   \<exists>row \<in> set rows. c_id row = k \<and> joined row = Some r \<and> r_id r \<noteq> []"
proof (induction rows rule: rev_induct)
  case Nil
  then show ?case by (simp add: replies_for_def)
next
  case (snoc x xs)
  from attach_reply_cases [of k "replies_for xs k" x]
  show ?case
  proof
    assume "attach_reply k (replies_for xs k) x = replies_for xs k"
    with snoc.prems have "r \<in> set (replies_for xs k)" by (simp add: replies_for_snoc)
    from snoc.IH [OF this] show ?thesis by auto
  next
    assume "\<exists>r. c_id x = k \<and> joined x = Some r \<and> r_id r \<noteq> []
               \<and> r_id r \<notin> r_id ` set (replies_for xs k)
               \<and> attach_reply k (replies_for xs k) x = replies_for xs k @ [r]"
    then obtain r' where r': "c_id x = k" "joined x = Some r'" "r_id r' \<noteq> []"
      "attach_reply k (replies_for xs k) x = replies_for xs k @ [r']" by blast
    with snoc.prems have "r \<in> set (replies_for xs k) \<or> r = r'" by (auto simp: replies_for_snoc)
    then show ?thesis
    proof
      assume "r \<in> set (replies_for xs k)"
      from snoc.IH [OF this] show ?thesis by auto
    next
      assume "r = r'"
      with r' show ?thesis by simp
    qed
  qed
qed

lemma replies_for_complete:
  "row \<in> set rows \<Longrightarrow> c_id row = k \<Longrightarrow> joined row = Some r \<Longrightarrow> r_id r \<noteq> [] \<Longrightarrow>
   r_id r \<in> r_id ` set (replies_for rows k)"
proof (induction rows rule: rev_induct)
  case Nil
  then show ?case by simp
next
  case (snoc x xs)
  show ?case
  proof (cases "row = x")
    case True
    with snoc.prems show ?thesis
      by (simp add: replies_for_snoc attach_reply_complete)
  next
    case False
    with snoc.prems have "row \<in> set xs" by simp
    from snoc.IH [OF this snoc.prems(2-4)]
    have "r_id r \<in> r_id ` set (replies_for xs k)" .
    then show ?thesis
      using attach_reply_mono [of "replies_for xs k" k x] by (auto simp: replies_for_snoc)
  qed
qed

lemma sorted_replies_for:
  assumes "sorted_wrt row_le rows"
      and "\<forall>x \<in> set rows. \<forall>y \<in> set rows. c_id x = c_id y \<longrightarrow> c_createdAt x = c_createdAt y"
  shows "sorted_wrt (\<lambda>a b. r_createdAt a \<le> r_createdAt b) (replies_for rows k)"
  using assms
proof (induction rows rule: rev_induct)
  case Nil
  then show ?case by (simp add: replies_for_def)
next
  case (snoc x xs)
  from snoc.prems have s: "sorted_wrt row_le xs" and le: "\<forall>y \<in> set xs. row_le y x"
    by (simp_all add: sorted_wrt_append)
  have same: "\<forall>a \<in> set xs. \<forall>b \<in> set xs. c_id a = c_id b \<longrightarrow> c_createdAt a = c_createdAt b"
  proof (intro ballI impI)
    fix a b assume "a \<in> set xs" "b \<in> set xs" "c_id a = c_id b"
    then have "a \<in> set (xs @ [x])" "b \<in> set (xs @ [x])" by simp_all
    with snoc.prems(2) \<open>c_id a = c_id b\<close> show "c_createdAt a = c_createdAt b" by blast
  qed
  have IH: "sorted_wrt (\<lambda>a b. r_createdAt a \<le> r_createdAt b) (replies_for xs k)"
    using snoc.IH [OF s same] .
  show ?case
  proof (cases "c_id x = k \<and> (\<exists>r. joined x = Some r \<and> r_id r \<noteq> [] \<and> r_id r \<notin> r_id ` set (replies_for xs k))")
    case False
    then have "replies_for (xs @ [x]) k = replies_for xs k"
      using attach_reply_cases [of k "replies_for xs k" x] by (auto simp: replies_for_snoc)
    with IH show ?thesis by simp
  next
    case True
    then obtain r where k: "c_id x = k" and jx: "joined x = Some r" and ne: "r_id r \<noteq> []"
      and new: "r_id r \<notin> r_id ` set (replies_for xs k)" by blast
    then have eq: "replies_for (xs @ [x]) k = replies_for xs k @ [r]"
      by (simp add: replies_for_snoc attach_reply_def)
    have "r_createdAt r' \<le> r_createdAt r" if "r' \<in> set (replies_for xs k)" for r'
    proof -
      from replies_for_sound [OF that] obtain y where y: "y \<in> set xs" "c_id y = k" "joined y = Some r'"
        by blast
      from y(1) le have rl: "row_le y x" by blast
      have "y \<in> set (xs @ [x])" "x \<in> set (xs @ [x])" using y(1) by simp_all
      moreover have "c_id y = c_id x" using y(2) k by simp
      ultimately have "c_createdAt y = c_createdAt x" using snoc.prems(2) by blast
      with rl have "reply_le (joined y) (joined x)" by (simp add: row_le_def)
      with y(3) jx show ?thesis by (simp add: reply_le_def)
    qed
    with IH eq show ?thesis by (simp add: sorted_wrt_append)
  qed
qed

lemma distinct_map_outer: "distinct (map f (map g xs)) \<Longrightarrow> distinct (map g xs)"
  by (metis distinct_map)

lemma c_id_truncate: "c_id (comment.truncate row) = c_id row"
  by (simp add: comment.truncate_def)

lemma c_jobId_truncate: "c_jobId (comment.truncate row) = c_jobId row"
  by (simp add: comment.truncate_def)

lemma c_createdAt_truncate: "c_createdAt (comment.truncate row) = c_createdAt row"
  by (simp add: comment.truncate_def)

lemma join_row_comment:
  assumes "row \<in> set (join_of jobId cs rs)"
  shows "comment.truncate row \<in> set cs \<and> c_jobId row = jobId"
  using assms unfolding set_join_of by (auto simp: row_of_simps)

lemma join_row_reply:
  assumes "row \<in> set (join_of jobId cs rs)" "joined row = Some r"
  shows "r \<in> set rs \<and> r_commentId r = c_id row"
  using assms unfolding set_join_of by (auto simp: row_of_simps)

lemma join_has_comment:
  assumes "c \<in> set cs" "c_jobId c = jobId"
  shows "\<exists>row \<in> set (join_of jobId cs rs). comment.truncate row = c"
proof (cases "\<forall>r \<in> set rs. r_commentId r \<noteq> c_id c")
  case True
  with assms have "row_of c None \<in> set (join_of jobId cs rs)"
    unfolding set_join_of by blast
  then show ?thesis by (metis row_of_simps(5))
next
  case False
  then obtain r where "r \<in> set rs" "r_commentId r = c_id c" by blast
  with assms have "row_of c (Some r) \<in> set (join_of jobId cs rs)"
    unfolding set_join_of by blast
  then show ?thesis by (metis row_of_simps(5))
qed

lemma join_has_reply:
  assumes "c \<in> set cs" "c_jobId c = jobId" "r \<in> set rs" "r_commentId r = c_id c"
  shows "row_of c (Some r) \<in> set (join_of jobId cs rs)"
  using assms unfolding set_join_of by blast

lemma distinct_ids_eq:
  "distinct (map c_id cs) \<Longrightarrow> a \<in> set cs \<Longrightarrow> b \<in> set cs \<Longrightarrow> c_id a = c_id b \<Longrightarrow> a = b"
  by (metis distinct_map inj_on_def)

lemma distinct_rids_eq:
  "distinct (map r_id rs) \<Longrightarrow> a \<in> set rs \<Longrightarrow> b \<in> set rs \<Longrightarrow> r_id a = r_id b \<Longrightarrow> a = b"
  by (metis distinct_map inj_on_def)

lemma grouped_comments_perm:
  assumes rows: "set rows = set (join_of jobId cs rs)"
      and pk: "distinct (map c_id cs)"
  shows "mset (map comment.truncate (grouped_spec rows)) = mset (filter (\<lambda>c. c_jobId c = jobId) cs)"
proof -
  have t: "map comment.truncate (grouped_spec rows) = map comment.truncate (first_rows rows)"
    by (simp add: grouped_spec_def truncate_comment_entry)
  have "distinct (map c_id (map comment.truncate (first_rows rows)))"
    using distinct_first_rows [of rows] by (simp add: comp_def c_id_truncate)
  then have d1: "distinct (map comment.truncate (first_rows rows))"
    by (rule distinct_map_outer)
  have d2: "distinct (filter (\<lambda>c. c_jobId c = jobId) cs)"
    using pk by (simp add: distinct_map)
  have s: "set (map comment.truncate (first_rows rows)) = set (filter (\<lambda>c. c_jobId c = jobId) cs)"
  proof (intro set_eqI iffI)
    fix c assume "c \<in> set (map comment.truncate (first_rows rows))"
    then obtain row where "row \<in> set (first_rows rows)" "c = comment.truncate row" by auto
    with set_first_rows_subset [of rows] rows have "row \<in> set (join_of jobId cs rs)" by blast
    from join_row_comment [OF this] \<open>c = comment.truncate row\<close>
    show "c \<in> set (filter (\<lambda>c. c_jobId c = jobId) cs)" by (simp add: c_jobId_truncate)
  next
    fix c assume "c \<in> set (filter (\<lambda>c. c_jobId c = jobId) cs)"
    then have c: "c \<in> set cs" "c_jobId c = jobId" by simp_all
    from join_has_comment [OF c] obtain row where row: "row \<in> set rows" "comment.truncate row = c"
      using rows by blast
    then have "c_id c = c_id row" by (metis c_id_truncate)
    then have "c_id c \<in> c_id ` set rows" using row(1) by blast
    then have "c_id c \<in> c_id ` set (first_rows rows)" by (simp only: set_first_rows)
    then obtain x where x: "x \<in> set (first_rows rows)" "c_id x = c_id c" by force
    with set_first_rows_subset [of rows] rows have "x \<in> set (join_of jobId cs rs)" by blast
    from join_row_comment [OF this] have "comment.truncate x \<in> set cs" by blast
    moreover have "c_id (comment.truncate x) = c_id c" using x(2) by (simp add: c_id_truncate)
    ultimately have "comment.truncate x = c" using distinct_ids_eq [OF pk _ c(1)] by blast
    with x(1) show "c \<in> set (map comment.truncate (first_rows rows))" by force
  qed
  from d1 d2 s show ?thesis
    by (simp only: t set_eq_iff_mset_eq_distinct)
qed

lemma grouped_replies_perm:
  assumes rows: "set rows = set (join_of jobId cs rs)"
      and pk: "distinct (map c_id cs)" "distinct (map r_id rs)" "\<forall>r \<in> set rs. r_id r \<noteq> []"
      and c: "c \<in> set (grouped_spec rows)"
  shows "mset (replies c) = mset (filter (\<lambda>r. r_commentId r = c_id c) rs)"
proof -
  from c obtain row where row: "row \<in> set (first_rows rows)"
    and ce: "c = comment_entry row (replies_for rows (c_id row))"
    by (auto simp: grouped_spec_def)
  let ?k = "c_id row"
  have rc: "replies c = replies_for rows ?k" and kc: "c_id c = ?k"
    using ce by (simp_all add: replies_comment_entry c_id_comment_entry)
  from row set_first_rows_subset [of rows] rows have rj: "row \<in> set (join_of jobId cs rs)" by blast
  from join_row_comment [OF rj] have tc: "comment.truncate row \<in> set cs" "c_jobId row = jobId"
    by simp_all
  have sub: "r \<in> set rs \<and> r_commentId r = ?k" if "r \<in> set (replies_for rows ?k)" for r
  proof -
    from replies_for_sound [OF that] obtain x where x: "x \<in> set rows" "c_id x = ?k" "joined x = Some r"
      by blast
    with rows have "x \<in> set (join_of jobId cs rs)" by simp
    from join_row_reply [OF this x(3)] x(2) show ?thesis by simp
  qed
  have sup: "r \<in> set (replies_for rows ?k)" if r: "r \<in> set rs" "r_commentId r = ?k" for r
  proof -
    have "c_jobId (comment.truncate row) = jobId" using tc(2) by (simp add: c_jobId_truncate)
    moreover have "r_commentId r = c_id (comment.truncate row)" using r(2) by (simp add: c_id_truncate)
    ultimately have "row_of (comment.truncate row) (Some r) \<in> set (join_of jobId cs rs)"
      using join_has_reply [OF tc(1) _ r(1)] by blast
    then have "row_of (comment.truncate row) (Some r) \<in> set rows" using rows by simp
    moreover have "c_id (row_of (comment.truncate row) (Some r)) = ?k"
      by (simp add: row_of_simps c_id_truncate)
    moreover have "joined (row_of (comment.truncate row) (Some r)) = Some r"
      by (simp add: row_of_simps)
    moreover have "r_id r \<noteq> []" using pk(3) r(1) by blast
    ultimately have "r_id r \<in> r_id ` set (replies_for rows ?k)"
      by (rule replies_for_complete)
    then obtain r' where r': "r' \<in> set (replies_for rows ?k)" "r_id r' = r_id r" by force
    from sub [OF r'(1)] have "r' \<in> set rs" by simp
    from distinct_rids_eq [OF pk(2) this r(1) r'(2)] r'(1) show ?thesis by simp
  qed
  have s: "set (replies_for rows ?k) = set (filter (\<lambda>r. r_commentId r = ?k) rs)"
    using sub sup by auto
  have d1: "distinct (replies_for rows ?k)"
    using distinct_replies_for [of rows ?k] by (simp add: distinct_map)
  have d2: "distinct (filter (\<lambda>r. r_commentId r = ?k) rs)"
    using pk(2) by (simp add: distinct_map)
  from d1 d2 s show ?thesis
    by (simp only: rc kc set_eq_iff_mset_eq_distinct)
qed

lemma grouped_sorted_comments:
  assumes "sorted_wrt row_le rows"
  shows "sorted_wrt (\<lambda>a b. c_createdAt b \<le> c_createdAt a) (grouped_spec rows)"
  using sorted_first_rows [OF assms]
  by (simp add: grouped_spec_def sorted_wrt_map createdAt_comment_entry)

lemma grouped_sorted_replies:
  assumes rows: "set rows = set (join_of jobId cs rs)" and s: "sorted_wrt row_le rows"
      and pk: "distinct (map c_id cs)"
      and c: "c \<in> set (grouped_spec rows)"
  shows "sorted_wrt (\<lambda>a b. r_createdAt a \<le> r_createdAt b) (replies c)"
proof -
  have same: "\<forall>x \<in> set rows. \<forall>y \<in> set rows. c_id x = c_id y \<longrightarrow> c_createdAt x = c_createdAt y"
  proof (intro ballI impI)
    fix x y assume xy: "x \<in> set rows" "y \<in> set rows" "c_id x = c_id y"
    with rows have "comment.truncate x \<in> set cs" "comment.truncate y \<in> set cs"
      using join_row_comment by blast+
    moreover have "c_id (comment.truncate x) = c_id (comment.truncate y)"
      using xy(3) by (simp add: c_id_truncate)
    ultimately have "comment.truncate x = comment.truncate y"
      using distinct_ids_eq [OF pk] by blast
    then show "c_createdAt x = c_createdAt y"
      by (metis c_createdAt_truncate)
  qed
  from c obtain row where "c = comment_entry row (replies_for rows (c_id row))"
    by (auto simp: grouped_spec_def)
  then show ?thesis
    using sorted_replies_for [OF s same] by (simp add: replies_comment_entry)
qed

section \<open>The guarded handlers\<close>

lemma no_fault_0: "no_fault ev w (Suc n) \<Longrightarrow> \<not> fault ev (queries w)"
  by (auto simp: no_fault_def dest: spec [of _ 0])

lemma no_fault_1: "no_fault ev w (Suc (Suc n)) \<Longrightarrow> \<not> fault ev (Suc (queries w))"
  by (auto simp: no_fault_def dest: spec [of _ 1])

lemma no_fault_2: "no_fault ev w (Suc (Suc (Suc n))) \<Longrightarrow> \<not> fault ev (Suc (Suc (queries w)))"
  by (auto simp: no_fault_def dest: spec [of _ 2])

lemma findReplyById_Some_frame:
  assumes "findReplyById ev rid w = (Inr (Some r), w')"
  shows "Comments w' = Comments w \<and> Replies w' = Replies w \<and> calls w' = calls w
       \<and> (\<exists>rs u. Replies w = Some rs \<and> uuid_in ev rid = Some u
             \<and> find (\<lambda>x. r_id x = u) rs = Some r)"
proof -
  obtain r1 w1 where e: "ensureRepliesTable ev w = (r1, w1)" by force
  note f = ensureRepliesTable_result [OF e]
  show ?thesis
  proof (cases r1)
    case (Inl err)
    with assms e show ?thesis
      by (simp add: findReplyById_def try_catch_def await_def ret_def)
  next
    case (Inr u)
    obtain r2 w2 where q: "db_query ev (sql_select_reply ev rid) w1 = (r2, w2)" by force
    have ro: "Comments w2 = Comments w1 \<and> Replies w2 = Replies w1 \<and> calls w2 = calls w1"
      using db_query_read_only [of "sql_select_reply ev rid" ev w1, OF sql_select_reply_ro] q
      by simp
    show ?thesis
    proof (cases r2)
      case (Inl err)
      with assms e Inr q show ?thesis
        by (simp add: findReplyById_def try_catch_def await_def ret_def)
    next
      case rows: (Inr rows)
      show ?thesis
      proof (cases rows)
        case Nil
        with assms e Inr q rows show ?thesis
          by (simp add: findReplyById_def try_catch_def await_def ret_def)
      next
        case (Cons row rest)
        from assms e Inr q rows Cons
        have res: "w' = w2 \<and> r = row"
          by (auto simp: findReplyById_def try_catch_def await_def ret_def split: sum.splits)
        from q rows Cons obtain rs u where rs: "Replies w1 = Some rs"
          "uuid_in ev rid = Some u" "filter (\<lambda>x. r_id x = u) rs = row # rest"
          by (auto simp: db_query_def Let_def sql_select_reply_def split: if_splits option.splits)
        from rs(1) f have same: "Replies w1 = Replies w"
          by (cases "Replies w = None") (use rs(3) in auto)
        from find_filter_hd [OF rs(3)] rs(1,2) same res ro f
        show ?thesis by auto
      qed
    qed
  qed
qed

subsection \<open>The four guarded handlers\<close>

lemma updateJob_404:
  "jm_findById ev (param req) = Inr None \<Longrightarrow>
   updateJob ev req w =
     (json 404 False (Some ''Job not found'') NoResource,
      w\<lparr>calls := calls w @ [JobFindById (param req)]\<rparr>)"
  by (simp add: updateJob_def updateJob_try_def respond_def await_def ret_def Let_def
      jobModel_findById_def)

lemma updateJob_403:
  "jm_findById ev (param req) = Inr (Some j) \<Longrightarrow> obj_get j ''userId'' \<noteq> JStr (user_userId req) \<Longrightarrow>
   updateJob ev req w =
     (json 403 False (Some ''You do not have permission to edit this job'') NoResource,
      w\<lparr>calls := calls w @ [JobFindById (param req)]\<rparr>)"
  by (simp add: updateJob_def updateJob_try_def respond_def await_def ret_def Let_def
      jobModel_findById_def)

lemma updateJob_owner:
  "jm_findById ev (param req) = Inr (Some j) \<Longrightarrow> obj_get j ''userId'' = JStr (user_userId req) \<Longrightarrow>
   calls (snd (updateJob ev req w)) =
     calls w @ [JobFindById (param req), JobUpdate (param req) (updatedData ev (body req))]
   \<and> (\<forall>updatedJob user. jm_update ev (param req) (updatedData ev (body req)) = Inr updatedJob
         \<longrightarrow> um_findById ev (user_userId req) = Inr user
         \<longrightarrow> fst (updateJob ev req w) =
               json 200 True (Some ''Job updated successfully'')
                 (JobRes (jobWithUser updatedJob user)))"
  by (auto simp: updateJob_def updateJob_try_def respond_def await_def ret_def Let_def
      jobModel_findById_def jobModel_update_def userModel_findById_def
      split: sum.splits prod.splits)

lemma deleteJob_404:
  "jm_findById ev (param req) = Inr None \<Longrightarrow>
   deleteJob ev req w =
     (json 404 False (Some ''Job not found'') NoResource,
      w\<lparr>calls := calls w @ [JobFindById (param req)]\<rparr>)"
  by (simp add: deleteJob_def deleteJob_try_def respond_def await_def ret_def Let_def
      jobModel_findById_def)

lemma deleteJob_403:
  "jm_findById ev (param req) = Inr (Some j) \<Longrightarrow> obj_get j ''userId'' \<noteq> JStr (user_userId req) \<Longrightarrow>
   deleteJob ev req w =
     (json 403 False (Some ''You do not have permission to delete this job'') NoResource,
      w\<lparr>calls := calls w @ [JobFindById (param req)]\<rparr>)"
  by (simp add: deleteJob_def deleteJob_try_def respond_def await_def ret_def Let_def
      jobModel_findById_def)

lemma deleteJob_owner:
  "jm_findById ev (param req) = Inr (Some j) \<Longrightarrow> obj_get j ''userId'' = JStr (user_userId req) \<Longrightarrow>
   calls (snd (deleteJob ev req w)) = calls w @ [JobFindById (param req), JobDelete (param req)]
   \<and> (jm_delete ev (param req) = Inr ()
        \<longrightarrow> fst (deleteJob ev req w) =
              json 200 True (Some ''Job deleted successfully'') NoResource)"
  by (auto simp: deleteJob_def deleteJob_try_def respond_def await_def ret_def Let_def
      jobModel_findById_def jobModel_delete_def
      split: sum.splits prod.splits)

lemma status_json: "status (json n ok msg res) = n"
  by (simp add: json_def)

lemma updateJob_403_frame:
  assumes "status (fst (updateJob ev req w)) = 403"
  shows "snd (updateJob ev req w) = w\<lparr>calls := calls w @ [JobFindById (param req)]\<rparr>"
  using assms
  by (auto simp: updateJob_def updateJob_try_def respond_def await_def ret_def Let_def
      jobModel_findById_def jobModel_update_def userModel_findById_def status_json
      split: sum.splits prod.splits option.splits if_splits)

lemma deleteJob_403_frame:
  assumes "status (fst (deleteJob ev req w)) = 403"
  shows "snd (deleteJob ev req w) = w\<lparr>calls := calls w @ [JobFindById (param req)]\<rparr>"
  using assms
  by (auto simp: deleteJob_def deleteJob_try_def respond_def await_def ret_def Let_def
      jobModel_findById_def jobModel_delete_def status_json
      split: sum.splits prod.splits option.splits if_splits)

lemma deleteComment_404:
  assumes "Comments w = Some cs"
      and "find (\<lambda>c. Some (c_id c) = uuid_in ev (param req)) cs = None"
      and "\<not> fault ev (queries w)" "\<not> fault ev (Suc (queries w))"
  shows "deleteComment ev req w =
           (json 404 False (Some ''Comment not found'') NoResource,
            w\<lparr>queries := Suc (Suc (queries w))\<rparr>)"
  by (simp add: deleteComment_def deleteComment_try_def respond_def await_def ret_def Let_def
      findById_absent [OF assms])

lemma deleteComment_403:
  assumes "Comments w = Some cs" "Replies w = Some rs"
      and "uuid_in ev (param req) = Some u" "find (\<lambda>c. c_id c = u) cs = Some c"
      and "\<not> fault ev (queries w)" "\<not> fault ev (Suc (queries w))"
          "\<not> fault ev (Suc (Suc (queries w)))"
      and "c_userId c \<noteq> user_userId req"
  shows "deleteComment ev req w =
           (json 403 False (Some ''You are not authorized to delete this comment'') NoResource,
            w\<lparr>queries := Suc (Suc (Suc (queries w)))\<rparr>)"
  using assms(8)
  by (simp add: deleteComment_def deleteComment_try_def respond_def await_def ret_def Let_def
      findById_found [OF assms(1-7)] comment.extend_def)

lemma deleteComment_owner:
  assumes "Comments w = Some cs" "Replies w = Some rs"
      and "uuid_in ev (param req) = Some u" "find (\<lambda>c. c_id c = u) cs = Some c"
      and "no_fault ev w 6"
      and "c_userId c = user_userId req"
  shows "deleteComment ev req w =
           (json 200 True (Some ''Comment deleted successfully'') NoResource,
            w\<lparr>queries := queries w + 6,
              Replies := Some (filter (\<lambda>r. r_commentId r \<noteq> u) rs),
              Comments := Some (filter (\<lambda>c. c_id c \<noteq> u) cs)\<rparr>)"
proof -
  have nf: "\<not> fault ev (queries w + i)" if "i < 6" for i
    using assms(5) that by (simp add: no_fault_def)
  have f: "\<not> fault ev (queries w)" "\<not> fault ev (Suc (queries w))"
          "\<not> fault ev (Suc (Suc (queries w)))" "\<not> fault ev (Suc (Suc (Suc (queries w))))"
          "\<not> fault ev (Suc (Suc (Suc (Suc (queries w)))))"
          "\<not> fault ev (Suc (Suc (Suc (Suc (Suc (queries w))))))"
    using nf [of 0] nf [of "Suc 0"] nf [of "Suc (Suc 0)"] nf [of "Suc (Suc (Suc 0))"]
      nf [of "Suc (Suc (Suc (Suc 0)))"] nf [of "Suc (Suc (Suc (Suc (Suc 0))))"] by simp_all
  let ?w1 = "w\<lparr>queries := Suc (Suc (Suc (queries w)))\<rparr>"
  have d: "commentModel_delete ev (param req) ?w1 =
           (Inr True, ?w1\<lparr>queries := Suc (Suc (Suc (queries ?w1))),
                        Replies := Some (filter (\<lambda>r. r_commentId r \<noteq> u) rs),
                        Comments := Some (filter (\<lambda>c. c_id c \<noteq> u) cs)\<rparr>)"
    by (rule commentModel_delete_ok) (simp_all add: assms(1-3) f)
  show ?thesis
    using assms(6)
    by (simp add: deleteComment_def deleteComment_try_def respond_def await_def ret_def Let_def
        findById_found [OF assms(1-4) f(1-3)] comment.extend_def d)
qed

lemma deleteComment_403_frame:
  assumes "status (fst (deleteComment ev req w)) = 403"
  shows "Comments (snd (deleteComment ev req w)) = Comments w
       \<and> Replies (snd (deleteComment ev req w)) = Replies w
       \<and> calls (snd (deleteComment ev req w)) = calls w"
proof -
  obtain r w1 where f: "findById ev (param req) w = (r, w1)" by force
  from findById_never_throws [of ev "param req" w] f obtain c where r: "r = Inr c" by auto
  show ?thesis
  proof (cases c)
    case None
    with assms f r show ?thesis
      by (simp add: deleteComment_def deleteComment_try_def respond_def await_def ret_def Let_def
          status_json)
  next
    case (Some co)
    show ?thesis
    proof (cases "c_userId co \<noteq> user_userId req")
      case True
      from f r Some have "findById ev (param req) w = (Inr (Some co), w1)" by simp
      from findById_Some_frame [OF this] f r Some True show ?thesis
        by (simp add: deleteComment_def deleteComment_try_def respond_def await_def ret_def Let_def)
    next
      case False
      with assms f r Some show ?thesis
        by (auto simp: deleteComment_def deleteComment_try_def respond_def await_def ret_def Let_def
            status_json split: sum.splits prod.splits)
    qed
  qed
qed

lemma deleteReply_404:
  assumes "Replies w = Some rs"
      and "find (\<lambda>r. Some (r_id r) = uuid_in ev (param req)) rs = None"
      and "\<not> fault ev (queries w)" "\<not> fault ev (Suc (queries w))"
  shows "deleteReply ev req w =
           (json 404 False (Some ''Reply not found'') NoResource,
            w\<lparr>queries := Suc (Suc (queries w))\<rparr>)"
  by (simp add: deleteReply_def deleteReply_try_def respond_def await_def ret_def Let_def
      findReplyById_absent [OF assms])

lemma deleteReply_403:
  assumes "Replies w = Some rs" "uuid_in ev (param req) = Some u"
      and "find (\<lambda>r. r_id r = u) rs = Some r"
      and "\<not> fault ev (queries w)" "\<not> fault ev (Suc (queries w))"
      and "r_userId r \<noteq> user_userId req"
  shows "deleteReply ev req w =
           (json 403 False (Some ''You are not authorized to delete this reply'') NoResource,
            w\<lparr>queries := Suc (Suc (queries w))\<rparr>)"
  using assms(6)
  by (simp add: deleteReply_def deleteReply_try_def respond_def await_def ret_def Let_def
      findReplyById_found [OF assms(1-5)])

lemma deleteReply_owner:
  assumes "Replies w = Some rs" "uuid_in ev (param req) = Some u"
      and "find (\<lambda>r. r_id r = u) rs = Some r"
      and "no_fault ev w 4"
      and "r_userId r = user_userId req"
  shows "deleteReply ev req w =
           (json 200 True (Some ''Reply deleted successfully'') NoResource,
            w\<lparr>queries := queries w + 4,
              Replies := Some (filter (\<lambda>r. r_id r \<noteq> u) rs)\<rparr>)"
proof -
  have nf: "\<not> fault ev (queries w + i)" if "i < 4" for i
    using assms(4) that by (simp add: no_fault_def)
  have f: "\<not> fault ev (queries w)" "\<not> fault ev (Suc (queries w))"
          "\<not> fault ev (Suc (Suc (queries w)))" "\<not> fault ev (Suc (Suc (Suc (queries w))))"
    using nf [of 0] nf [of "Suc 0"] nf [of "Suc (Suc 0)"] nf [of "Suc (Suc (Suc 0))"]
    by simp_all
  let ?w1 = "w\<lparr>queries := Suc (Suc (queries w))\<rparr>"
  have d: "commentModel_deleteReply ev (param req) ?w1 =
           (Inr True, ?w1\<lparr>queries := Suc (Suc (queries ?w1)),
                        Replies := Some (filter (\<lambda>r. r_id r \<noteq> u) rs)\<rparr>)"
    by (rule commentModel_deleteReply_ok) (simp_all add: assms(1,2) f)
  show ?thesis
    using assms(5)
    by (simp add: deleteReply_def deleteReply_try_def respond_def await_def ret_def Let_def
        findReplyById_found [OF assms(1-3) f(1,2)] d)
qed

lemma deleteReply_403_frame:
  assumes "status (fst (deleteReply ev req w)) = 403"
  shows "Comments (snd (deleteReply ev req w)) = Comments w
       \<and> Replies (snd (deleteReply ev req w)) = Replies w
       \<and> calls (snd (deleteReply ev req w)) = calls w"
proof -
  obtain r w1 where f: "findReplyById ev (param req) w = (r, w1)" by force
  from findReplyById_never_throws [of ev "param req" w] f obtain c where r: "r = Inr c" by auto
  show ?thesis
  proof (cases c)
    case None
    with assms f r show ?thesis
      by (simp add: deleteReply_def deleteReply_try_def respond_def await_def ret_def Let_def
          status_json)
  next
    case (Some co)
    show ?thesis
    proof (cases "r_userId co \<noteq> user_userId req")
      case True
      from f r Some have "findReplyById ev (param req) w = (Inr (Some co), w1)" by simp
      from findReplyById_Some_frame [OF this] f r Some True show ?thesis
        by (simp add: deleteReply_def deleteReply_try_def respond_def await_def ret_def Let_def)
    next
      case False
      with assms f r Some show ?thesis
        by (auto simp: deleteReply_def deleteReply_try_def respond_def await_def ret_def Let_def
            status_json split: sum.splits prod.splits)
    qed
  qed
qed

section \<open>Ownership and the order of the guards\<close>

lemma no_fault_3:
  "no_fault ev w 3 \<Longrightarrow> \<not> fault ev (queries w) \<and> \<not> fault ev (Suc (queries w))
     \<and> \<not> fault ev (Suc (Suc (queries w)))"
  using no_fault_0 [of ev w 2] no_fault_1 [of ev w 1] no_fault_2 [of ev w 0]
  by (simp add: numeral_3_eq_3)

lemma no_fault_2': 
  "no_fault ev w 2 \<Longrightarrow> \<not> fault ev (queries w) \<and> \<not> fault ev (Suc (queries w))"
  using no_fault_0 [of ev w 1] no_fault_1 [of ev w 0]
  by (simp add: numeral_2_eq_2)

text \<open>
  C2. When the job that \<open>updateJob\<close> or \<open>deleteJob\<close> loads belongs to another user, the
  answer is 403 and the only call made to \<open>jobModel\<close> is the load. When the comment that
  \<open>deleteComment\<close> loads, or the reply that \<open>deleteReply\<close> loads, was written by
  another user, the answer is 403 and both tables are as before. Whatever the
  environment does, a run of one of the four handlers that answers 403 has issued no
  update and no delete.
\<close>

theorem non_owner_403_unchanged:
  "(jm_findById ev (param req) = Inr (Some j) \<and> obj_get j ''userId'' \<noteq> JStr (user_userId req)
      \<longrightarrow> updateJob ev req w =
             (json 403 False (Some ''You do not have permission to edit this job'') NoResource,
              w\<lparr>calls := calls w @ [JobFindById (param req)]\<rparr>)
          \<and> deleteJob ev req w =
             (json 403 False (Some ''You do not have permission to delete this job'') NoResource,
              w\<lparr>calls := calls w @ [JobFindById (param req)]\<rparr>))
   \<and> (Comments w = Some cs \<and> Replies w = Some rs
        \<and> uuid_in ev (param req) = Some u
        \<and> find (\<lambda>c. c_id c = u) cs = Some c \<and> c_userId c \<noteq> user_userId req
        \<and> no_fault ev w 3
      \<longrightarrow> deleteComment ev req w =
             (json 403 False (Some ''You are not authorized to delete this comment'') NoResource,
              w\<lparr>queries := queries w + 3\<rparr>))
   \<and> (Replies w = Some rs
        \<and> uuid_in ev (param req) = Some u
        \<and> find (\<lambda>r. r_id r = u) rs = Some r \<and> r_userId r \<noteq> user_userId req
        \<and> no_fault ev w 2
      \<longrightarrow> deleteReply ev req w =
             (json 403 False (Some ''You are not authorized to delete this reply'') NoResource,
              w\<lparr>queries := queries w + 2\<rparr>))
   \<and> (status (fst (updateJob ev req w)) = 403
      \<longrightarrow> snd (updateJob ev req w) = w\<lparr>calls := calls w @ [JobFindById (param req)]\<rparr>)
   \<and> (status (fst (deleteJob ev req w)) = 403
      \<longrightarrow> snd (deleteJob ev req w) = w\<lparr>calls := calls w @ [JobFindById (param req)]\<rparr>)
   \<and> (status (fst (deleteComment ev req w)) = 403
      \<longrightarrow> Comments (snd (deleteComment ev req w)) = Comments w
          \<and> Replies (snd (deleteComment ev req w)) = Replies w
          \<and> calls (snd (deleteComment ev req w)) = calls w)
   \<and> (status (fst (deleteReply ev req w)) = 403
      \<longrightarrow> Comments (snd (deleteReply ev req w)) = Comments w
          \<and> Replies (snd (deleteReply ev req w)) = Replies w
          \<and> calls (snd (deleteReply ev req w)) = calls w)"
proof -
  have 1: "updateJob ev req w =
             (json 403 False (Some ''You do not have permission to edit this job'') NoResource,
              w\<lparr>calls := calls w @ [JobFindById (param req)]\<rparr>)
          \<and> deleteJob ev req w =
             (json 403 False (Some ''You do not have permission to delete this job'') NoResource,
              w\<lparr>calls := calls w @ [JobFindById (param req)]\<rparr>)"
    if "jm_findById ev (param req) = Inr (Some j)" "obj_get j ''userId'' \<noteq> JStr (user_userId req)"
    using updateJob_403 [OF that] deleteJob_403 [OF that] by simp
  have 2: "deleteComment ev req w =
             (json 403 False (Some ''You are not authorized to delete this comment'') NoResource,
              w\<lparr>queries := queries w + 3\<rparr>)"
    if "Comments w = Some cs" "Replies w = Some rs" "uuid_in ev (param req) = Some u"
       "find (\<lambda>c. c_id c = u) cs = Some c" "c_userId c \<noteq> user_userId req"
       "no_fault ev w 3"
    using deleteComment_403 [OF that(1-4) _ _ _ that(5)] no_fault_3 [OF that(6)]
    by (simp add: numeral_3_eq_3)
  have 3: "deleteReply ev req w =
             (json 403 False (Some ''You are not authorized to delete this reply'') NoResource,
              w\<lparr>queries := queries w + 2\<rparr>)"
    if "Replies w = Some rs" "uuid_in ev (param req) = Some u"
       "find (\<lambda>r. r_id r = u) rs = Some r" "r_userId r \<noteq> user_userId req"
       "no_fault ev w 2"
    using deleteReply_403 [OF that(1-3) _ _ that(4)] no_fault_2' [OF that(5)]
    by (simp add: numeral_2_eq_2)
  from 1 2 3 updateJob_403_frame [of ev req w] deleteJob_403_frame [of ev req w]
    deleteComment_403_frame [of ev req w] deleteReply_403_frame [of ev req w]
  show ?thesis by blast
qed

lemma quiet_no_fault: "no_fault quiet_env w n"
  by (simp add: no_fault_def quiet_env_def)

lemma quiet_uuid_in:
  "uuid_in quiet_env [] = None"
  "uuid_in quiet_env (c # s) = Some (lower_hex c # map lower_hex s)"
  "lower_hex CHR ''A'' = CHR ''a''" "lower_hex CHR ''a'' = CHR ''a''"
  "lower_hex CHR ''b'' = CHR ''b''" "lower_hex CHR ''j'' = CHR ''j''"
  "lower_hex CHR ''r'' = CHR ''r''" "lower_hex CHR ''u'' = CHR ''u''"
  "lower_hex CHR ''z'' = CHR ''z''"
  "lower_hex CHR ''1'' = CHR ''1''" "lower_hex CHR ''2'' = CHR ''2''"
  "lower_hex CHR ''9'' = CHR ''9''"
  by (simp_all add: quiet_env_def read_uuid_def lower_hex_def)

theorem non_owner_403_unchanged_witness:
  "updateJob quiet_env \<lparr>param = ''j1'', body = [(''title'', JStr ''Mine now'')], user_userId = ''u2''\<rparr>
       world_AB
     = (json 403 False (Some ''You do not have permission to edit this job'') NoResource,
        world_AB\<lparr>calls := [JobFindById ''j1'']\<rparr>)
   \<and> deleteJob quiet_env \<lparr>param = ''j1'', body = [(''title'', JStr ''Mine now'')], user_userId = ''u2''\<rparr>
       world_AB
     = (json 403 False (Some ''You do not have permission to delete this job'') NoResource,
        world_AB\<lparr>calls := [JobFindById ''j1'']\<rparr>)
   \<and> deleteComment quiet_env \<lparr>param = ''A'', body = [], user_userId = ''u2''\<rparr> world_AB
     = (json 403 False (Some ''You are not authorized to delete this comment'') NoResource,
        world_AB\<lparr>queries := 3\<rparr>)
   \<and> deleteReply quiet_env \<lparr>param = ''r1'', body = [], user_userId = ''u1''\<rparr> world_AB
     = (json 403 False (Some ''You are not authorized to delete this reply'') NoResource,
        world_AB\<lparr>queries := 2\<rparr>)"
proof -
  let ?rj = "\<lparr>param = ''j1'', body = [(''title'', JStr ''Mine now'')], user_userId = ''u2''\<rparr>"
  let ?rc = "\<lparr>param = ''A'', body = [], user_userId = ''u2''\<rparr>"
  let ?rr = "\<lparr>param = ''r1'', body = [], user_userId = ''u1''\<rparr>"
  have j: "jm_findById quiet_env (param ?rj) = Inr (Some job_j1)
           \<and> obj_get job_j1 ''userId'' \<noteq> JStr (user_userId ?rj)"
    by (simp add: quiet_env_def job_j1_def obj_get_def)
  have c: "Comments world_AB = Some [comment_A, comment_B] \<and> Replies world_AB = Some [reply_R1, reply_R2]
        \<and> uuid_in quiet_env (param ?rc) = Some ''a''
        \<and> find (\<lambda>c. c_id c = ''a'') [comment_A, comment_B] = Some comment_A
        \<and> c_userId comment_A \<noteq> user_userId ?rc \<and> no_fault quiet_env world_AB 3"
    by (simp add: world_AB_def comment_A_def comment_B_def quiet_no_fault quiet_uuid_in)
  have r: "Replies world_AB = Some [reply_R1, reply_R2]
        \<and> uuid_in quiet_env (param ?rr) = Some ''r1''
        \<and> find (\<lambda>r. r_id r = ''r1'') [reply_R1, reply_R2] = Some reply_R1
        \<and> r_userId reply_R1 \<noteq> user_userId ?rr \<and> no_fault quiet_env world_AB 2"
    by (simp add: world_AB_def reply_R1_def reply_R2_def quiet_no_fault quiet_uuid_in)
  have q: "queries world_AB = 0" "calls world_AB = []" by (simp_all add: world_AB_def)
  from non_owner_403_unchanged [where ev = quiet_env and req = ?rj and j = job_j1
      and w = world_AB] j
  have 1: "updateJob quiet_env ?rj world_AB
     = (json 403 False (Some ''You do not have permission to edit this job'') NoResource,
        world_AB\<lparr>calls := [JobFindById ''j1'']\<rparr>)
     \<and> deleteJob quiet_env ?rj world_AB
     = (json 403 False (Some ''You do not have permission to delete this job'') NoResource,
        world_AB\<lparr>calls := [JobFindById ''j1'']\<rparr>)"
    by (simp add: q)
  from non_owner_403_unchanged [where ev = quiet_env and req = ?rc and w = world_AB
      and cs = "[comment_A, comment_B]" and rs = "[reply_R1, reply_R2]" and u = "''a''"
      and c = comment_A] c
  have 2: "deleteComment quiet_env ?rc world_AB
     = (json 403 False (Some ''You are not authorized to delete this comment'') NoResource,
        world_AB\<lparr>queries := 3\<rparr>)"
    by (simp add: q)
  from non_owner_403_unchanged [where ev = quiet_env and req = ?rr and w = world_AB
      and rs = "[reply_R1, reply_R2]" and u = "''r1''" and r = reply_R1] r
  have 3: "deleteReply quiet_env ?rr world_AB
     = (json 403 False (Some ''You are not authorized to delete this reply'') NoResource,
        world_AB\<lparr>queries := 2\<rparr>)"
    by (simp add: q)
  from 1 2 3 show ?thesis by blast
qed

text \<open>
  C7. Each of \<open>updateJob\<close>, \<open>deleteJob\<close>, \<open>deleteComment\<close> and \<open>deleteReply\<close> first
  loads the record: when it is absent the answer is 404, whoever the caller is, and
  nothing else has been done. A comment or a reply is absent when no stored row has the
  identifier that the parameter spells, in whatever spelling, or when the parameter
  spells none. When the record is there and belongs to another user the answer is 403
  and nothing else has been done. Only when the stored user is the caller is the
  operation applied: \<open>jobModel.update\<close> or \<open>jobModel.delete\<close> is called after the
  load, the comment goes with its replies, the reply goes.
\<close>

theorem three_step_guard:
  "(jm_findById ev (param req) = Inr None
      \<longrightarrow> updateJob ev req w =
             (json 404 False (Some ''Job not found'') NoResource,
              w\<lparr>calls := calls w @ [JobFindById (param req)]\<rparr>)
          \<and> deleteJob ev req w =
             (json 404 False (Some ''Job not found'') NoResource,
              w\<lparr>calls := calls w @ [JobFindById (param req)]\<rparr>))
   \<and> (jm_findById ev (param req) = Inr (Some j) \<and> obj_get j ''userId'' \<noteq> JStr (user_userId req)
      \<longrightarrow> updateJob ev req w =
             (json 403 False (Some ''You do not have permission to edit this job'') NoResource,
              w\<lparr>calls := calls w @ [JobFindById (param req)]\<rparr>)
          \<and> deleteJob ev req w =
             (json 403 False (Some ''You do not have permission to delete this job'') NoResource,
              w\<lparr>calls := calls w @ [JobFindById (param req)]\<rparr>))
   \<and> (jm_findById ev (param req) = Inr (Some j) \<and> obj_get j ''userId'' = JStr (user_userId req)
      \<longrightarrow> calls (snd (updateJob ev req w)) =
             calls w @ [JobFindById (param req), JobUpdate (param req) (updatedData ev (body req))]
          \<and> (\<forall>updatedJob user.
                jm_update ev (param req) (updatedData ev (body req)) = Inr updatedJob
                \<longrightarrow> um_findById ev (user_userId req) = Inr user
                \<longrightarrow> fst (updateJob ev req w) =
                      json 200 True (Some ''Job updated successfully'')
                        (JobRes (jobWithUser updatedJob user)))
          \<and> calls (snd (deleteJob ev req w)) =
             calls w @ [JobFindById (param req), JobDelete (param req)]
          \<and> (jm_delete ev (param req) = Inr ()
                \<longrightarrow> fst (deleteJob ev req w) =
                      json 200 True (Some ''Job deleted successfully'') NoResource))
   \<and> (Comments w = Some cs \<and> find (\<lambda>c. Some (c_id c) = uuid_in ev (param req)) cs = None
        \<and> no_fault ev w 2
      \<longrightarrow> deleteComment ev req w =
             (json 404 False (Some ''Comment not found'') NoResource,
              w\<lparr>queries := queries w + 2\<rparr>))
   \<and> (Comments w = Some cs \<and> Replies w = Some rs
        \<and> uuid_in ev (param req) = Some u
        \<and> find (\<lambda>c. c_id c = u) cs = Some c \<and> c_userId c \<noteq> user_userId req
        \<and> no_fault ev w 3
      \<longrightarrow> deleteComment ev req w =
             (json 403 False (Some ''You are not authorized to delete this comment'') NoResource,
              w\<lparr>queries := queries w + 3\<rparr>))
   \<and> (Comments w = Some cs \<and> Replies w = Some rs
        \<and> uuid_in ev (param req) = Some u
        \<and> find (\<lambda>c. c_id c = u) cs = Some c \<and> c_userId c = user_userId req
        \<and> no_fault ev w 6
      \<longrightarrow> deleteComment ev req w =
             (json 200 True (Some ''Comment deleted successfully'') NoResource,
              w\<lparr>queries := queries w + 6,
                Replies := Some (filter (\<lambda>r. r_commentId r \<noteq> u) rs),
                Comments := Some (filter (\<lambda>c. c_id c \<noteq> u) cs)\<rparr>))
   \<and> (Replies w = Some rs \<and> find (\<lambda>r. Some (r_id r) = uuid_in ev (param req)) rs = None
        \<and> no_fault ev w 2
      \<longrightarrow> deleteReply ev req w =
             (json 404 False (Some ''Reply not found'') NoResource,
              w\<lparr>queries := queries w + 2\<rparr>))
   \<and> (Replies w = Some rs
        \<and> uuid_in ev (param req) = Some u
        \<and> find (\<lambda>r. r_id r = u) rs = Some r \<and> r_userId r \<noteq> user_userId req
        \<and> no_fault ev w 2
      \<longrightarrow> deleteReply ev req w =
             (json 403 False (Some ''You are not authorized to delete this reply'') NoResource,
              w\<lparr>queries := queries w + 2\<rparr>))
   \<and> (Replies w = Some rs
        \<and> uuid_in ev (param req) = Some u
        \<and> find (\<lambda>r. r_id r = u) rs = Some r \<and> r_userId r = user_userId req
        \<and> no_fault ev w 4
      \<longrightarrow> deleteReply ev req w =
             (json 200 True (Some ''Reply deleted successfully'') NoResource,
              w\<lparr>queries := queries w + 4,
                Replies := Some (filter (\<lambda>r. r_id r \<noteq> u) rs)\<rparr>))"
proof -
  have j404: "updateJob ev req w =
             (json 404 False (Some ''Job not found'') NoResource,
              w\<lparr>calls := calls w @ [JobFindById (param req)]\<rparr>)
          \<and> deleteJob ev req w =
             (json 404 False (Some ''Job not found'') NoResource,
              w\<lparr>calls := calls w @ [JobFindById (param req)]\<rparr>)"
    if "jm_findById ev (param req) = Inr None"
    using updateJob_404 [OF that] deleteJob_404 [OF that] by simp
  have j403: "updateJob ev req w =
             (json 403 False (Some ''You do not have permission to edit this job'') NoResource,
              w\<lparr>calls := calls w @ [JobFindById (param req)]\<rparr>)
          \<and> deleteJob ev req w =
             (json 403 False (Some ''You do not have permission to delete this job'') NoResource,
              w\<lparr>calls := calls w @ [JobFindById (param req)]\<rparr>)"
    if "jm_findById ev (param req) = Inr (Some j)" "obj_get j ''userId'' \<noteq> JStr (user_userId req)"
    using updateJob_403 [OF that] deleteJob_403 [OF that] by simp
  have jown: "calls (snd (updateJob ev req w)) =
             calls w @ [JobFindById (param req), JobUpdate (param req) (updatedData ev (body req))]
          \<and> (\<forall>updatedJob user.
                jm_update ev (param req) (updatedData ev (body req)) = Inr updatedJob
                \<longrightarrow> um_findById ev (user_userId req) = Inr user
                \<longrightarrow> fst (updateJob ev req w) =
                      json 200 True (Some ''Job updated successfully'')
                        (JobRes (jobWithUser updatedJob user)))
          \<and> calls (snd (deleteJob ev req w)) =
             calls w @ [JobFindById (param req), JobDelete (param req)]
          \<and> (jm_delete ev (param req) = Inr ()
                \<longrightarrow> fst (deleteJob ev req w) =
                      json 200 True (Some ''Job deleted successfully'') NoResource)"
    if "jm_findById ev (param req) = Inr (Some j)" "obj_get j ''userId'' = JStr (user_userId req)"
    using updateJob_owner [OF that, of w] deleteJob_owner [OF that, of w] by simp
  have c404: "deleteComment ev req w =
             (json 404 False (Some ''Comment not found'') NoResource,
              w\<lparr>queries := queries w + 2\<rparr>)"
    if "Comments w = Some cs" "find (\<lambda>c. Some (c_id c) = uuid_in ev (param req)) cs = None"
       "no_fault ev w 2"
    using deleteComment_404 [OF that(1,2)] no_fault_2' [OF that(3)]
    by (simp add: numeral_2_eq_2)
  have c403: "deleteComment ev req w =
             (json 403 False (Some ''You are not authorized to delete this comment'') NoResource,
              w\<lparr>queries := queries w + 3\<rparr>)"
    if "Comments w = Some cs" "Replies w = Some rs" "uuid_in ev (param req) = Some u"
       "find (\<lambda>c. c_id c = u) cs = Some c" "c_userId c \<noteq> user_userId req"
       "no_fault ev w 3"
    using deleteComment_403 [OF that(1-4) _ _ _ that(5)] no_fault_3 [OF that(6)]
    by (simp add: numeral_3_eq_3)
  have cown: "deleteComment ev req w =
             (json 200 True (Some ''Comment deleted successfully'') NoResource,
              w\<lparr>queries := queries w + 6,
                Replies := Some (filter (\<lambda>r. r_commentId r \<noteq> u) rs),
                Comments := Some (filter (\<lambda>c. c_id c \<noteq> u) cs)\<rparr>)"
    if "Comments w = Some cs" "Replies w = Some rs" "uuid_in ev (param req) = Some u"
       "find (\<lambda>c. c_id c = u) cs = Some c" "c_userId c = user_userId req"
       "no_fault ev w 6"
    using deleteComment_owner [OF that(1-4) that(6) that(5)] .
  have r404: "deleteReply ev req w =
             (json 404 False (Some ''Reply not found'') NoResource,
              w\<lparr>queries := queries w + 2\<rparr>)"
    if "Replies w = Some rs" "find (\<lambda>r. Some (r_id r) = uuid_in ev (param req)) rs = None"
       "no_fault ev w 2"
    using deleteReply_404 [OF that(1,2)] no_fault_2' [OF that(3)]
    by (simp add: numeral_2_eq_2)
  have r403: "deleteReply ev req w =
             (json 403 False (Some ''You are not authorized to delete this reply'') NoResource,
              w\<lparr>queries := queries w + 2\<rparr>)"
    if "Replies w = Some rs" "uuid_in ev (param req) = Some u"
       "find (\<lambda>r. r_id r = u) rs = Some r" "r_userId r \<noteq> user_userId req"
       "no_fault ev w 2"
    using deleteReply_403 [OF that(1-3) _ _ that(4)] no_fault_2' [OF that(5)]
    by (simp add: numeral_2_eq_2)
  have rown: "deleteReply ev req w =
             (json 200 True (Some ''Reply deleted successfully'') NoResource,
              w\<lparr>queries := queries w + 4,
                Replies := Some (filter (\<lambda>r. r_id r \<noteq> u) rs)\<rparr>)"
    if "Replies w = Some rs" "uuid_in ev (param req) = Some u"
       "find (\<lambda>r. r_id r = u) rs = Some r" "r_userId r = user_userId req"
       "no_fault ev w 4"
    using deleteReply_owner [OF that(1-3) that(5) that(4)] .
  show ?thesis
    apply (intro conjI impI)
    subgoal using j404 by blast
    subgoal using j404 by blast
    subgoal using j403 by blast
    subgoal using j403 by blast
    subgoal using jown by blast
    subgoal using jown by blast
    subgoal using jown by blast
    subgoal using jown by blast
    subgoal using c404 by blast
    subgoal using c403 by blast
    subgoal using cown by blast
    subgoal using r404 by blast
    subgoal using r403 by blast
    subgoal using rown by blast
    done
qed

theorem three_step_guard_witness:
  "deleteJob quiet_env \<lparr>param = ''j9'', body = [], user_userId = ''u1''\<rparr> world_AB
     = (json 404 False (Some ''Job not found'') NoResource,
        world_AB\<lparr>calls := [JobFindById ''j9'']\<rparr>)
   \<and> calls (snd (deleteJob quiet_env \<lparr>param = ''j1'', body = [], user_userId = ''u1''\<rparr> world_AB))
     = [JobFindById ''j1'', JobDelete ''j1'']
   \<and> fst (deleteJob quiet_env \<lparr>param = ''j1'', body = [], user_userId = ''u1''\<rparr> world_AB)
     = json 200 True (Some ''Job deleted successfully'') NoResource
   \<and> deleteComment quiet_env \<lparr>param = ''zz'', body = [], user_userId = ''u1''\<rparr> world_AB
     = (json 404 False (Some ''Comment not found'') NoResource, world_AB\<lparr>queries := 2\<rparr>)
   \<and> deleteComment quiet_env \<lparr>param = [], body = [], user_userId = ''u1''\<rparr> world_AB
     = (json 404 False (Some ''Comment not found'') NoResource, world_AB\<lparr>queries := 2\<rparr>)
   \<and> deleteComment quiet_env \<lparr>param = ''A'', body = [], user_userId = ''u1''\<rparr> world_AB
     = (json 200 True (Some ''Comment deleted successfully'') NoResource,
        world_AB\<lparr>queries := 6, Replies := Some [], Comments := Some [comment_B]\<rparr>)
   \<and> deleteReply quiet_env \<lparr>param = ''zz'', body = [], user_userId = ''u2''\<rparr> world_AB
     = (json 404 False (Some ''Reply not found'') NoResource, world_AB\<lparr>queries := 2\<rparr>)
   \<and> deleteReply quiet_env \<lparr>param = ''r1'', body = [], user_userId = ''u2''\<rparr> world_AB
     = (json 200 True (Some ''Reply deleted successfully'') NoResource,
        world_AB\<lparr>queries := 4, Replies := Some [reply_R2]\<rparr>)"
proof -
  let ?j9 = "\<lparr>param = ''j9'', body = [], user_userId = ''u1''\<rparr>"
  let ?j1 = "\<lparr>param = ''j1'', body = [], user_userId = ''u1''\<rparr>"
  let ?cz = "\<lparr>param = ''zz'', body = [], user_userId = ''u1''\<rparr>"
  let ?ce = "\<lparr>param = [], body = [], user_userId = ''u1''\<rparr>"
  let ?ca = "\<lparr>param = ''A'', body = [], user_userId = ''u1''\<rparr>"
  let ?rz = "\<lparr>param = ''zz'', body = [], user_userId = ''u2''\<rparr>"
  let ?r1 = "\<lparr>param = ''r1'', body = [], user_userId = ''u2''\<rparr>"
  have q: "queries world_AB = 0" "calls world_AB = []"
    "Comments world_AB = Some [comment_A, comment_B]"
    "Replies world_AB = Some [reply_R1, reply_R2]"
    by (simp_all add: world_AB_def)
  have h9: "jm_findById quiet_env (param ?j9) = Inr None"
    by (simp add: quiet_env_def)
  have h1: "jm_findById quiet_env (param ?j1) = Inr (Some job_j1)
            \<and> obj_get job_j1 ''userId'' = JStr (user_userId ?j1)"
    "jm_delete quiet_env (param ?j1) = Inr ()"
    by (simp_all add: quiet_env_def job_j1_def obj_get_def)
  have hcz: "find (\<lambda>c. Some (c_id c) = uuid_in quiet_env (param ?cz)) [comment_A, comment_B] = None"
    by (simp add: comment_A_def comment_B_def quiet_uuid_in)
  have hce: "find (\<lambda>c. Some (c_id c) = uuid_in quiet_env (param ?ce)) [comment_A, comment_B] = None"
    by (simp add: comment_A_def comment_B_def quiet_uuid_in)
  have hca: "uuid_in quiet_env (param ?ca) = Some ''a''
             \<and> find (\<lambda>c. c_id c = ''a'') [comment_A, comment_B] = Some comment_A
             \<and> c_userId comment_A = user_userId ?ca"
    "filter (\<lambda>r. r_commentId r \<noteq> ''a'') [reply_R1, reply_R2] = []"
    "filter (\<lambda>c. c_id c \<noteq> ''a'') [comment_A, comment_B] = [comment_B]"
    by (simp_all add: comment_A_def comment_B_def reply_R1_def reply_R2_def quiet_uuid_in)
  have hrz: "find (\<lambda>r. Some (r_id r) = uuid_in quiet_env (param ?rz)) [reply_R1, reply_R2] = None"
    by (simp add: reply_R1_def reply_R2_def quiet_uuid_in)
  have hr1: "uuid_in quiet_env (param ?r1) = Some ''r1''
             \<and> find (\<lambda>r. r_id r = ''r1'') [reply_R1, reply_R2] = Some reply_R1
             \<and> r_userId reply_R1 = user_userId ?r1"
    "filter (\<lambda>r. r_id r \<noteq> ''r1'') [reply_R1, reply_R2] = [reply_R2]"
    by (simp_all add: reply_R1_def reply_R2_def quiet_uuid_in)
  from three_step_guard [where ev = quiet_env and req = ?j9 and w = world_AB] h9
  have 1: "deleteJob quiet_env ?j9 world_AB
     = (json 404 False (Some ''Job not found'') NoResource,
        world_AB\<lparr>calls := [JobFindById ''j9'']\<rparr>)"
    by (simp add: q)
  from three_step_guard [where ev = quiet_env and req = ?j1 and w = world_AB and j = job_j1] h1
  have 2: "calls (snd (deleteJob quiet_env ?j1 world_AB)) = [JobFindById ''j1'', JobDelete ''j1'']
     \<and> fst (deleteJob quiet_env ?j1 world_AB)
       = json 200 True (Some ''Job deleted successfully'') NoResource"
    by (simp add: q)
  from three_step_guard [where ev = quiet_env and req = ?cz and w = world_AB
      and cs = "[comment_A, comment_B]"] hcz
  have 3: "deleteComment quiet_env ?cz world_AB
     = (json 404 False (Some ''Comment not found'') NoResource, world_AB\<lparr>queries := 2\<rparr>)"
    by (simp add: q quiet_no_fault)
  from three_step_guard [where ev = quiet_env and req = ?ce and w = world_AB
      and cs = "[comment_A, comment_B]"] hce
  have 4: "deleteComment quiet_env ?ce world_AB
     = (json 404 False (Some ''Comment not found'') NoResource, world_AB\<lparr>queries := 2\<rparr>)"
    by (simp add: q quiet_no_fault)
  from three_step_guard [where ev = quiet_env and req = ?ca and w = world_AB
      and cs = "[comment_A, comment_B]" and rs = "[reply_R1, reply_R2]" and u = "''a''"
      and c = comment_A] hca
  have 5: "deleteComment quiet_env ?ca world_AB
     = (json 200 True (Some ''Comment deleted successfully'') NoResource,
        world_AB\<lparr>queries := 6, Replies := Some [], Comments := Some [comment_B]\<rparr>)"
    by (simp add: q quiet_no_fault)
  from three_step_guard [where ev = quiet_env and req = ?rz and w = world_AB
      and rs = "[reply_R1, reply_R2]"] hrz
  have 6: "deleteReply quiet_env ?rz world_AB
     = (json 404 False (Some ''Reply not found'') NoResource, world_AB\<lparr>queries := 2\<rparr>)"
    by (simp add: q quiet_no_fault)
  from three_step_guard [where ev = quiet_env and req = ?r1 and w = world_AB
      and rs = "[reply_R1, reply_R2]" and u = "''r1''" and r = reply_R1] hr1
  have 7: "deleteReply quiet_env ?r1 world_AB
     = (json 200 True (Some ''Reply deleted successfully'') NoResource,
        world_AB\<lparr>queries := 4, Replies := Some [reply_R2]\<rparr>)"
    by (simp add: q quiet_no_fault)
  from 1 2 3 4 5 6 7 show ?thesis by blast
qed
section \<open>Serving the comments of a job\<close>

lemma Promise_all_Inr: "Promise_all xs = Inr ys \<longleftrightarrow> xs = map Inr ys"
proof (induction xs arbitrary: ys)
  case Nil
  then show ?case by auto
next
  case (Cons x xs)
  show ?case
  proof (cases x)
    case (Inl e)
    then show ?thesis by auto
  next
    case (Inr a)
    show ?thesis
    proof (cases "Promise_all xs")
      case (Inl e)
      with Inr Cons.IH show ?thesis by (cases ys) auto
    next
      case r: (Inr as)
      with Inr Cons.IH [of as] show ?thesis by (cases ys) auto
    qed
  qed
qed

lemma enrich_reply_Inr:
  "enrich_reply ev r = Inr e \<Longrightarrow> reply.truncate e = r"
  by (auto simp: enrich_reply_def reply.truncate_def reply.extend_def split: sum.splits)

lemma enrich_replies_Inr:
  "map (enrich_reply ev) rs = map Inr es \<Longrightarrow> map reply.truncate es = rs"
proof (induction rs arbitrary: es)
  case Nil
  then show ?case by simp
next
  case (Cons r rs)
  then obtain e es' where es: "es = e # es'" by (cases es) auto
  with Cons.prems have "enrich_reply ev r = Inr e" "map (enrich_reply ev) rs = map Inr es'"
    by simp_all
  with Cons.IH [of es'] es show ?case by (simp add: enrich_reply_Inr)
qed

lemma enrich_comment_Inr:
  assumes "enrich_comment ev c = Inr e"
  shows "comment.truncate e = comment.truncate c
       \<and> map reply.truncate (enrichedReplies e) = replies c"
proof -
  from assms obtain user ers where u: "um_findById ev (c_userId c) = Inr user"
    and p: "(if replies c \<noteq> [] then Promise_all (map (enrich_reply ev) (replies c)) else Inr []) = Inr ers"
    and e: "e = \<lparr>c_id = c_id c, c_content = c_content c,
                    c_userId = c_userId c, c_jobId = c_jobId c,
                    c_createdAt = c_createdAt c, c_updatedAt = c_updatedAt c,
                    c_userName = userName_of user, c_userPhoto = userPhoto_of user,
                    enrichedReplies = ers\<rparr>"
    by (auto simp: enrich_comment_def split: sum.splits)
  have "map reply.truncate ers = replies c"
  proof (cases "replies c = []")
    case True
    with p show ?thesis by simp
  next
    case False
    with p have "map (enrich_reply ev) (replies c) = map Inr ers"
      by (simp add: Promise_all_Inr)
    then show ?thesis by (rule enrich_replies_Inr)
  qed
  with e show ?thesis by (simp add: comment.truncate_def)
qed

lemma enrich_comments_Inr:
  "map (enrich_comment ev) cs = map Inr es \<Longrightarrow>
   map comment.truncate es = map comment.truncate cs
   \<and> map (\<lambda>e. map reply.truncate (enrichedReplies e)) es = map replies cs"
proof (induction cs arbitrary: es)
  case Nil
  then show ?case by simp
next
  case (Cons c cs)
  then obtain e es' where es: "es = e # es'" by (cases es) auto
  with Cons.prems have "enrich_comment ev c = Inr e" "map (enrich_comment ev) cs = map Inr es'"
    by simp_all
  with Cons.IH [of es'] es enrich_comment_Inr [of ev c e] show ?case by simp
qed

lemma enrich_reply_total:
  "\<forall>u. \<exists>x. um_findById ev u = Inr x \<Longrightarrow> \<exists>e. enrich_reply ev r = Inr e"
  by (auto simp: enrich_reply_def split: sum.splits) (metis sum.distinct(1))

lemma Promise_all_total:
  "\<forall>x \<in> set xs. \<exists>y. f x = Inr y \<Longrightarrow> \<exists>ys. Promise_all (map f xs) = Inr ys"
  by (induction xs) (auto split: sum.splits)

lemma enrich_comment_total:
  assumes "\<forall>u. \<exists>x. um_findById ev u = Inr x"
  shows "\<exists>e. enrich_comment ev c = Inr e"
proof -
  from assms obtain user where u: "um_findById ev (c_userId c) = Inr user" by blast
  have "\<exists>ys. Promise_all (map (enrich_reply ev) (replies c)) = Inr ys"
    by (rule Promise_all_total) (use enrich_reply_total [OF assms] in blast)
  then obtain ys where "Promise_all (map (enrich_reply ev) (replies c)) = Inr ys" by blast
  with u show ?thesis by (simp add: enrich_comment_def)
qed

lemma getComments_served:
  assumes "resource (fst (getComments ev req w)) = CommentsRes served"
  shows "\<exists>result. fst (findByJobId ev (param req) (w\<lparr>calls := calls w @ [JobFindById (param req)]\<rparr>))
                    = Inr result
                \<and> map (enrich_comment ev) result = map Inr served"
  using assms
  by (auto simp: getComments_def getComments_try_def respond_def await_def ret_def Let_def
      jobModel_findById_def json_def Promise_all_Inr
      split: sum.splits prod.splits option.splits)

lemma getComments_ok:
  assumes "jm_findById ev (param req) = Inr (Some j)"
      and "\<forall>u. \<exists>x. um_findById ev u = Inr x"
      and "fst (findByJobId ev (param req) (w\<lparr>calls := calls w @ [JobFindById (param req)]\<rparr>))
             = Inr result"
  shows "\<exists>served. fst (getComments ev req w) = json 200 True None (CommentsRes served)
               \<and> map (enrich_comment ev) result = map Inr served"
proof -
  have "\<exists>ys. Promise_all (map (enrich_comment ev) result) = Inr ys"
    by (rule Promise_all_total) (use enrich_comment_total [OF assms(2)] in blast)
  then obtain ys where ys: "Promise_all (map (enrich_comment ev) result) = Inr ys" by blast
  then have "map (enrich_comment ev) result = map Inr ys" by (simp add: Promise_all_Inr)
  moreover have "fst (getComments ev req w) = json 200 True None (CommentsRes ys)"
    using assms(1,3) ys
    by (auto simp: getComments_def getComments_try_def respond_def await_def ret_def Let_def
        jobModel_findById_def split: sum.splits prod.splits)
  ultimately show ?thesis by blast
qed

section \<open>Deleting a comment\<close>

lemma findByJobId_result:
  assumes "Comments w = Some cs" "Replies w = Some rs"
  shows "fst (findByJobId ev jobId w) = Inr []
       \<or> (\<exists>j. fst (findByJobId ev jobId w) = Inr (group_rows (result_order ev (join_of j cs rs))))"
proof (cases "fault ev (queries w)")
  case True
  have "fst (findByJobId_try ev jobId w) = Inl connection_error"
    using True by (simp add: findByJobId_try_def await_def ensureTable_fault)
  then show ?thesis using findByJobId_catch by blast
next
  case False
  show ?thesis
  proof (cases "fault ev (Suc (queries w))")
    case True
    have "fst (findByJobId_try ev jobId w) = Inl connection_error"
      using True False assms
      by (simp add: findByJobId_try_def await_def ensureTable_ok db_query_fault)
    then show ?thesis using findByJobId_catch by blast
  next
    case f: False
    show ?thesis
    proof (cases "uuid_in ev jobId")
      case None
      from findByJobId_try_invalid [OF assms None False f] show ?thesis
        using findByJobId_catch by blast
    next
      case (Some j)
      from findByJobId_ok [OF assms Some False f] show ?thesis by auto
    qed
  qed
qed

lemma grouped_from_rows:
  assumes "c \<in> set (grouped_spec rows)"
  shows "(\<exists>row \<in> set rows. comment.truncate c = comment.truncate row)
       \<and> (\<forall>r \<in> set (replies c). \<exists>row \<in> set rows. joined row = Some r)"
proof -
  from assms obtain row where row: "row \<in> set (first_rows rows)"
    and c: "c = comment_entry row (replies_for rows (c_id row))"
    by (auto simp: grouped_spec_def)
  from row set_first_rows_subset [of rows] have "row \<in> set rows" by blast
  moreover have "comment.truncate c = comment.truncate row"
    using c by (simp add: truncate_comment_entry)
  moreover have "\<forall>r \<in> set (replies c). \<exists>row \<in> set rows. joined row = Some r"
    using c replies_for_sound [of _ rows "c_id row"] by (auto simp: replies_comment_entry)
  ultimately show ?thesis by blast
qed

lemma findByJobId_from_tables:
  assumes "Comments w = Some cs" "Replies w = Some rs"
      and "\<forall>j. set (result_order ev (join_of j cs rs)) = set (join_of j cs rs)"
      and "fst (findByJobId ev jobId w) = Inr result" "c \<in> set result"
  shows "comment.truncate c \<in> set cs \<and> set (replies c) \<subseteq> set rs"
proof -
  from findByJobId_result [OF assms(1,2), of ev jobId] assms(4,5)
  obtain j where "c \<in> set (grouped_spec (result_order ev (join_of j cs rs)))"
    by (auto simp: group_rows_refines)
  from grouped_from_rows [OF this] assms(3)
  have 1: "\<exists>row \<in> set (join_of j cs rs). comment.truncate c = comment.truncate row"
    and 2: "\<forall>r \<in> set (replies c). \<exists>row \<in> set (join_of j cs rs). joined row = Some r"
    by simp_all
  from 1 join_row_comment have "comment.truncate c \<in> set cs" by metis
  moreover from 2 join_row_reply have "set (replies c) \<subseteq> set rs" by blast
  ultimately show ?thesis by blast
qed

lemma sql_ordered_set: "sql_ordered xs ys \<Longrightarrow> set ys = set xs"
  by (auto simp: sql_ordered_def dest: mset_eq_setD)

text \<open>
  C6. \<open>commentModel.delete\<close> for the identifier that its argument spells: when none of
  its three queries is rejected it returns \<open>true\<close> and leaves the \<open>Comments\<close> table
  without the comment and the \<open>Replies\<close> table without any reply to it, whatever the
  foreign key of \<open>Replies\<close> does on a delete, because the replies are removed by the
  first of the two \<open>DELETE\<close> statements. On tables in that state, for every job, neither
  the list that \<open>findByJobId\<close> returns nor the list that \<open>getComments\<close> serves holds a
  comment with the deleted identifier, a reply to it, or one of the replies it had. When
  only the last query is rejected, the replies have gone already and the comment is
  still stored.
\<close>

theorem delete_comment_removes_replies:
  assumes "Comments w = Some cs" "Replies w = Some rs" "uuid_in ev cid = Some u"
      and "no_fault ev w 3"
  shows "fst (commentModel_delete ev cid w) = Inr True
       \<and> Comments (snd (commentModel_delete ev cid w)) = Some (filter (\<lambda>c. c_id c \<noteq> u) cs)
       \<and> Replies (snd (commentModel_delete ev cid w)) = Some (filter (\<lambda>r. r_commentId r \<noteq> u) rs)
       \<and> (Comments w2 = Comments (snd (commentModel_delete ev cid w))
          \<and> Replies w2 = Replies (snd (commentModel_delete ev cid w))
          \<and> (\<forall>j. sql_ordered
               (join_of j (filter (\<lambda>c. c_id c \<noteq> u) cs) (filter (\<lambda>r. r_commentId r \<noteq> u) rs))
               (result_order ev2
                  (join_of j (filter (\<lambda>c. c_id c \<noteq> u) cs) (filter (\<lambda>r. r_commentId r \<noteq> u) rs))))
          \<longrightarrow> (\<forall>result. fst (findByJobId ev2 (param req) w2) = Inr result \<longrightarrow>
                 (\<forall>c \<in> set result. c_id c \<noteq> u
                    \<and> (\<forall>r \<in> set (replies c). r_commentId r \<noteq> u
                          \<and> r \<notin> set (filter (\<lambda>r. r_commentId r = u) rs))))
              \<and> (\<forall>c \<in> set (served_comments (fst (getComments ev2 req w2))). c_id c \<noteq> u
                    \<and> (\<forall>r \<in> set (enrichedReplies c). r_commentId r \<noteq> u
                          \<and> reply.truncate r \<notin> set (filter (\<lambda>r. r_commentId r = u) rs))))
       \<and> (uuid_in ev3 cid = Some u \<and> \<not> fault ev3 (queries w) \<and> \<not> fault ev3 (Suc (queries w))
          \<and> fault ev3 (Suc (Suc (queries w)))
          \<longrightarrow> commentModel_delete ev3 cid w =
                (Inl connection_error,
                 w\<lparr>queries := Suc (Suc (Suc (queries w))),
                   Replies := Some (filter (\<lambda>r. r_commentId r \<noteq> u) rs)\<rparr>))"
proof -
  let ?cs = "filter (\<lambda>c. c_id c \<noteq> u) cs" and ?rs = "filter (\<lambda>r. r_commentId r \<noteq> u) rs"
  from no_fault_3 [OF assms(4)]
  have d: "commentModel_delete ev cid w =
           (Inr True, w\<lparr>queries := Suc (Suc (Suc (queries w))),
                        Replies := Some ?rs, Comments := Some ?cs\<rparr>)"
    using commentModel_delete_ok [OF assms(1-3)] by blast
  have m: "fst (commentModel_delete ev cid w) = Inr True"
    "Comments (snd (commentModel_delete ev cid w)) = Some ?cs"
    "Replies (snd (commentModel_delete ev cid w)) = Some ?rs"
    by (simp_all add: d)
  have later: "(\<forall>result. fst (findByJobId ev2 (param req) w2) = Inr result \<longrightarrow>
                 (\<forall>c \<in> set result. c_id c \<noteq> u
                    \<and> (\<forall>r \<in> set (replies c). r_commentId r \<noteq> u
                          \<and> r \<notin> set (filter (\<lambda>r. r_commentId r = u) rs))))
              \<and> (\<forall>c \<in> set (served_comments (fst (getComments ev2 req w2))). c_id c \<noteq> u
                    \<and> (\<forall>r \<in> set (enrichedReplies c). r_commentId r \<noteq> u
                          \<and> reply.truncate r \<notin> set (filter (\<lambda>r. r_commentId r = u) rs)))"
    if t: "Comments w2 = Some ?cs" "Replies w2 = Some ?rs"
      and o: "\<forall>j. sql_ordered (join_of j ?cs ?rs) (result_order ev2 (join_of j ?cs ?rs))"
  proof -
    from o have s: "\<forall>j. set (result_order ev2 (join_of j ?cs ?rs)) = set (join_of j ?cs ?rs)"
      using sql_ordered_set by blast
    have clean: "c_id c \<noteq> u \<and> (\<forall>r \<in> set (replies c). r_commentId r \<noteq> u
                          \<and> r \<notin> set (filter (\<lambda>r. r_commentId r = u) rs))"
      if "Comments w3 = Some ?cs" "Replies w3 = Some ?rs"
         "fst (findByJobId ev2 (param req) w3) = Inr result" "c \<in> set result" for w3 result c
    proof -
      from findByJobId_from_tables [OF that(1,2) s that(3,4)]
      have a: "comment.truncate c \<in> set ?cs" and b: "set (replies c) \<subseteq> set ?rs" by simp_all
      from a have "c_id (comment.truncate c) \<noteq> u" by simp
      then have "c_id c \<noteq> u" by (simp add: c_id_truncate)
      with b show ?thesis by auto
    qed
    have 1: "\<forall>result. fst (findByJobId ev2 (param req) w2) = Inr result \<longrightarrow>
                 (\<forall>c \<in> set result. c_id c \<noteq> u
                    \<and> (\<forall>r \<in> set (replies c). r_commentId r \<noteq> u
                          \<and> r \<notin> set (filter (\<lambda>r. r_commentId r = u) rs)))"
      using clean [OF t] by blast
    have 2: "c_id e \<noteq> u \<and> (\<forall>r \<in> set (enrichedReplies e). r_commentId r \<noteq> u
                          \<and> reply.truncate r \<notin> set (filter (\<lambda>r. r_commentId r = u) rs))"
      if e: "e \<in> set (served_comments (fst (getComments ev2 req w2)))" for e
    proof -
      from e obtain served where sv: "resource (fst (getComments ev2 req w2)) = CommentsRes served"
        and es: "e \<in> set served"
        by (cases "resource (fst (getComments ev2 req w2))") (auto simp: served_comments_def)
      let ?w3 = "w2\<lparr>calls := calls w2 @ [JobFindById (param req)]\<rparr>"
      from getComments_served [OF sv] obtain result where
        r: "fst (findByJobId ev2 (param req) ?w3) = Inr result"
        and en: "map (enrich_comment ev2) result = map Inr served" by blast
      from es obtain i where i: "i < length served" "served ! i = e"
        by (auto simp: in_set_conv_nth)
      from en have len: "length result = length served" by (metis length_map)
      from en i len have ei: "enrich_comment ev2 (result ! i) = Inr e"
        by (metis nth_map)
      from enrich_comment_Inr [OF ei]
      have tr: "comment.truncate e = comment.truncate (result ! i)"
        and rp: "map reply.truncate (enrichedReplies e) = replies (result ! i)" by simp_all
      have ri: "result ! i \<in> set result" using i len by simp
      have "Comments ?w3 = Some ?cs" "Replies ?w3 = Some ?rs" using t by simp_all
      from clean [OF this r ri]
      have c1: "c_id (result ! i) \<noteq> u"
        and c2: "\<forall>r \<in> set (replies (result ! i)). r_commentId r \<noteq> u
                          \<and> r \<notin> set (filter (\<lambda>r. r_commentId r = u) rs)" by simp_all
      have "c_id e = c_id (result ! i)" using tr by (metis c_id_truncate)
      with c1 have g1: "c_id e \<noteq> u" by simp
      have g2: "r_commentId x \<noteq> u \<and> reply.truncate x \<notin> set (filter (\<lambda>r. r_commentId r = u) rs)"
        if "x \<in> set (enrichedReplies e)" for x
      proof -
        from that have "reply.truncate x \<in> set (replies (result ! i))"
          using rp by (metis image_eqI set_map)
        with c2 have "r_commentId (reply.truncate x) \<noteq> u"
          "reply.truncate x \<notin> set (filter (\<lambda>r. r_commentId r = u) rs)" by simp_all
        then show ?thesis by (simp add: reply.truncate_def)
      qed
      from g1 g2 show ?thesis by blast
    qed
    from 1 2 show ?thesis by blast
  qed
  have 4: "Comments w2 = Comments (snd (commentModel_delete ev cid w))
          \<and> Replies w2 = Replies (snd (commentModel_delete ev cid w))
          \<and> (\<forall>j. sql_ordered (join_of j ?cs ?rs) (result_order ev2 (join_of j ?cs ?rs)))
          \<longrightarrow> (\<forall>result. fst (findByJobId ev2 (param req) w2) = Inr result \<longrightarrow>
                 (\<forall>c \<in> set result. c_id c \<noteq> u
                    \<and> (\<forall>r \<in> set (replies c). r_commentId r \<noteq> u
                          \<and> r \<notin> set (filter (\<lambda>r. r_commentId r = u) rs))))
              \<and> (\<forall>c \<in> set (served_comments (fst (getComments ev2 req w2))). c_id c \<noteq> u
                    \<and> (\<forall>r \<in> set (enrichedReplies c). r_commentId r \<noteq> u
                          \<and> reply.truncate r \<notin> set (filter (\<lambda>r. r_commentId r = u) rs)))"
  proof
    assume a: "Comments w2 = Comments (snd (commentModel_delete ev cid w))
          \<and> Replies w2 = Replies (snd (commentModel_delete ev cid w))
          \<and> (\<forall>j. sql_ordered (join_of j ?cs ?rs) (result_order ev2 (join_of j ?cs ?rs)))"
    then have "Comments w2 = Some ?cs" "Replies w2 = Some ?rs"
      by (simp_all only: m(2,3))
    moreover from a
    have "\<forall>j. sql_ordered (join_of j ?cs ?rs) (result_order ev2 (join_of j ?cs ?rs))"
      by (elim conjE)
    ultimately show "(\<forall>result. fst (findByJobId ev2 (param req) w2) = Inr result \<longrightarrow>
                 (\<forall>c \<in> set result. c_id c \<noteq> u
                    \<and> (\<forall>r \<in> set (replies c). r_commentId r \<noteq> u
                          \<and> r \<notin> set (filter (\<lambda>r. r_commentId r = u) rs))))
              \<and> (\<forall>c \<in> set (served_comments (fst (getComments ev2 req w2))). c_id c \<noteq> u
                    \<and> (\<forall>r \<in> set (enrichedReplies c). r_commentId r \<noteq> u
                          \<and> reply.truncate r \<notin> set (filter (\<lambda>r. r_commentId r = u) rs)))"
      by (rule later)
  qed
  have 5: "uuid_in ev3 cid = Some u \<and> \<not> fault ev3 (queries w) \<and> \<not> fault ev3 (Suc (queries w))
          \<and> fault ev3 (Suc (Suc (queries w)))
          \<longrightarrow> commentModel_delete ev3 cid w =
                (Inl connection_error,
                 w\<lparr>queries := Suc (Suc (Suc (queries w))), Replies := Some ?rs\<rparr>)"
    using commentModel_delete_partial [OF assms(1,2), of ev3 cid u] by blast
  show ?thesis
    by (intro conjI) (rule m(1) m(2) m(3) 4 5)+
qed

lemma world_AB_simps:
  "queries world_AB = 0" "calls world_AB = []"
  "Comments world_AB = Some [comment_A, comment_B]"
  "Replies world_AB = Some [reply_R1, reply_R2]"
  by (simp_all add: world_AB_def)

lemma quiet_env_simps:
  "fault quiet_env n = False" "result_order quiet_env rows = rows"
  "um_findById quiet_env u = Inr None"
  "jm_findById quiet_env ''j1'' = Inr (Some job_j1)"
  by (simp_all add: quiet_env_def)

lemma join_after_delete:
  "join_of ''j1'' (filter (\<lambda>c. c_id c \<noteq> ''a'') [comment_A, comment_B])
                   (filter (\<lambda>r. r_commentId r \<noteq> ''a'') [reply_R1, reply_R2])
   = [row_of comment_B None]"
  by (simp add: join_of_def left_join_rows comment_A_def comment_B_def reply_R1_def reply_R2_def
      row_of_simps)

lemma group_single: "group_rows [row_of comment_B None] = [comment_entry (row_of comment_B None) []]"
  by (simp add: group_rows_refines grouped_spec_def replies_for_def attach_reply_def row_of_simps)

theorem delete_comment_removes_replies_witness:
  "fst (commentModel_delete quiet_env ''A'' world_AB) = Inr True
   \<and> Comments (snd (commentModel_delete quiet_env ''A'' world_AB)) = Some [comment_B]
   \<and> Replies (snd (commentModel_delete quiet_env ''A'' world_AB)) = Some []
   \<and> fst (findByJobId quiet_env ''j1'' (snd (commentModel_delete quiet_env ''A'' world_AB)))
       = Inr [comment_entry (row_of comment_B None) []]
   \<and> c_id (comment_entry (row_of comment_B None) []) = ''b''
   \<and> commentModel_delete (quiet_env\<lparr>fault := (\<lambda>n. n = 2)\<rparr>) ''A'' world_AB
       = (Inl connection_error, world_AB\<lparr>queries := 3, Replies := Some []\<rparr>)"
proof -
  let ?req = "\<lparr>param = ''j1'', body = [], user_userId = ''u1''\<rparr>"
  let ?w' = "snd (commentModel_delete quiet_env ''A'' world_AB)"
  let ?ev3 = "quiet_env\<lparr>fault := (\<lambda>n. n = 2)\<rparr>"
  have uu: "uuid_in quiet_env ''A'' = Some ''a''" by (simp add: quiet_uuid_in)
  note t = delete_comment_removes_replies [where w = world_AB and cs = "[comment_A, comment_B]"
      and rs = "[reply_R1, reply_R2]" and ev = quiet_env and ?w2.0 = ?w' and cid = "''A''"
      and u = "''a''" and req = ?req and ?ev2.0 = quiet_env and ?ev3.0 = ?ev3,
      OF world_AB_simps(3,4) uu quiet_no_fault]
  have f: "filter (\<lambda>c. c_id c \<noteq> ''a'') [comment_A, comment_B] = [comment_B]"
    "filter (\<lambda>r. r_commentId r \<noteq> ''a'') [reply_R1, reply_R2] = []"
    by (simp_all add: comment_A_def comment_B_def reply_R1_def reply_R2_def)
  have 1: "fst (commentModel_delete quiet_env ''A'' world_AB) = Inr True"
    using t [THEN conjunct1] .
  have 2: "Comments ?w' = Some [comment_B]"
    using t [THEN conjunct2, THEN conjunct1] by (simp only: f)
  have 3: "Replies ?w' = Some []"
    using t [THEN conjunct2, THEN conjunct2, THEN conjunct1] by (simp only: f)
  have j: "join_of ''j1'' [comment_B] [] = [row_of comment_B None]"
    using join_after_delete by (simp only: f)
  have pr: "param ?req = ''j1''" by simp
  have uj: "uuid_in quiet_env ''j1'' = Some ''j1''" by (simp add: quiet_uuid_in)
  have o': "sql_ordered (join_of j [comment_B] []) (result_order quiet_env (join_of j [comment_B] []))"
    for j
    by (simp add: quiet_env_simps sql_ordered_def join_of_def left_join_rows)
  have o: "\<forall>j. sql_ordered
               (join_of j (filter (\<lambda>c. c_id c \<noteq> ''a'') [comment_A, comment_B])
                          (filter (\<lambda>r. r_commentId r \<noteq> ''a'') [reply_R1, reply_R2]))
               (result_order quiet_env
                  (join_of j (filter (\<lambda>c. c_id c \<noteq> ''a'') [comment_A, comment_B])
                             (filter (\<lambda>r. r_commentId r \<noteq> ''a'') [reply_R1, reply_R2])))"
    using o' by (simp only: f) blast
  have 4: "fst (findByJobId quiet_env ''j1'' ?w') = Inr [comment_entry (row_of comment_B None) []]"
    using findByJobId_ok [OF 2 3 uj]
    by (simp add: quiet_env_simps j group_single)
  have "Comments ?w' = Comments ?w' \<and> Replies ?w' = Replies ?w'" by simp
  with o have later: "(\<forall>result. fst (findByJobId quiet_env (param ?req) ?w') = Inr result \<longrightarrow>
                 (\<forall>c \<in> set result. c_id c \<noteq> ''a''
                    \<and> (\<forall>r \<in> set (replies c). r_commentId r \<noteq> ''a''
                          \<and> r \<notin> set (filter (\<lambda>r. r_commentId r = ''a'') [reply_R1, reply_R2]))))"
    using t [THEN conjunct2, THEN conjunct2, THEN conjunct2, THEN conjunct1] by blast
  have "fst (findByJobId quiet_env (param ?req) ?w') = Inr [comment_entry (row_of comment_B None) []]"
    using 4 by simp
  from later [rule_format, OF this, of "comment_entry (row_of comment_B None) []"]
  have "c_id (comment_entry (row_of comment_B None) []) \<noteq> ''a''" by simp
  have 5: "c_id (comment_entry (row_of comment_B None) []) = ''b''"
    by (simp add: c_id_comment_entry row_of_simps comment_B_def)
  have h3: "uuid_in ?ev3 ''A'' = Some ''a'' \<and> \<not> fault ?ev3 (queries world_AB)
          \<and> \<not> fault ?ev3 (Suc (queries world_AB)) \<and> fault ?ev3 (Suc (Suc (queries world_AB)))"
    by (simp add: quiet_uuid_in world_AB_simps quiet_env_def read_uuid_def lower_hex_def)
  have 6: "commentModel_delete ?ev3 ''A'' world_AB
       = (Inl connection_error, world_AB\<lparr>queries := 3, Replies := Some []\<rparr>)"
    using t [THEN conjunct2, THEN conjunct2, THEN conjunct2, THEN conjunct2, THEN mp, OF h3]
    by (simp only: f world_AB_simps) (simp add: numeral_3_eq_3)
  from 1 2 3 4 5 6 show ?thesis by blast
qed
section \<open>The aggregation meets its contract\<close>

lemma reply_le_total: "reply_le x y \<or> reply_le y x"
  by (auto simp: reply_le_def split: option.splits)

lemma reply_le_trans: "reply_le x y \<Longrightarrow> reply_le y z \<Longrightarrow> reply_le x z"
  by (auto simp: reply_le_def split: option.splits)

lemma row_le_total: "row_le a b \<or> row_le b a"
  using reply_le_total [of "joined a" "joined b"] by (auto simp: row_le_def)

lemma row_le_trans: "row_le a b \<Longrightarrow> row_le b c \<Longrightarrow> row_le a c"
  using reply_le_trans [of "joined a" "joined b" "joined c"] by (auto simp: row_le_def)

lemma mset_insert_row: "mset (insert_row x xs) = add_mset x (mset xs)"
  by (induction xs) auto

lemma set_insert_row: "set (insert_row x xs) = insert x (set xs)"
  by (induction xs) auto

lemma sorted_insert_row: "sorted_wrt row_le xs \<Longrightarrow> sorted_wrt row_le (insert_row x xs)"
proof (induction xs)
  case Nil
  then show ?case by simp
next
  case (Cons y ys)
  show ?case
  proof (cases "row_le x y")
    case True
    with Cons.prems row_le_trans [of x y] show ?thesis by auto
  next
    case False
    with row_le_total [of x y] have "row_le y x" by blast
    with Cons False show ?thesis by (auto simp: set_insert_row)
  qed
qed

lemma sort_rows_ordered: "sql_ordered xs (sort_rows xs)"
proof -
  have "mset (foldr insert_row xs []) = mset xs \<and> sorted_wrt row_le (foldr insert_row xs [])"
    by (induction xs) (auto simp: mset_insert_row sorted_insert_row)
  then show ?thesis by (simp add: sql_ordered_def sort_rows_def)
qed

lemma sorting_env_simps:
  "fault sorting_env n = False" "result_order sorting_env = sort_rows"
  "um_findById sorting_env u = Inr None"
  "jm_findById sorting_env ''j1'' = Inr (Some job_j1)"
  "pg_text sorting_env v = []"
  "uuid_in sorting_env = uuid_in quiet_env"
  by (simp_all add: sorting_env_def quiet_env_def)

lemma sorting_no_fault: "no_fault sorting_env w n"
  by (simp add: no_fault_def sorting_env_simps)

lemma truncate_with_replies: "comment.truncate (with_replies c rs) = c"
  by (simp add: with_replies_def comment.truncate_def comment.extend_def)

lemma replies_with_replies: "replies (with_replies c rs) = rs"
  by (simp add: with_replies_def comment.extend_def comment_obj.fields_def)

lemma with_replies_eq:
  fixes x :: comment_obj
  shows "comment.truncate x = c \<Longrightarrow> replies x = rs \<Longrightarrow> x = with_replies c rs"
  by (cases x) (auto simp: with_replies_def comment.truncate_def comment.extend_def
      comment_obj.fields_def)

lemma findByJobId_aggregation:
  assumes t: "Comments w = Some cs" "Replies w = Some rs"
      and u: "uuid_in ev jobId = Some J"
      and nf: "no_fault ev w 2"
      and k: "keys_ok cs rs"
      and o: "sql_ordered (join_of J cs rs) (result_order ev (join_of J cs rs))"
  shows "fst (findByJobId ev jobId w) = Inr (group_rows (result_order ev (join_of J cs rs)))
       \<and> is_aggregation J cs rs (group_rows (result_order ev (join_of J cs rs)))"
proof -
  let ?rows = "result_order ev (join_of J cs rs)"
  from no_fault_2' [OF nf] findByJobId_ok [OF t u]
  have r: "fst (findByJobId ev jobId w) = Inr (group_rows ?rows)" by simp
  from o have s: "set ?rows = set (join_of J cs rs)" by (rule sql_ordered_set)
  from o have so: "sorted_wrt row_le ?rows" by (simp add: sql_ordered_def)
  from k have pk: "distinct (map c_id cs)" "distinct (map r_id rs)" "\<forall>r \<in> set rs. r_id r \<noteq> []"
    by (simp_all add: keys_ok_def)
  have "is_aggregation J cs rs (grouped_spec ?rows)"
    unfolding is_aggregation_def
    using grouped_comments_perm [OF s pk(1)] grouped_replies_perm [OF s pk]
      grouped_sorted_comments [OF so] grouped_sorted_replies [OF s so pk(1)]
    by blast
  with r show ?thesis by (simp add: group_rows_refines)
qed

lemma addComment_ok:
  assumes "truthy (obj_get (body req) ''content'')"
      and "jm_findById ev (param req) = Inr (Some j)"
      and "Comments w = Some cs"
      and "comment_row ev (new_comment ev fr req) = Some A" "c_id A \<notin> c_id ` set cs"
      and "\<not> fault ev (queries w)" "\<not> fault ev (Suc (queries w))"
      and "um_findById ev (user_userId req) = Inr user"
  shows "addComment ev fr req w =
           (json 201 True (Some ''Comment added successfully'')
              (CommentRes (comment.extend A
                 (comment_with_user.fields (userName_of user) (userPhoto_of user)))),
            w\<lparr>calls := calls w @ [JobFindById (param req)],
              queries := Suc (Suc (queries w)),
              Comments := Some (cs @ [A])\<rparr>)"
proof -
  let ?w1 = "w\<lparr>calls := calls w @ [JobFindById (param req)]\<rparr>"
  have c: "commentModel_create ev (new_comment ev fr req) ?w1 =
           (Inr A, ?w1\<lparr>queries := Suc (Suc (queries ?w1)), Comments := Some (cs @ [A])\<rparr>)"
    by (rule commentModel_create_ok) (use assms in simp_all)
  have inline: "\<lparr>c_id = new_uuid fr, c_content = to_text ev (obj_get (body req) ''content''),
      c_userId = user_userId req, c_jobId = param req,
      c_createdAt = now fr, c_updatedAt = now fr\<rparr> = new_comment ev fr req"
    by (simp add: new_comment_def)
  show ?thesis
    using assms(1,2,8) c
    by (simp add: addComment_def addComment_try_def respond_def await_def ret_def Let_def
        jobModel_findById_def userModel_findById_def inline)
qed

lemma find_Some_mem: "find P xs = Some x \<Longrightarrow> x \<in> set xs \<and> P x"
  by (induction xs) (auto split: if_splits)

lemma comment_row_Some:
  assumes "comment_row ev c = Some row"
  shows "uuid_in ev (c_id c) = Some (c_id row) \<and> uuid_in ev (c_userId c) = Some (c_userId row)
       \<and> uuid_in ev (c_jobId c) = Some (c_jobId row)
       \<and> c_content row = c_content c \<and> c_createdAt row = c_createdAt c
       \<and> c_updatedAt row = c_updatedAt c"
  using assms by (auto simp: comment_row_def split: option.splits)

lemma reply_row_Some:
  assumes "reply_row ev r = Some row"
  shows "uuid_in ev (r_id r) = Some (r_id row) \<and> uuid_in ev (r_userId r) = Some (r_userId row)
       \<and> uuid_in ev (r_commentId r) = Some (r_commentId row)
       \<and> r_content row = r_content r \<and> r_createdAt row = r_createdAt r
       \<and> r_updatedAt row = r_updatedAt r"
  using assms by (auto simp: reply_row_def split: option.splits)

lemma addReply_ok:
  assumes "truthy (obj_get (body req) ''content'')"
      and "Comments w = Some cs" "Replies w = Some rs"
      and "uuid_in ev (param req) = Some a" "find (\<lambda>c. c_id c = a) cs = Some c"
      and "reply_row ev (new_reply ev fr req) = Some R" "r_id R \<notin> r_id ` set rs"
      and "no_fault ev w 6"
      and "um_findById ev (user_userId req) = Inr user"
  shows "addReply ev fr req w =
           (json 201 True (Some ''Reply added successfully'')
              (ReplyRes (reply.extend R
                 (reply_with_user.fields (userName_of user) (userPhoto_of user)))),
            w\<lparr>queries := queries w + 6, Replies := Some (rs @ [R])\<rparr>)"
proof -
  have nf: "\<not> fault ev (queries w + i)" if "i < 6" for i
    using assms(8) that by (simp add: no_fault_def)
  have f: "\<not> fault ev (queries w)" "\<not> fault ev (Suc (queries w))"
          "\<not> fault ev (Suc (Suc (queries w)))" "\<not> fault ev (Suc (Suc (Suc (queries w))))"
          "\<not> fault ev (Suc (Suc (Suc (Suc (queries w)))))"
          "\<not> fault ev (Suc (Suc (Suc (Suc (Suc (queries w))))))"
    using nf [of 0] nf [of "Suc 0"] nf [of "Suc (Suc 0)"] nf [of "Suc (Suc (Suc 0))"]
      nf [of "Suc (Suc (Suc (Suc 0)))"] nf [of "Suc (Suc (Suc (Suc (Suc 0))))"] by simp_all
  let ?w1 = "w\<lparr>queries := Suc (Suc (Suc (queries w)))\<rparr>"
  from reply_row_Some [OF assms(6)] assms(4) have ra: "r_commentId R = a"
    by (simp add: new_reply_def)
  from find_Some_mem [OF assms(5)] ra have mem: "r_commentId R \<in> c_id ` set cs"
    by force
  have same: "(new_reply ev fr req)\<lparr>r_commentId := param req\<rparr> = new_reply ev fr req"
    by (simp add: new_reply_def)
  have row: "reply_row ev ((new_reply ev fr req)\<lparr>r_commentId := param req\<rparr>) = Some R"
    using assms(6) by (simp only: same)
  have a: "commentModel_addReply ev (param req) (new_reply ev fr req) ?w1 =
           (Inr R, ?w1\<lparr>queries := Suc (Suc (Suc (queries ?w1))), Replies := Some (rs @ [R])\<rparr>)"
    by (rule commentModel_addReply_ok [where cs = cs and rs = rs, OF _ _ row])
       (simp_all add: assms(2,3,7) mem f)
  have inline: "\<lparr>r_id = new_uuid fr, r_content = to_text ev (obj_get (body req) ''content''),
      r_userId = user_userId req, r_commentId = param req,
      r_createdAt = now fr, r_updatedAt = now fr\<rparr> = new_reply ev fr req"
    by (simp add: new_reply_def)
  show ?thesis
    using assms(1,9) a
    by (simp add: addReply_def addReply_try_def respond_def await_def ret_def Let_def
        findById_found [OF assms(2-5) f(1-3)] userModel_findById_def inline)
qed

lemma two_element_perm:
  assumes "mset xs = mset [a, b]"
  shows "xs = [a, b] \<or> xs = [b, a]"
proof -
  from assms have "length xs = 2" using mset_eq_length by fastforce
  then obtain x y where xy: "xs = [x, y]"
    by (metis (no_types, opaque_lifting) One_nat_def Suc_1 length_0_conv length_Suc_conv)
  with assms have "add_mset x {#y#} = add_mset a {#b#}" by simp
  then have "(x = a \<and> y = b) \<or> (x = b \<and> y = a)"
    by (auto simp: add_eq_conv_ex)
  with xy show ?thesis by auto
qed

lemma aggregation_two_comments:
  assumes agg: "is_aggregation J cs rs result"
      and fc: "filter (\<lambda>c. c_jobId c = J) cs = [A, B]"
      and tm: "c_createdAt A < c_createdAt B"
      and rb: "filter (\<lambda>r. r_commentId r = c_id B) rs = []"
      and ra: "filter (\<lambda>r. r_commentId r = c_id A) rs = RA"
      and RA: "RA = [] \<or> (\<exists>R1 R2. RA = [R1, R2] \<and> r_createdAt R1 < r_createdAt R2)"
  shows "result = [with_replies B [], with_replies A RA]"
proof -
  from agg fc have m: "mset (map comment.truncate result) = mset [A, B]"
    by (simp add: is_aggregation_def)
  from agg have so: "sorted_wrt (\<lambda>a b. c_createdAt b \<le> c_createdAt a) result"
    by (simp add: is_aggregation_def)
  then have so': "sorted_wrt (\<lambda>a b. c_createdAt b \<le> c_createdAt a) (map comment.truncate result)"
    by (simp add: sorted_wrt_map c_createdAt_truncate)
  from two_element_perm [OF m] have "map comment.truncate result = [B, A]"
  proof
    assume "map comment.truncate result = [A, B]"
    with so' tm show ?thesis by simp
  qed
  then obtain x y where xy: "result = [x, y]" and tx: "comment.truncate x = B"
    and ty: "comment.truncate y = A" by auto
  have idx: "c_id x = c_id B" "c_id y = c_id A"
    using tx ty by (metis c_id_truncate)+
  from agg xy have rx: "mset (replies x) = mset (filter (\<lambda>r. r_commentId r = c_id x) rs)"
    and ry: "mset (replies y) = mset (filter (\<lambda>r. r_commentId r = c_id y) rs)"
    and sy: "sorted_wrt (\<lambda>a b. r_createdAt a \<le> r_createdAt b) (replies y)"
    by (simp_all add: is_aggregation_def)
  from rx idx rb have x0: "replies x = []" by simp
  from ry idx ra have my: "mset (replies y) = mset RA" by simp
  from RA have y0: "replies y = RA"
  proof
    assume "RA = []"
    with my show ?thesis by simp
  next
    assume "\<exists>R1 R2. RA = [R1, R2] \<and> r_createdAt R1 < r_createdAt R2"
    then obtain R1 R2 where r: "RA = [R1, R2]" "r_createdAt R1 < r_createdAt R2" by blast
    from my r(1) two_element_perm [of "replies y" R1 R2]
    have "replies y = [R1, R2] \<or> replies y = [R2, R1]" by simp
    then show ?thesis
    proof
      assume "replies y = [R1, R2]" with r show ?thesis by simp
    next
      assume "replies y = [R2, R1]"
      with sy r(2) show ?thesis by simp
    qed
  qed
  from with_replies_eq [OF tx x0] with_replies_eq [OF ty y0] xy show ?thesis by simp
qed

lemma refs_no_reply:
  "refs_ok cs rs \<Longrightarrow> k \<notin> c_id ` set cs \<Longrightarrow> filter (\<lambda>r. r_commentId r = k) rs = []"
  by (auto simp: refs_ok_def filter_empty_conv)

lemma no_fault_all: "\<forall>n. \<not> fault ev n \<Longrightarrow> no_fault ev w k"
  by (simp add: no_fault_def)

lemma served_two:
  assumes t: "Comments w = Some cs" "Replies w = Some rs"
      and env: "\<forall>n. \<not> fault ev n" "\<forall>xs. sql_ordered xs (result_order ev xs)"
               "\<forall>u. \<exists>x. um_findById ev u = Inr x" "jm_findById ev (param req) = Inr (Some j)"
      and k: "keys_ok cs rs"
      and fc: "filter (\<lambda>c. c_jobId c = J) cs = [A, B]"
      and tm: "c_createdAt A < c_createdAt B"
      and rb: "filter (\<lambda>r. r_commentId r = c_id B) rs = []"
      and ra: "filter (\<lambda>r. r_commentId r = c_id A) rs = RA"
      and RA: "RA = [] \<or> (\<exists>R1 R2. RA = [R1, R2] \<and> r_createdAt R1 < r_createdAt R2)"
      and p: "uuid_in ev (param req) = Some J"
  shows "fst (findByJobId ev (param req) w) = Inr [with_replies B [], with_replies A RA]
       \<and> (\<exists>served. fst (getComments ev req w) = json 200 True None (CommentsRes served)
             \<and> map comment.truncate served = [B, A]
             \<and> map (\<lambda>e. map reply.truncate (enrichedReplies e)) served = [[], RA])"
proof -
  have res: "fst (findByJobId ev (param req) w') = Inr [with_replies B [], with_replies A RA]"
    if "Comments w' = Some cs" "Replies w' = Some rs" for w'
  proof -
    from env(2) have o: "sql_ordered (join_of J cs rs) (result_order ev (join_of J cs rs))"
      by blast
    from findByJobId_aggregation [OF that p no_fault_all [OF env(1)] k o]
    have r: "fst (findByJobId ev (param req) w')
               = Inr (group_rows (result_order ev (join_of J cs rs)))"
      and a: "is_aggregation J cs rs (group_rows (result_order ev (join_of J cs rs)))"
      by simp_all
    from aggregation_two_comments [OF a fc tm rb ra RA] r show ?thesis by simp
  qed
  let ?w1 = "w\<lparr>calls := calls w @ [JobFindById (param req)]\<rparr>"
  have "fst (findByJobId ev (param req) ?w1) = Inr [with_replies B [], with_replies A RA]"
    using res [of ?w1] t by simp
  from getComments_ok [OF env(4,3) this]
  obtain served where sv: "fst (getComments ev req w) = json 200 True None (CommentsRes served)"
    and en: "map (enrich_comment ev) [with_replies B [], with_replies A RA] = map Inr served"
    by auto
  from enrich_comments_Inr [OF en]
  have tr: "map comment.truncate served = [B, A]
      \<and> map (\<lambda>e. map reply.truncate (enrichedReplies e)) served = [[], RA]"
    by (simp add: truncate_with_replies replies_with_replies)
  show ?thesis
  proof (intro conjI exI [of _ served])
    show "fst (findByJobId ev (param req) w) = Inr [with_replies B [], with_replies A RA]"
      by (rule res [OF t])
    show "fst (getComments ev req w) = json 200 True None (CommentsRes served)" by (rule sv)
    show "map comment.truncate served = [B, A]" using tr by (rule conjunct1)
    show "map (\<lambda>e. map reply.truncate (enrichedReplies e)) served = [[], RA]"
      using tr by (rule conjunct2)
  qed
qed

lemma new_comment_simps:
  "c_id (new_comment ev fr req) = new_uuid fr" "c_jobId (new_comment ev fr req) = param req"
  "c_createdAt (new_comment ev fr req) = now fr"
  by (simp_all add: new_comment_def)

lemma new_reply_simps:
  "r_id (new_reply ev fr req) = new_uuid fr" "r_commentId (new_reply ev fr req) = param req"
  "r_createdAt (new_reply ev fr req) = now fr"
  by (simp_all add: new_reply_def)

lemma after_comments_tables:
  assumes t: "Comments w = Some cs" "Replies w = Some rs"
      and env: "\<forall>n. \<not> fault ev n" "\<forall>u. \<exists>x. um_findById ev u = Inr x"
      and jobs: "jm_findById ev (param reqA) = Inr (Some jA)"
                "jm_findById ev (param reqB) = Inr (Some jB)"
      and reqs: "truthy (obj_get (body reqA) ''content'')" "truthy (obj_get (body reqB) ''content'')"
      and rows: "comment_row ev (new_comment ev frA reqA) = Some A"
                "comment_row ev (new_comment ev frB reqB) = Some B"
      and ids: "c_id A \<notin> c_id ` set cs" "c_id B \<notin> c_id ` set cs" "c_id A \<noteq> c_id B"
  shows "Comments (after_comments ev frA reqA frB reqB w) = Some (cs @ [A, B])
       \<and> Replies (after_comments ev frA reqA frB reqB w) = Some rs
       \<and> status (fst (addComment ev frA reqA w)) = 201
       \<and> status (fst (addComment ev frB reqB (snd (addComment ev frA reqA w)))) = 201"
proof -
  from env(2) obtain uA uB where u: "um_findById ev (user_userId reqA) = Inr uA"
    "um_findById ev (user_userId reqB) = Inr uB" by blast
  let ?w1 = "w\<lparr>calls := calls w @ [JobFindById (param reqA)],
              queries := Suc (Suc (queries w)), Comments := Some (cs @ [A])\<rparr>"
  have 1: "addComment ev frA reqA w =
           (json 201 True (Some ''Comment added successfully'')
              (CommentRes (comment.extend A
                 (comment_with_user.fields (userName_of uA) (userPhoto_of uA)))), ?w1)"
    by (rule addComment_ok [OF reqs(1) jobs(1) t(1) rows(1) ids(1) _ _ u(1)])
       (simp_all add: env(1))
  have c1: "Comments ?w1 = Some (cs @ [A])" by simp
  have n1: "c_id B \<notin> c_id ` set (cs @ [A])"
    using ids(2,3) by auto
  have 2: "addComment ev frB reqB ?w1 =
           (json 201 True (Some ''Comment added successfully'')
              (CommentRes (comment.extend B
                 (comment_with_user.fields (userName_of uB) (userPhoto_of uB)))),
            ?w1\<lparr>calls := calls ?w1 @ [JobFindById (param reqB)],
              queries := Suc (Suc (queries ?w1)), Comments := Some ((cs @ [A]) @ [B])\<rparr>)"
    by (rule addComment_ok [OF reqs(2) jobs(2) c1 rows(2) n1 _ _ u(2)]) (simp_all add: env(1))
  show ?thesis
    by (simp add: after_comments_def 1 2 status_json t(2))
qed

lemma find_append_new:
  "k \<notin> c_id ` set cs \<Longrightarrow> c_id a = k \<Longrightarrow> find (\<lambda>c. c_id c = k) (cs @ a # rest) = Some a"
  by (induction cs) auto

lemma after_replies_tables:
  assumes t: "Comments w = Some (cs @ [A, B])" "Replies w = Some rs"
      and env: "\<forall>n. \<not> fault ev n" "\<forall>u. \<exists>x. um_findById ev u = Inr x"
      and a: "c_id A \<notin> c_id ` set cs"
      and reqs: "uuid_in ev (param req1) = Some (c_id A)" "uuid_in ev (param req2) = Some (c_id A)"
                "truthy (obj_get (body req1) ''content'')" "truthy (obj_get (body req2) ''content'')"
      and rows: "reply_row ev (new_reply ev fr1 req1) = Some R1"
                "reply_row ev (new_reply ev fr2 req2) = Some R2"
      and ids: "r_id R1 \<notin> r_id ` set rs" "r_id R2 \<notin> r_id ` set rs" "r_id R1 \<noteq> r_id R2"
  shows "Comments (after_replies ev fr1 req1 fr2 req2 w) = Some (cs @ [A, B])
       \<and> Replies (after_replies ev fr1 req1 fr2 req2 w) = Some (rs @ [R1, R2])
       \<and> status (fst (addReply ev fr1 req1 w)) = 201
       \<and> status (fst (addReply ev fr2 req2 (snd (addReply ev fr1 req1 w)))) = 201"
proof -
  from env(2) obtain u1 u2 where u: "um_findById ev (user_userId req1) = Inr u1"
    "um_findById ev (user_userId req2) = Inr u2" by blast
  have f: "find (\<lambda>c. c_id c = c_id A) (cs @ [A, B]) = Some A"
    using find_append_new [OF a, of A "[B]"] by simp
  let ?w1 = "w\<lparr>queries := queries w + 6, Replies := Some (rs @ [R1])\<rparr>"
  have 1: "addReply ev fr1 req1 w =
           (json 201 True (Some ''Reply added successfully'')
              (ReplyRes (reply.extend R1
                 (reply_with_user.fields (userName_of u1) (userPhoto_of u1)))), ?w1)"
    by (rule addReply_ok [OF reqs(3) t reqs(1) f rows(1) ids(1) no_fault_all [OF env(1)] u(1)])
  have c1: "Comments ?w1 = Some (cs @ [A, B])" "Replies ?w1 = Some (rs @ [R1])"
    using t by simp_all
  have n1: "r_id R2 \<notin> r_id ` set (rs @ [R1])"
    using ids(2,3) by auto
  have 2: "addReply ev fr2 req2 ?w1 =
           (json 201 True (Some ''Reply added successfully'')
              (ReplyRes (reply.extend R2
                 (reply_with_user.fields (userName_of u2) (userPhoto_of u2)))),
            ?w1\<lparr>queries := queries ?w1 + 6, Replies := Some ((rs @ [R1]) @ [R2])\<rparr>)"
    by (rule addReply_ok [OF reqs(4) c1 reqs(2) f rows(2) n1 no_fault_all [OF env(1)] u(2)])
  show ?thesis
    by (simp add: after_replies_def 1 2 status_json t(1))
qed

lemma keys_ok_append_comments:
  assumes "keys_ok cs rs" "c_id A \<notin> c_id ` set cs" "c_id B \<notin> c_id ` set cs" "c_id A \<noteq> c_id B"
  shows "keys_ok (cs @ [A, B]) rs"
  using assms by (auto simp: keys_ok_def)

lemma keys_ok_append_replies:
  assumes "keys_ok cs rs" "r_id R1 \<notin> r_id ` set rs" "r_id R2 \<notin> r_id ` set rs" "r_id R1 \<noteq> r_id R2"
      and "r_id R1 \<noteq> []" "r_id R2 \<noteq> []"
  shows "keys_ok cs (rs @ [R1, R2])"
  using assms by (auto simp: keys_ok_def)

lemma filter_new_job:
  assumes "\<forall>c \<in> set cs. c_jobId c \<noteq> J" "c_jobId A = J" "c_jobId B = J"
  shows "filter (\<lambda>c. c_jobId c = J) (cs @ [A, B]) = [A, B]"
  using assms by (simp add: filter_empty_conv)

lemma scenario:
  assumes t0: "Comments w0 = Some cs0" "Replies w0 = Some rs0"
      and k0: "keys_ok cs0 rs0" "refs_ok cs0 rs0"
      and nj: "\<forall>c \<in> set cs0. c_jobId c \<noteq> J"
      and env: "\<forall>n. \<not> fault ev n" "\<forall>xs. sql_ordered xs (result_order ev xs)"
               "\<forall>u. \<exists>x. um_findById ev u = Inr x"
      and jobs: "jm_findById ev (param reqA) = Inr (Some jA)"
                "jm_findById ev (param reqB) = Inr (Some jB)"
                "jm_findById ev (param reqG) = Inr (Some jG)"
      and rq: "uuid_in ev (param reqA) = Some J" "uuid_in ev (param reqB) = Some J"
              "uuid_in ev (param reqG) = Some J"
              "truthy (obj_get (body reqA) ''content'')" "truthy (obj_get (body reqB) ''content'')"
      and rows: "comment_row ev (new_comment ev frA reqA) = Some A"
                "comment_row ev (new_comment ev frB reqB) = Some B"
      and ids: "c_id A \<notin> c_id ` set cs0" "c_id B \<notin> c_id ` set cs0" "c_id A \<noteq> c_id B"
      and tm: "now frA < now frB"
      and rr: "uuid_in ev (param req1) = Some (c_id A)" "uuid_in ev (param req2) = Some (c_id A)"
              "truthy (obj_get (body req1) ''content'')" "truthy (obj_get (body req2) ''content'')"
      and rrows: "reply_row ev (new_reply ev fr1 req1) = Some R1"
                 "reply_row ev (new_reply ev fr2 req2) = Some R2"
      and rids: "r_id R1 \<notin> r_id ` set rs0" "r_id R2 \<notin> r_id ` set rs0"
                "r_id R1 \<noteq> r_id R2" "r_id R1 \<noteq> []" "r_id R2 \<noteq> []"
      and rtm: "now fr1 < now fr2"
  shows "status (fst (addComment ev frA reqA w0)) = 201
       \<and> status (fst (addComment ev frB reqB (snd (addComment ev frA reqA w0)))) = 201
       \<and> fst (findByJobId ev (param reqG) (after_comments ev frA reqA frB reqB w0))
           = Inr [with_replies B [], with_replies A []]
       \<and> (\<exists>served. fst (getComments ev reqG (after_comments ev frA reqA frB reqB w0))
                      = json 200 True None (CommentsRes served)
             \<and> map comment.truncate served = [B, A]
             \<and> map (\<lambda>e. map reply.truncate (enrichedReplies e)) served = [[], []])
       \<and> status (fst (addReply ev fr1 req1 (after_comments ev frA reqA frB reqB w0))) = 201
       \<and> status (fst (addReply ev fr2 req2
                  (snd (addReply ev fr1 req1 (after_comments ev frA reqA frB reqB w0))))) = 201
       \<and> fst (findByJobId ev (param reqG)
                (after_replies ev fr1 req1 fr2 req2 (after_comments ev frA reqA frB reqB w0)))
           = Inr [with_replies B [], with_replies A [R1, R2]]
       \<and> (\<exists>served. fst (getComments ev reqG
                (after_replies ev fr1 req1 fr2 req2 (after_comments ev frA reqA frB reqB w0)))
                      = json 200 True None (CommentsRes served)
             \<and> map comment.truncate served = [B, A]
             \<and> map (\<lambda>e. map reply.truncate (enrichedReplies e)) served = [[], [R1, R2]])"
proof -
  let ?w2 = "after_comments ev frA reqA frB reqB w0"
  let ?w4 = "after_replies ev fr1 req1 fr2 req2 ?w2"
  note ac = after_comments_tables [OF t0 env(1,3) jobs(1,2) rq(4,5) rows ids]
  from ac have c2: "Comments ?w2 = Some (cs0 @ [A, B])" and r2: "Replies ?w2 = Some rs0"
    and st: "status (fst (addComment ev frA reqA w0)) = 201"
            "status (fst (addComment ev frB reqB (snd (addComment ev frA reqA w0)))) = 201"
    by simp_all
  note rA = comment_row_Some [OF rows(1)] and rB = comment_row_Some [OF rows(2)]
  have jA: "c_jobId A = J" and jB: "c_jobId B = J"
    using rA rB rq(1,2) by (simp_all add: new_comment_simps)
  have tAB: "c_createdAt A < c_createdAt B"
    using rA rB tm by (simp add: new_comment_simps)
  have k2: "keys_ok (cs0 @ [A, B]) rs0"
    by (rule keys_ok_append_comments [OF k0(1) ids])
  have fc: "filter (\<lambda>c. c_jobId c = J) (cs0 @ [A, B]) = [A, B]"
    by (rule filter_new_job [OF nj jA jB])
  have rb0: "filter (\<lambda>r. r_commentId r = c_id B) rs0 = []"
    by (rule refs_no_reply [OF k0(2) ids(2)])
  have ra0: "filter (\<lambda>r. r_commentId r = c_id A) rs0 = []"
    by (rule refs_no_reply [OF k0(2) ids(1)])
  have e0: "[] = [] \<or> (\<exists>R1 R2. ([]::reply list) = [R1, R2] \<and> r_createdAt R1 < r_createdAt R2)"
    by simp
  note s2 = served_two [OF c2 r2 env jobs(3) k2 fc tAB rb0 ra0 e0 rq(3)]
  note ar = after_replies_tables [OF c2 r2 env(1,3) ids(1) rr rrows rids(1-3)]
  from ar have c4: "Comments ?w4 = Some (cs0 @ [A, B])"
    and r4: "Replies ?w4 = Some (rs0 @ [R1, R2])"
    and st4: "status (fst (addReply ev fr1 req1 ?w2)) = 201"
             "status (fst (addReply ev fr2 req2 (snd (addReply ev fr1 req1 ?w2)))) = 201"
    by simp_all
  note q1 = reply_row_Some [OF rrows(1)] and q2 = reply_row_Some [OF rrows(2)]
  have ca: "r_commentId R1 = c_id A" "r_commentId R2 = c_id A"
    using q1 q2 rr(1,2) by (simp_all add: new_reply_simps)
  have k4: "keys_ok (cs0 @ [A, B]) (rs0 @ [R1, R2])"
    by (rule keys_ok_append_replies [OF k2 rids])
  have rb4: "filter (\<lambda>r. r_commentId r = c_id B) (rs0 @ [R1, R2]) = []"
    using rb0 ids(3) ca by simp
  have ra4: "filter (\<lambda>r. r_commentId r = c_id A) (rs0 @ [R1, R2]) = [R1, R2]"
    using ra0 ca by simp
  have e4: "[R1, R2] = [] \<or> (\<exists>R1' R2'. [R1, R2] = [R1', R2'] \<and> r_createdAt R1' < r_createdAt R2')"
    using q1 q2 rtm by (simp add: new_reply_simps)
  note s4 = served_two [OF c4 r4 env jobs(3) k4 fc tAB rb4 ra4 e4 rq(3)]
  show ?thesis
    by (intro conjI) (rule st st4 s2 [THEN conjunct1] s2 [THEN conjunct2]
        s4 [THEN conjunct1] s4 [THEN conjunct2])+
qed

lemma contract_general:
  assumes t: "Comments w = Some cs" "Replies w = Some rs"
      and k: "keys_ok cs rs"
      and u: "uuid_in ev jobId = Some J"
      and nf: "no_fault ev w 2"
      and o: "sql_ordered (join_of J cs rs) (result_order ev (join_of J cs rs))"
  shows "\<exists>result. fst (findByJobId ev jobId w) = Inr result
           \<and> is_aggregation J cs rs result
           \<and> (param req = jobId \<and> jm_findById ev jobId = Inr (Some j)
                \<and> (\<forall>u. \<exists>x. um_findById ev u = Inr x)
              \<longrightarrow> (\<exists>served. fst (getComments ev req w) = json 200 True None (CommentsRes served)
                     \<and> map comment.truncate served = map comment.truncate result
                     \<and> map (\<lambda>e. map reply.truncate (enrichedReplies e)) served
                         = map replies result))"
proof -
  let ?result = "group_rows (result_order ev (join_of J cs rs))"
  from findByJobId_aggregation [OF t u nf k o]
  have r: "fst (findByJobId ev jobId w) = Inr ?result" and a: "is_aggregation J cs rs ?result"
    by simp_all
  have s: "\<exists>served. fst (getComments ev req w) = json 200 True None (CommentsRes served)
                     \<and> map comment.truncate served = map comment.truncate ?result
                     \<and> map (\<lambda>e. map reply.truncate (enrichedReplies e)) served
                         = map replies ?result"
    if p: "param req = jobId" and jf: "jm_findById ev jobId = Inr (Some j)"
      and um: "\<forall>u. \<exists>x. um_findById ev u = Inr x"
  proof -
    let ?w1 = "w\<lparr>calls := calls w @ [JobFindById (param req)]\<rparr>"
    have nf1: "no_fault ev ?w1 2" using nf by (simp add: no_fault_def)
    have t1: "Comments ?w1 = Some cs" "Replies ?w1 = Some rs" using t by simp_all
    from findByJobId_aggregation [OF t1 u nf1 k o] p
    have r1: "fst (findByJobId ev (param req) ?w1) = Inr ?result" by simp
    from jf p have jf': "jm_findById ev (param req) = Inr (Some j)" by simp
    from getComments_ok [OF jf' um r1]
    obtain served where sv: "fst (getComments ev req w) = json 200 True None (CommentsRes served)"
      and en: "map (enrich_comment ev) ?result = map Inr served" by blast
    from enrich_comments_Inr [OF en] sv show ?thesis by blast
  qed
  show ?thesis
  proof (intro exI [of _ ?result] conjI impI)
    show "fst (findByJobId ev jobId w) = Inr ?result" by (rule r)
    show "is_aggregation J cs rs ?result" by (rule a)
    assume h: "param req = jobId \<and> jm_findById ev jobId = Inr (Some j)
                \<and> (\<forall>u. \<exists>x. um_findById ev u = Inr x)"
    then have "param req = jobId" "jm_findById ev jobId = Inr (Some j)"
      "\<forall>u. \<exists>x. um_findById ev u = Inr x" by blast+
    then show "\<exists>served. fst (getComments ev req w) = json 200 True None (CommentsRes served)
                     \<and> map comment.truncate served = map comment.truncate ?result
                     \<and> map (\<lambda>e. map reply.truncate (enrichedReplies e)) served
                         = map replies ?result"
      by (rule s)
  qed
qed

text \<open>
  C1, with the clock condition that its scenario needs. On tables that respect their keys, when the job identifier spells a
  \<open>UUID\<close>, neither query of \<open>findByJobId\<close> is rejected and the database answers the
  join in an order that respects \<open>ORDER BY\<close>, the list returned holds exactly the
  comments of that job, each with exactly the replies to it, the comments by descending
  and the replies of each comment by ascending creation time; \<open>getComments\<close> answers
  200 and serves the same comments with the same replies in the same order. In
  particular: on a job without comments, after \<open>addComment\<close> for A and then, at a
  strictly later clock reading, for B, the list is B, A; and after \<open>addReply\<close> to A
  for R1 and then, at a strictly later clock reading, for R2, the list is B without
  replies, then A with the replies R1, R2. The order of two comments, or of two replies
  to one comment, that were written at the same clock reading is the database's choice.
\<close>

theorem getComments_contract:
  "(Comments w = Some cs \<and> Replies w = Some rs \<and> keys_ok cs rs
      \<and> uuid_in ev jobId = Some J \<and> no_fault ev w 2
      \<and> sql_ordered (join_of J cs rs) (result_order ev (join_of J cs rs))
    \<longrightarrow> (\<exists>result. fst (findByJobId ev jobId w) = Inr result
           \<and> is_aggregation J cs rs result
           \<and> (param req = jobId \<and> jm_findById ev jobId = Inr (Some j)
                \<and> (\<forall>u. \<exists>x. um_findById ev u = Inr x)
              \<longrightarrow> (\<exists>served. fst (getComments ev req w) = json 200 True None (CommentsRes served)
                     \<and> map comment.truncate served = map comment.truncate result
                     \<and> map (\<lambda>e. map reply.truncate (enrichedReplies e)) served
                         = map replies result))))
   \<and> (Comments w0 = Some cs0 \<and> Replies w0 = Some rs0
       \<and> keys_ok cs0 rs0 \<and> refs_ok cs0 rs0
       \<and> (\<forall>c \<in> set cs0. c_jobId c \<noteq> J')
       \<and> (\<forall>n. \<not> fault ev' n) \<and> (\<forall>xs. sql_ordered xs (result_order ev' xs))
       \<and> (\<forall>u. \<exists>x. um_findById ev' u = Inr x)
       \<and> jm_findById ev' (param reqA) = Inr (Some jA)
       \<and> jm_findById ev' (param reqB) = Inr (Some jB)
       \<and> jm_findById ev' (param reqG) = Inr (Some jG)
       \<and> uuid_in ev' (param reqA) = Some J' \<and> uuid_in ev' (param reqB) = Some J'
       \<and> uuid_in ev' (param reqG) = Some J'
       \<and> truthy (obj_get (body reqA) ''content'') \<and> truthy (obj_get (body reqB) ''content'')
       \<and> comment_row ev' (new_comment ev' frA reqA) = Some A
       \<and> comment_row ev' (new_comment ev' frB reqB) = Some B
       \<and> c_id A \<notin> c_id ` set cs0 \<and> c_id B \<notin> c_id ` set cs0 \<and> c_id A \<noteq> c_id B
       \<and> now frA < now frB
       \<and> uuid_in ev' (param req1) = Some (c_id A) \<and> uuid_in ev' (param req2) = Some (c_id A)
       \<and> truthy (obj_get (body req1) ''content'') \<and> truthy (obj_get (body req2) ''content'')
       \<and> reply_row ev' (new_reply ev' fr1 req1) = Some R1
       \<and> reply_row ev' (new_reply ev' fr2 req2) = Some R2
       \<and> r_id R1 \<notin> r_id ` set rs0 \<and> r_id R2 \<notin> r_id ` set rs0
       \<and> r_id R1 \<noteq> r_id R2 \<and> r_id R1 \<noteq> [] \<and> r_id R2 \<noteq> []
       \<and> now fr1 < now fr2
    \<longrightarrow> status (fst (addComment ev' frA reqA w0)) = 201
       \<and> status (fst (addComment ev' frB reqB (snd (addComment ev' frA reqA w0)))) = 201
       \<and> fst (findByJobId ev' (param reqG) (after_comments ev' frA reqA frB reqB w0))
           = Inr [with_replies B [], with_replies A []]
       \<and> (\<exists>served. fst (getComments ev' reqG (after_comments ev' frA reqA frB reqB w0))
                      = json 200 True None (CommentsRes served)
             \<and> map comment.truncate served = [B, A]
             \<and> map (\<lambda>e. map reply.truncate (enrichedReplies e)) served = [[], []])
       \<and> status (fst (addReply ev' fr1 req1 (after_comments ev' frA reqA frB reqB w0))) = 201
       \<and> status (fst (addReply ev' fr2 req2
                  (snd (addReply ev' fr1 req1 (after_comments ev' frA reqA frB reqB w0))))) = 201
       \<and> fst (findByJobId ev' (param reqG)
                (after_replies ev' fr1 req1 fr2 req2 (after_comments ev' frA reqA frB reqB w0)))
           = Inr [with_replies B [], with_replies A [R1, R2]]
       \<and> (\<exists>served. fst (getComments ev' reqG
                (after_replies ev' fr1 req1 fr2 req2 (after_comments ev' frA reqA frB reqB w0)))
                      = json 200 True None (CommentsRes served)
             \<and> map comment.truncate served = [B, A]
             \<and> map (\<lambda>e. map reply.truncate (enrichedReplies e)) served = [[], [R1, R2]]))"
  apply (rule conjI)
  subgoal
    apply (rule impI)
    apply (elim conjE)
    apply (rule contract_general; assumption)
    done
  subgoal
    apply (rule impI)
    apply (elim conjE)
    apply (rule scenario; assumption)
    done
  done

lemma sample_rows_made:
  "comment_row sorting_env (new_comment sorting_env fresh_A req_A) = Some comment_A"
  "comment_row sorting_env (new_comment sorting_env fresh_B req_B) = Some comment_B"
  "reply_row sorting_env (new_reply sorting_env fresh_R1 req_R1) = Some reply_R1"
  "reply_row sorting_env (new_reply sorting_env fresh_R2 req_R2) = Some reply_R2"
  "comment_row sorting_env (new_comment sorting_env fresh_B_tie req_B) = Some comment_B_tie"
  by (simp_all add: comment_row_def reply_row_def new_comment_def new_reply_def fresh_A_def
      fresh_B_def fresh_R1_def fresh_R2_def fresh_B_tie_def req_A_def req_B_def req_R1_def
      req_R2_def comment_A_def comment_B_def comment_B_tie_def reply_R1_def reply_R2_def
      to_text_def obj_get_def sorting_env_simps quiet_uuid_in)

lemma sample_keys_ok: "keys_ok [comment_A, comment_B] [reply_R1, reply_R2]"
  by (simp add: keys_ok_def comment_A_def comment_B_def reply_R1_def reply_R2_def)

lemma sample_filters:
  "filter (\<lambda>c. c_jobId c = ''j1'') [comment_A, comment_B] = [comment_A, comment_B]"
  "c_createdAt comment_A < c_createdAt comment_B"
  "filter (\<lambda>r. r_commentId r = c_id comment_B) [reply_R1, reply_R2] = []"
  "filter (\<lambda>r. r_commentId r = c_id comment_A) [reply_R1, reply_R2] = [reply_R1, reply_R2]"
  "r_createdAt reply_R1 < r_createdAt reply_R2"
  by (simp_all add: comment_A_def comment_B_def reply_R1_def reply_R2_def)

lemma sample_requests:
  "param req_A = ''j1''" "param req_B = ''j1''" "param req_get = ''j1''"
  "param req_R1 = ''a''" "param req_R2 = ''a''"
  "truthy (obj_get (body req_A) ''content'')" "truthy (obj_get (body req_B) ''content'')"
  "truthy (obj_get (body req_R1) ''content'')" "truthy (obj_get (body req_R2) ''content'')"
  by (simp_all add: req_A_def req_B_def req_get_def req_R1_def req_R2_def obj_get_def)

lemma sample_ids:
  "c_id comment_A = ''a''" "c_id comment_B = ''b''" "c_id comment_B_tie = ''b''"
  "r_id reply_R1 = ''r1''" "r_id reply_R2 = ''r2''"
  by (simp_all add: comment_A_def comment_B_def comment_B_tie_def reply_R1_def reply_R2_def)

lemma sample_clock:
  "now fresh_A < now fresh_B" "now fresh_R1 < now fresh_R2"
  by (simp_all add: fresh_A_def fresh_B_def fresh_R1_def fresh_R2_def)

theorem getComments_contract_witness:
  "fst (findByJobId sorting_env ''j1'' world_AB)
     = Inr [with_replies comment_B [], with_replies comment_A [reply_R1, reply_R2]]
   \<and> fst (findByJobId sorting_env ''j1''
            (after_comments sorting_env fresh_A req_A fresh_B req_B empty_world))
     = Inr [with_replies comment_B [], with_replies comment_A []]
   \<and> fst (findByJobId sorting_env ''j1''
            (after_replies sorting_env fresh_R1 req_R1 fresh_R2 req_R2
               (after_comments sorting_env fresh_A req_A fresh_B req_B empty_world)))
     = Inr [with_replies comment_B [], with_replies comment_A [reply_R1, reply_R2]]"
proof -
  note t = getComments_contract [where w = world_AB and cs = "[comment_A, comment_B]"
      and rs = "[reply_R1, reply_R2]" and ev = sorting_env and jobId = "''j1''" and J = "''j1''"
      and req = req_get and j = job_j1
      and ?w0.0 = empty_world and ?cs0.0 = "[]" and ?rs0.0 = "[]" and J' = "''j1''"
      and ev' = sorting_env and jA = job_j1 and jB = job_j1 and jG = job_j1
      and reqA = req_A and reqB = req_B and reqG = req_get
      and frA = fresh_A and frB = fresh_B and A = comment_A and B = comment_B
      and ?req1.0 = req_R1 and ?req2.0 = req_R2 and ?fr1.0 = fresh_R1 and ?fr2.0 = fresh_R2
      and ?R1.0 = reply_R1 and ?R2.0 = reply_R2]
  have o: "sql_ordered xs (result_order sorting_env xs)" for xs
    by (simp add: sorting_env_simps sort_rows_ordered)
  have uj: "uuid_in sorting_env ''j1'' = Some ''j1''" "uuid_in sorting_env ''a'' = Some ''a''"
    by (simp_all add: sorting_env_simps quiet_uuid_in)
  have g: "Comments world_AB = Some [comment_A, comment_B] \<and> Replies world_AB = Some [reply_R1, reply_R2]
      \<and> keys_ok [comment_A, comment_B] [reply_R1, reply_R2]
      \<and> uuid_in sorting_env ''j1'' = Some ''j1'' \<and> no_fault sorting_env world_AB 2
      \<and> sql_ordered (join_of ''j1'' [comment_A, comment_B] [reply_R1, reply_R2])
           (result_order sorting_env (join_of ''j1'' [comment_A, comment_B] [reply_R1, reply_R2]))"
    by (intro conjI) (simp_all add: world_AB_simps sample_keys_ok sorting_no_fault o uj)
  from t [THEN conjunct1, THEN mp, OF g]
  obtain result where r: "fst (findByJobId sorting_env ''j1'' world_AB) = Inr result"
    and a: "is_aggregation ''j1'' [comment_A, comment_B] [reply_R1, reply_R2] result"
    by blast
  have e: "[reply_R1, reply_R2] = []
        \<or> (\<exists>R1 R2. [reply_R1, reply_R2] = [R1, R2] \<and> r_createdAt R1 < r_createdAt R2)"
    using sample_filters(5) by simp
  from aggregation_two_comments [OF a sample_filters(1-4) e] r
  have 1: "fst (findByJobId sorting_env ''j1'' world_AB)
     = Inr [with_replies comment_B [], with_replies comment_A [reply_R1, reply_R2]]" by simp
  have s: "Comments empty_world = Some [] \<and> Replies empty_world = Some []
       \<and> keys_ok [] [] \<and> refs_ok [] []
       \<and> (\<forall>c \<in> set []. c_jobId c \<noteq> ''j1'')
       \<and> (\<forall>n. \<not> fault sorting_env n) \<and> (\<forall>xs. sql_ordered xs (result_order sorting_env xs))
       \<and> (\<forall>u. \<exists>x. um_findById sorting_env u = Inr x)
       \<and> jm_findById sorting_env (param req_A) = Inr (Some job_j1)
       \<and> jm_findById sorting_env (param req_B) = Inr (Some job_j1)
       \<and> jm_findById sorting_env (param req_get) = Inr (Some job_j1)
       \<and> uuid_in sorting_env (param req_A) = Some ''j1''
       \<and> uuid_in sorting_env (param req_B) = Some ''j1''
       \<and> uuid_in sorting_env (param req_get) = Some ''j1''
       \<and> truthy (obj_get (body req_A) ''content'') \<and> truthy (obj_get (body req_B) ''content'')
       \<and> comment_row sorting_env (new_comment sorting_env fresh_A req_A) = Some comment_A
       \<and> comment_row sorting_env (new_comment sorting_env fresh_B req_B) = Some comment_B
       \<and> c_id comment_A \<notin> c_id ` set [] \<and> c_id comment_B \<notin> c_id ` set []
       \<and> c_id comment_A \<noteq> c_id comment_B
       \<and> now fresh_A < now fresh_B
       \<and> uuid_in sorting_env (param req_R1) = Some (c_id comment_A)
       \<and> uuid_in sorting_env (param req_R2) = Some (c_id comment_A)
       \<and> truthy (obj_get (body req_R1) ''content'') \<and> truthy (obj_get (body req_R2) ''content'')
       \<and> reply_row sorting_env (new_reply sorting_env fresh_R1 req_R1) = Some reply_R1
       \<and> reply_row sorting_env (new_reply sorting_env fresh_R2 req_R2) = Some reply_R2
       \<and> r_id reply_R1 \<notin> r_id ` set [] \<and> r_id reply_R2 \<notin> r_id ` set []
       \<and> r_id reply_R1 \<noteq> r_id reply_R2 \<and> r_id reply_R1 \<noteq> [] \<and> r_id reply_R2 \<noteq> []
       \<and> now fresh_R1 < now fresh_R2"
    by (intro conjI)
       (simp_all add: empty_world_def keys_ok_def refs_ok_def sorting_env_simps
          sort_rows_ordered sample_requests sample_rows_made sample_ids sample_clock
          quiet_uuid_in)
  note sc = t [THEN conjunct2, THEN mp, OF s]
  have 2: "fst (findByJobId sorting_env ''j1''
            (after_comments sorting_env fresh_A req_A fresh_B req_B empty_world))
     = Inr [with_replies comment_B [], with_replies comment_A []]"
    using sc [THEN conjunct2, THEN conjunct2, THEN conjunct1]
    by (simp only: sample_requests)
  have 3: "fst (findByJobId sorting_env ''j1''
            (after_replies sorting_env fresh_R1 req_R1 fresh_R2 req_R2
               (after_comments sorting_env fresh_A req_A fresh_B req_B empty_world)))
     = Inr [with_replies comment_B [], with_replies comment_A [reply_R1, reply_R2]]"
    using sc [THEN conjunct2, THEN conjunct2, THEN conjunct2, THEN conjunct2, THEN conjunct2,
        THEN conjunct2, THEN conjunct1]
    by (simp only: sample_requests)
  from 1 2 3 show ?thesis by (intro conjI)
qed

subsection \<open>Two comments written at one clock reading\<close>

lemma entry_without_replies: "comment_entry (row_of c None) [] = with_replies c []"
  by (cases c)
     (simp add: comment_entry_def row_of_def with_replies_def comment.extend_def
        joined_row.fields_def comment_obj.fields_def)

lemma tie_tables:
  "Comments (after_comments sorting_env fresh_A req_A fresh_B_tie req_B empty_world)
     = Some [comment_A, comment_B_tie]
   \<and> Replies (after_comments sorting_env fresh_A req_A fresh_B_tie req_B empty_world) = Some []
   \<and> status (fst (addComment sorting_env fresh_A req_A empty_world)) = 201
   \<and> status (fst (addComment sorting_env fresh_B_tie req_B
                (snd (addComment sorting_env fresh_A req_A empty_world)))) = 201"
  using after_comments_tables [where w = empty_world and cs = "[]" and rs = "[]"
      and ev = sorting_env and reqA = req_A and reqB = req_B and frA = fresh_A
      and frB = fresh_B_tie and A = comment_A and B = comment_B_tie
      and jA = job_j1 and jB = job_j1]
  by (simp add: empty_world_def sorting_env_simps sample_requests sample_rows_made sample_ids)

lemma tie_rows:
  "join_of ''j1'' [comment_A, comment_B_tie] []
     = [row_of comment_A None, row_of comment_B_tie None]"
  "sort_rows [row_of comment_A None, row_of comment_B_tie None]
     = [row_of comment_A None, row_of comment_B_tie None]"
  by (simp_all add: join_of_def left_join_rows row_of_simps sort_rows_def row_le_def
      reply_le_def comment_A_def comment_B_tie_def)

lemma tie_group:
  "group_rows [row_of comment_A None, row_of comment_B_tie None]
     = [with_replies comment_A [], with_replies comment_B_tie []]"
  by (simp add: group_rows_refines grouped_spec_def replies_for_def attach_reply_def
      row_of_simps sample_ids entry_without_replies)

text \<open>
  C1 without that condition fails when B is written at the clock reading of A: the
  database may answer the join with the row of A first, as the sorting database does,
  and then the list served after adding A and then B is A, B.
\<close>

theorem getComments_contract_counterexample:
  "status (fst (addComment sorting_env fresh_A req_A empty_world)) = 201
   \<and> status (fst (addComment sorting_env fresh_B_tie req_B
                (snd (addComment sorting_env fresh_A req_A empty_world)))) = 201
   \<and> sql_ordered (join_of ''j1'' [comment_A, comment_B_tie] [])
        (result_order sorting_env (join_of ''j1'' [comment_A, comment_B_tie] []))
   \<and> fst (findByJobId sorting_env ''j1''
            (after_comments sorting_env fresh_A req_A fresh_B_tie req_B empty_world))
       = Inr [with_replies comment_A [], with_replies comment_B_tie []]
   \<and> map c_id (served_comments (fst (getComments sorting_env req_get
            (after_comments sorting_env fresh_A req_A fresh_B_tie req_B empty_world))))
       = [''a'', ''b'']
   \<and> map c_id (served_comments (fst (getComments sorting_env req_get
            (after_comments sorting_env fresh_A req_A fresh_B_tie req_B empty_world))))
       \<noteq> [''b'', ''a'']"
proof -
  let ?w = "after_comments sorting_env fresh_A req_A fresh_B_tie req_B empty_world"
  from tie_tables have c: "Comments ?w = Some [comment_A, comment_B_tie]"
    and r: "Replies ?w = Some []"
    and st: "status (fst (addComment sorting_env fresh_A req_A empty_world)) = 201"
            "status (fst (addComment sorting_env fresh_B_tie req_B
                (snd (addComment sorting_env fresh_A req_A empty_world)))) = 201"
    by simp_all
  have o: "sql_ordered (join_of ''j1'' [comment_A, comment_B_tie] [])
        (result_order sorting_env (join_of ''j1'' [comment_A, comment_B_tie] []))"
    by (simp add: sorting_env_simps sort_rows_ordered)
  have uj: "uuid_in sorting_env ''j1'' = Some ''j1''"
    by (simp add: sorting_env_simps quiet_uuid_in)
  have f: "fst (findByJobId sorting_env ''j1'' w')
             = Inr [with_replies comment_A [], with_replies comment_B_tie []]"
    if "Comments w' = Some [comment_A, comment_B_tie]" "Replies w' = Some []" for w'
    using findByJobId_ok [OF that uj]
    by (simp add: sorting_env_simps tie_rows tie_group)
  let ?w1 = "?w\<lparr>calls := calls ?w @ [JobFindById (param req_get)]\<rparr>"
  have "fst (findByJobId sorting_env (param req_get) ?w1)
          = Inr [with_replies comment_A [], with_replies comment_B_tie []]"
    using f [of ?w1] c r by (simp add: sample_requests)
  from getComments_ok [OF _ _ this]
  obtain served where
    sv: "fst (getComments sorting_env req_get ?w) = json 200 True None (CommentsRes served)"
    and en: "map (enrich_comment sorting_env)
               [with_replies comment_A [], with_replies comment_B_tie []] = map Inr served"
    by (auto simp: sorting_env_simps sample_requests)
  from enrich_comments_Inr [OF en]
  have "map comment.truncate served = [comment_A, comment_B_tie]"
    by (simp add: truncate_with_replies)
  then have "map c_id (map comment.truncate served) = [''a'', ''b'']"
    by (simp add: sample_ids)
  then have ids: "map c_id served = [''a'', ''b'']"
    by (simp add: c_id_truncate comp_def)
  have s: "served_comments (fst (getComments sorting_env req_get ?w)) = served"
    by (simp add: sv served_comments_def json_def)
  show ?thesis
    by (intro conjI) (simp_all add: st o f [OF c r] s ids)
qed
end
